(* ===== verification/Prelude.thy ===== *)
theory Prelude
  imports Main "HOL-Library.Word"
begin

text \<open>
  Shared vocabulary of the development: the machine-integer types of the C++ sources, the
  collections of simplification rules the component theories fill, alignment of sizes by
  masking, a generic reachability predicate with its invariant rule, and list facts that
  several components use.
\<close>

unbundle bit_operations_syntax

type_synonym u8 = "8 word"
type_synonym u16 = "16 word"
type_synonym u32 = "32 word"
type_synonym u64 = "64 word"
type_synonym pid = u64
type_synonym bytes = "u8 list"

named_theorems spin_defs \<open>definitions of the spin-lock transitions and their invariant\<close>

section \<open>Arithmetic on words\<close>

lemma unat_add_no_wrap:
  fixes a b :: u64
  assumes "unat a + unat b < 2 ^ 64"
  shows "unat (a + b) = unat a + unat b"
  using assms by (simp add: unat_word_ariths)

lemma unat_mult_no_wrap:
  fixes a b :: u64
  assumes "unat a * unat b < 2 ^ 64"
  shows "unat (a * b) = unat a * unat b"
  using assms by (simp add: unat_word_ariths)

lemma unat_inc_no_wrap:
  fixes a :: u64
  assumes "unat a + 1 < 2 ^ 64"
  shows "unat (a + 1) = unat a + 1"
  using assms by (simp add: unat_word_ariths)

lemma unat_of_nat_pred:
  assumes "0 < k" and "k < 2 ^ 64"
  shows "unat (of_nat k - 1 :: u64) = k - 1"
proof -
  have "(of_nat k - 1 :: u64) = of_nat (k - 1)"
    using assms(1) by (simp add: of_nat_diff)
  then show ?thesis
    using assms(2) by (simp add: unat_of_nat)
qed

lemma unat_ucast_u32_u64 [simp]: "unat (ucast (w :: u32) :: u64) = unat w"
  by (simp add: unsigned_ucast_eq take_bit_nat_eq_self order_less_trans [OF unsigned_less])

lemma ucast_u64_u32_u64:
  fixes x :: u64
  assumes "unat x < 2 ^ 32"
  shows "ucast (ucast x :: u32) = x"
proof -
  have "unat (ucast x :: u32) = unat x"
    using assms by (simp add: unsigned_ucast_eq take_bit_nat_eq_self)
  then show ?thesis
    by (simp add: word_unat_eq_iff)
qed

lemma ucast_u32_u64_u32 [simp]: "ucast (ucast (w :: u32) :: u64) = w"
  by (rule bit_word_eqI) (simp add: bit_simps)

section \<open>Rounding up to a power of two\<close>

text \<open>
  \<open>(x + (1 << k) - 1) & ~((1 << k) - 1)\<close>, the idiom the sources use for cache lines and
  pages. The characteristic equation is proved once; the laws that the layout relies on follow
  from it in the locale \<open>aligner\<close> below.
\<close>

definition round_up_pow2 :: "nat \<Rightarrow> u64 \<Rightarrow> u64" where
  "round_up_pow2 k x = (x + 2 ^ k - 1) AND NOT (2 ^ k - 1)"

lemma unat_pow2_u64:
  assumes "k < 64"
  shows "unat (2 ^ k :: u64) = 2 ^ k"
proof -
  have "unat (push_bit k 1 :: u64) = take_bit 64 (push_bit k (unat (1 :: u64)))"
    by (simp only: unsigned_push_bit_eq) simp
  also have "\<dots> = take_bit 64 (2 ^ k)"
    by (simp add: push_bit_eq_mult)
  also have "\<dots> = 2 ^ k"
    using assms by (simp add: take_bit_nat_eq_self_iff power_strict_increasing)
  finally show ?thesis
    by (simp add: push_bit_eq_mult)
qed

lemma and_not_mask_unat:
  fixes y :: u64
  assumes "k < 64"
  shows "unat (y AND NOT (2 ^ k - 1)) = unat y div 2 ^ k * 2 ^ k"
proof -
  have m: "(2 ^ k - 1 :: u64) = mask k"
    by (simp add: mask_eq_decr_exp)
  have "y AND NOT (mask k) = push_bit k (drop_bit k y)"
    by (rule bit_word_eqI) (auto simp: bit_simps)
  moreover have "unat (push_bit k (drop_bit k y)) = unat y div 2 ^ k * 2 ^ k"
  proof -
    have d: "unat (drop_bit k y) = unat y div 2 ^ k"
      by (metis drop_bit_eq_div unat_drop_bit_eq)
    have lt: "unat y div 2 ^ k * 2 ^ k < 2 ^ 64"
      by (rule le_less_trans [OF div_times_less_eq_dividend])
        (use unsigned_less [where 'a = nat, of y] in simp)
    have "push_bit k (drop_bit k y) = drop_bit k y * 2 ^ k"
      by (simp add: push_bit_eq_mult)
    then have "unat (push_bit k (drop_bit k y)) = (unat y div 2 ^ k * unat (2 ^ k :: u64)) mod 2 ^ 64"
      using d by (simp add: unat_word_ariths)
    also have "unat (2 ^ k :: u64) = 2 ^ k"
      using assms by (rule unat_pow2_u64)
    finally show ?thesis
      using lt by simp
  qed
  ultimately show ?thesis
    by (simp add: m)
qed

lemma round_up_pow2_unat:
  assumes k: "k < 64" and nw: "unat x + 2 ^ k \<le> 2 ^ 64"
  shows "unat (round_up_pow2 k x) = (unat x + 2 ^ k - 1) div 2 ^ k * 2 ^ k"
proof -
  have pk: "unat (2 ^ k - 1 :: u64) = 2 ^ k - 1"
  proof -
    have "(1::u64) \<le> 2 ^ k"
      using k by (simp add: word_le_nat_alt unat_pow2_u64)
    then have "unat (2 ^ k - 1 :: u64) = unat (2 ^ k :: u64) - unat (1 :: u64)"
      by (rule unat_sub)
    then show ?thesis
      using k by (simp add: unat_pow2_u64)
  qed
  have "unat (x + (2 ^ k - 1)) = unat x + (2 ^ k - 1)"
    using nw k pk by (subst unat_add_no_wrap) (auto simp: pk)
  then have e: "unat (x + 2 ^ k - 1) = unat x + 2 ^ k - 1"
    by (simp add: add_diff_eq)
  show ?thesis
    unfolding round_up_pow2_def by (simp only: and_not_mask_unat [OF k] e)
qed

lemma round_up_pow2_dvd:
  assumes "k < 64"
  shows "2 ^ k dvd unat (round_up_pow2 k x)"
  using assms by (simp add: round_up_pow2_def and_not_mask_unat)

text \<open>
  The contract the layout code relies on for a rounding function: under the no-wrap bound it
  computes the least multiple of \<open>a\<close> that is not below its argument.
\<close>

locale aligner =
  fixes up :: "u64 \<Rightarrow> u64" and a :: nat
  assumes a_pos: "0 < a"
    and a_dvd_wrap: "a dvd 2 ^ 64"
    and up_dvd: "a dvd unat (up x)"
    and up_eq: "unat x + a \<le> 2 ^ 64 \<Longrightarrow> unat (up x) = (unat x + a - 1) div a * a"
begin

lemma up_ge: "unat x + a \<le> 2 ^ 64 \<Longrightarrow> unat x \<le> unat (up x)"
proof -
  assume b: "unat x + a \<le> 2 ^ 64"
  have "(unat x + a - 1) mod a < a"
    using a_pos by simp
  moreover have "(unat x + a - 1) div a * a + (unat x + a - 1) mod a = unat x + a - 1"
    by (rule div_mult_mod_eq)
  ultimately show ?thesis
    using up_eq [OF b] a_pos by linarith
qed

lemma up_less: "unat x + a \<le> 2 ^ 64 \<Longrightarrow> unat (up x) < unat x + a"
proof -
  assume b: "unat x + a \<le> 2 ^ 64"
  have "(unat x + a - 1) div a * a \<le> unat x + a - 1"
    by (rule div_times_less_eq_dividend)
  then show ?thesis
    using up_eq [OF b] a_pos by linarith
qed

lemma up_mod: "unat (up x) mod a = 0"
  using up_dvd by (simp add: dvd_eq_mod_eq_0)

lemma up_fix: "a dvd unat x \<Longrightarrow> unat x + a \<le> 2 ^ 64 \<Longrightarrow> up x = x"
proof -
  assume d: "a dvd unat x" and b: "unat x + a \<le> 2 ^ 64"
  from d obtain q where q: "unat x = a * q" ..
  have "unat x + a - 1 = (a - 1) + q * a"
    using q a_pos by (simp add: mult.commute)
  then have "(unat x + a - 1) div a = (a - 1) div a + q"
    using a_pos by (simp only: div_mult_self1)
  then have "(unat x + a - 1) div a = q"
    using a_pos by simp
  then have "unat (up x) = unat x"
    using up_eq [OF b] q by simp
  then show ?thesis
    by (simp add: word_unat_eq_iff)
qed

lemma up_idem: "unat x + 2 * a \<le> 2 ^ 64 \<Longrightarrow> up (up x) = up x"
proof -
  assume b: "unat x + 2 * a \<le> 2 ^ 64"
  then have "unat (up x) + a \<le> 2 ^ 64"
    using up_less [of x] by simp
  then show ?thesis
    using up_fix up_dvd by simp
qed

lemma sum_dvd: "a dvd unat x \<Longrightarrow> a dvd unat y \<Longrightarrow> a dvd unat (x + y)" for x y :: u64
  using a_dvd_wrap by (simp add: unat_word_ariths dvd_mod)

end

section \<open>Reachable states\<close>

text \<open>States reachable from an initial state by a step relation.\<close>

inductive reach :: "('s \<Rightarrow> bool) \<Rightarrow> ('s \<Rightarrow> 's \<Rightarrow> bool) \<Rightarrow> 's \<Rightarrow> bool"
  for init :: "'s \<Rightarrow> bool" and step :: "'s \<Rightarrow> 's \<Rightarrow> bool" where
  reach_init: "init s \<Longrightarrow> reach init step s"
| reach_step: "reach init step s \<Longrightarrow> step s t \<Longrightarrow> reach init step t"

text \<open>
  The contract of an inductive invariant: it holds initially and every step keeps it. A
  component that supplies the two laws gets the invariant on every reachable state.
\<close>

locale inductive_invariant =
  fixes init :: "'s \<Rightarrow> bool" and step :: "'s \<Rightarrow> 's \<Rightarrow> bool" and inv :: "'s \<Rightarrow> bool"
  assumes inv_init: "init s \<Longrightarrow> inv s"
    and inv_step: "inv s \<Longrightarrow> step s t \<Longrightarrow> inv t"
begin

lemma reach_inv: "reach init step s \<Longrightarrow> inv s"
  by (induction rule: reach.induct) (auto intro: inv_init inv_step)

end

text \<open>
  The contract of a refinement: under the invariant every step of the detailed system is a step of
  the abstract one or leaves the abstract state alone. Then every reachable detailed state abstracts
  to a reachable abstract state.
\<close>

locale simulation = inductive_invariant init step inv
  for init :: "'s \<Rightarrow> bool" and step :: "'s \<Rightarrow> 's \<Rightarrow> bool" and inv :: "'s \<Rightarrow> bool" +
  fixes abs :: "'s \<Rightarrow> 'a" and ainit :: "'a \<Rightarrow> bool" and astep :: "'a \<Rightarrow> 'a \<Rightarrow> bool"
  assumes sim_init: "init s \<Longrightarrow> ainit (abs s)"
    and sim_step: "inv s \<Longrightarrow> step s t \<Longrightarrow> abs t = abs s \<or> astep (abs s) (abs t)"
begin

lemma reach_abs: "reach init step s \<Longrightarrow> reach ainit astep (abs s)"
proof (induction rule: reach.induct)
  case (reach_init s)
  then show ?case
    by (intro reach.reach_init sim_init)
next
  case (reach_step s t)
  then show ?case
    using sim_step [OF reach_inv, of s t] by (metis reach.reach_step)
qed

lemma reach_sim_step: "reach init step s \<Longrightarrow> step s t \<Longrightarrow> abs t = abs s \<or> astep (abs s) (abs t)"
  by (rule sim_step [OF reach_inv])

end

section \<open>Lists\<close>

text \<open>Updating an entry in a way a projection does not see.\<close>

lemma list_update_proj: "f y = f (xs ! i) \<Longrightarrow> f (xs[i := y] ! j) = f (xs ! j)"
  by (cases "i < length xs"; cases "i = j") (auto simp: list_update_beyond)

lemma length_filter_update:
  assumes "i < length xs"
  shows "length (filter P (xs[i := x])) + (if P (xs ! i) then 1 else 0)
    = length (filter P xs) + (if P x then 1 else 0)"
  using assms
proof (induction xs arbitrary: i)
  case Nil
  then show ?case by simp
next
  case (Cons y xs)
  then show ?case by (cases i) auto
qed

lemma sum_list_update_nat:
  fixes xs :: "nat list"
  assumes "i < length xs"
  shows "sum_list (xs[i := v]) + xs ! i = sum_list xs + v"
  using assms
proof (induction xs arbitrary: i)
  case Nil
  then show ?case by simp
next
  case (Cons x xs)
  then show ?case by (cases i) auto
qed

end
