(* ===== verification/Shm_Types.thy ===== *)
theory Shm_Types
  imports Prelude
begin

text \<open>
  The data of the shared-memory layer: the enumerations of \<open>data_block_policy.hpp\<close> and
  \<open>data_block_config.hpp\<close>, the configuration \<open>DataBlockConfig\<close>, the per-slot state
  \<open>SlotRWState\<close> and the segment header \<open>SharedMemoryHeader\<close> of \<open>data_block.hpp\<close>.
  The header is one record per section of the C++ struct. Byte regions of \<open>reserved_header\<close>
  that the code addresses by a fixed offset are fields of their own; padding and the words the
  struct calls reserved are left out.
\<close>

section \<open>Enumerations\<close>

datatype DataBlockPageSize = PageSize_Unset | Size4K | Size4M | Size16M

definition to_bytes :: "DataBlockPageSize \<Rightarrow> u64" where
  "to_bytes u = (case u of PageSize_Unset \<Rightarrow> 0 | Size4K \<Rightarrow> 4096 | Size4M \<Rightarrow> 4194304
     | Size16M \<Rightarrow> 16777216)"

datatype DataBlockPolicy = Single | DoubleBuffer | RingBuffer | DataBlockPolicy_Unset

datatype ConsumerSyncPolicy = Latest_only | Sequential | Sequential_sync | ConsumerSyncPolicy_Unset

datatype ChecksumType = BLAKE2b | ChecksumType_Unset

datatype ChecksumPolicy = ChecksumPolicy_None | ChecksumPolicy_Manual | ChecksumPolicy_Enforced

text \<open>\<open>static_cast<uint8_t>\<close> of the enumerations, as the header and the layout checksum store
  them (\<open>Unset\<close> is 255 everywhere).\<close>

definition policy_u8 :: "DataBlockPolicy \<Rightarrow> u8" where
  "policy_u8 p = (case p of Single \<Rightarrow> 0 | DoubleBuffer \<Rightarrow> 1 | RingBuffer \<Rightarrow> 2
     | DataBlockPolicy_Unset \<Rightarrow> 255)"

definition sync_policy_u8 :: "ConsumerSyncPolicy \<Rightarrow> u8" where
  "sync_policy_u8 p = (case p of Latest_only \<Rightarrow> 0 | Sequential \<Rightarrow> 1 | Sequential_sync \<Rightarrow> 2
     | ConsumerSyncPolicy_Unset \<Rightarrow> 255)"

definition checksum_type_u8 :: "ChecksumType \<Rightarrow> u8" where
  "checksum_type_u8 t = (case t of BLAKE2b \<Rightarrow> 0 | ChecksumType_Unset \<Rightarrow> 255)"

text \<open>\<open>parse_consumer_sync_policy\<close>: \<open>Inl\<close> carries the offending text of the
  \<open>runtime_error\<close>.\<close>

definition parse_consumer_sync_policy :: "string \<Rightarrow> string + ConsumerSyncPolicy" where
  "parse_consumer_sync_policy s =
     (if s = ''latest_only'' then Inr Latest_only
      else if s = ''sequential'' then Inr Sequential
      else if s = ''sequential_sync'' then Inr Sequential_sync
      else Inl s)"

section \<open>Configuration\<close>

record DataBlockConfig =
  cfg_name :: string
  cfg_physical_page_size :: DataBlockPageSize
  cfg_logical_unit_size :: u64
  cfg_ring_buffer_capacity :: u32
  cfg_policy :: DataBlockPolicy
  cfg_consumer_sync_policy :: ConsumerSyncPolicy
  cfg_checksum_type :: ChecksumType
  cfg_checksum_policy :: ChecksumPolicy
  cfg_flex_zone_size :: u64
  cfg_hub_uid :: string
  cfg_hub_name :: string
  cfg_producer_uid :: string
  cfg_producer_name :: string

definition cache_line_up :: "u64 \<Rightarrow> u64" where
  "cache_line_up x = (x + 64 - 1) AND NOT (64 - 1)"

definition effective_logical_unit_size :: "DataBlockConfig \<Rightarrow> u64" where
  "effective_logical_unit_size c =
     (if cfg_logical_unit_size c = 0 then to_bytes (cfg_physical_page_size c)
      else cache_line_up (cfg_logical_unit_size c))"

definition config_slots :: "DataBlockConfig \<Rightarrow> u32" where
  "config_slots c = (if cfg_ring_buffer_capacity c > 0 then cfg_ring_buffer_capacity c else 1)"

definition config_structured_buffer_size :: "DataBlockConfig \<Rightarrow> u64" where
  "config_structured_buffer_size c = ucast (config_slots c) * effective_logical_unit_size c"

section \<open>Slot state\<close>

datatype SlotState = FREE | WRITING | COMMITTED | DRAINING

record SlotRWState =
  write_lock :: pid
  reader_count :: u32
  slot_state :: SlotState
  writer_waiting :: u8
  write_generation :: u64

datatype SlotAcquireResult =
    SLOT_ACQUIRE_OK | SLOT_ACQUIRE_TIMEOUT | SLOT_ACQUIRE_NOT_READY | SLOT_ACQUIRE_LOCKED
  | SLOT_ACQUIRE_ERROR | SLOT_ACQUIRE_INVALID_STATE

definition slot_acquire_result_string :: "SlotAcquireResult \<Rightarrow> string" where
  "slot_acquire_result_string r = (case r of
       SLOT_ACQUIRE_OK \<Rightarrow> ''OK'' | SLOT_ACQUIRE_TIMEOUT \<Rightarrow> ''TIMEOUT''
     | SLOT_ACQUIRE_NOT_READY \<Rightarrow> ''NOT_READY'' | SLOT_ACQUIRE_LOCKED \<Rightarrow> ''LOCKED''
     | SLOT_ACQUIRE_ERROR \<Rightarrow> ''ERROR'' | SLOT_ACQUIRE_INVALID_STATE \<Rightarrow> ''INVALID_STATE'')"

section \<open>Segment header\<close>

text \<open>Slot-coordination counters.\<close>

record SlotMetrics =
  writer_timeout_count :: u64
  writer_lock_timeout_count :: u64
  writer_reader_timeout_count :: u64
  writer_blocked_total_ns :: u64
  write_lock_contention :: u64
  write_generation_wraps :: u64
  reader_not_ready_count :: u64
  reader_race_detected :: u64
  reader_validation_failed :: u64
  reader_peak_count :: u64
  reader_timeout_count :: u64

text \<open>Error-tracking counters.\<close>

record ErrorMetrics =
  last_error_timestamp_ns :: u64
  last_error_code :: u32
  error_sequence :: u32
  slot_acquire_errors :: u64
  slot_commit_errors :: u64
  checksum_failures :: u64
  zmq_send_failures :: u64
  zmq_recv_failures :: u64
  zmq_timeout_count :: u64
  recovery_actions_count :: u64
  schema_mismatch_count :: u64

text \<open>Heartbeat and performance counters.\<close>

record PerfMetrics =
  heartbeat_sent_count :: u64
  heartbeat_failed_count :: u64
  stat_last_heartbeat_ns :: u64
  total_slots_written :: u64
  total_slots_read :: u64
  total_bytes_written :: u64
  total_bytes_read :: u64
  uptime_seconds :: u64
  creation_timestamp_ns :: u64

text \<open>One entry of \<open>consumer_heartbeats\<close>; the char arrays are strings.\<close>

record ConsumerHeartbeat =
  consumer_pid :: pid
  last_heartbeat_ns :: u64
  consumer_uid :: string
  consumer_name :: string

text \<open>One entry of \<open>flexible_zone_checksums\<close> or of the slot-checksum array: 32 hash bytes and
  the reader-side "verified" byte.\<close>

record ChecksumEntry =
  checksum_bytes :: bytes
  cks_is_valid :: u8

text \<open>The layout-defining section of the header, written once by the creator.\<close>

record HeaderConfig =
  version_major :: u16
  version_minor :: u16
  total_block_size :: u64
  policy :: DataBlockPolicy
  consumer_sync_policy :: ConsumerSyncPolicy
  physical_page_size :: u32
  logical_unit_size :: u32
  ring_buffer_capacity :: u32
  flexible_zone_size :: u32
  checksum_type :: u8
  checksum_policy :: ChecksumPolicy

text \<open>The state of one shared spin lock (\<open>shared_memory_spinlock.hpp\<close>).\<close>

record SharedSpinLockState =
  owner_pid :: pid
  owner_tid :: u64
  generation :: u64
  recursion_count :: u32

definition init_spinlock_state :: SharedSpinLockState where
  "init_spinlock_state = \<lparr>owner_pid = 0, owner_tid = 0, generation = 0, recursion_count = 0\<rparr>"

record SharedMemoryHeader =
  magic_number :: u32
  flexzone_schema_hash :: bytes
  datablock_schema_hash :: bytes
  schema_version :: u32
  hconfig :: HeaderConfig
  write_index :: u64
  commit_index :: u64
  read_index :: u64
  active_consumer_count :: u32
  slot_metrics :: SlotMetrics
  error_metrics :: ErrorMetrics
  perf_metrics :: PerfMetrics
  consumer_heartbeats :: "ConsumerHeartbeat list"
  hub_uid :: string
  hub_name :: string
  producer_uid :: string
  producer_name :: string
  spinlock_states :: "SharedSpinLockState list"
  flexible_zone_checksums :: "ChecksumEntry list"
  header_layout_hash :: bytes
  layout_checksum :: bytes
  consumer_next_read_slot :: "u64 list"
  producer_heartbeat_id :: pid
  producer_heartbeat_ns :: u64

definition INVALID_SLOT_ID :: u64 where
  "INVALID_SLOT_ID = - 1"

definition MAX_CONSUMER_HEARTBEATS :: nat where
  "MAX_CONSUMER_HEARTBEATS = 8"

definition MAX_SHARED_SPINLOCKS :: nat where
  "MAX_SHARED_SPINLOCKS = 8"

definition MAX_FLEXIBLE_ZONE_CHECKSUMS :: nat where
  "MAX_FLEXIBLE_ZONE_CHECKSUMS = 8"

definition DATABLOCK_MAGIC_NUMBER :: u32 where
  "DATABLOCK_MAGIC_NUMBER = 0x504C4842"

definition PRODUCER_HEARTBEAT_STALE_THRESHOLD_NS :: u64 where
  "PRODUCER_HEARTBEAT_STALE_THRESHOLD_NS = 5000000000"

lemma unat_INVALID_SLOT_ID: "unat INVALID_SLOT_ID = 2 ^ 64 - 1"
  by (simp add: INVALID_SLOT_ID_def unsigned_minus_1_eq_mask mask_eq_exp_minus_1)

lemma unat_inc_valid:
  assumes "k \<noteq> INVALID_SLOT_ID"
  shows "unat (k + 1) = unat k + 1"
proof -
  have "unat k \<noteq> 2 ^ 64 - 1" and "unat k < 2 ^ 64"
    using assms unsigned_less [where 'a = nat, of k]
    by (simp_all add: word_unat_eq_iff unat_INVALID_SLOT_ID)
  then show ?thesis
    by (intro unat_inc_no_wrap) linarith
qed

lemma le_INVALID_SLOT_ID [simp]: "x \<le> INVALID_SLOT_ID"
  by (simp add: INVALID_SLOT_ID_def unsigned_minus_1_eq_mask mask_eq_exp_minus_1)

section \<open>Header accessors\<close>

text \<open>\<open>namespace detail\<close> of \<open>data_block_internal.hpp\<close> and \<open>data_block.hpp\<close>: every accessor
  takes a possibly null header, here an option.\<close>

definition get_slot_count :: "SharedMemoryHeader option \<Rightarrow> u32" where
  "get_slot_count h = (case h of
       Some hdr \<Rightarrow> if ring_buffer_capacity (hconfig hdr) > 0
                  then ring_buffer_capacity (hconfig hdr) else 1
     | None \<Rightarrow> 1)"

definition get_slot_stride_bytes :: "SharedMemoryHeader option \<Rightarrow> u32" where
  "get_slot_stride_bytes h = (case h of
       Some hdr \<Rightarrow> if logical_unit_size (hconfig hdr) \<noteq> 0 then logical_unit_size (hconfig hdr)
                  else physical_page_size (hconfig hdr)
     | None \<Rightarrow> 0)"

definition get_total_commits :: "SharedMemoryHeader option \<Rightarrow> u64" where
  "get_total_commits h = (case h of Some hdr \<Rightarrow> total_slots_written (perf_metrics hdr) | None \<Rightarrow> 0)"

definition has_any_commits :: "SharedMemoryHeader option \<Rightarrow> bool" where
  "has_any_commits h = (get_total_commits h > 0)"

definition get_commit_index :: "SharedMemoryHeader option \<Rightarrow> u64" where
  "get_commit_index h = (case h of Some hdr \<Rightarrow> commit_index hdr | None \<Rightarrow> INVALID_SLOT_ID)"

definition get_write_index :: "SharedMemoryHeader option \<Rightarrow> u64" where
  "get_write_index h = (case h of Some hdr \<Rightarrow> write_index hdr | None \<Rightarrow> 0)"

definition get_read_index :: "SharedMemoryHeader option \<Rightarrow> u64" where
  "get_read_index h = (case h of Some hdr \<Rightarrow> read_index hdr | None \<Rightarrow> 0)"

definition is_header_magic_valid :: "u32 option \<Rightarrow> u32 \<Rightarrow> bool" where
  "is_header_magic_valid m expected = (case m of Some v \<Rightarrow> v = expected | None \<Rightarrow> False)"

end
