(* ===== verification/Shm_Layout.thy ===== *)
theory Shm_Layout
  imports Shm_Types
begin

text \<open>
  \<open>DataBlockLayout\<close> of \<open>data_block.cpp\<close>: where the header, the slot-state array, the slot
  checksums, the flexible zone and the ring buffer lie in a segment. The creator computes it from
  its configuration (\<open>from_config\<close>), an attacher from the header (\<open>from_header\<close>). Sizes are
  64-bit words, so every sum and product of the code wraps here as it does there. The theory also
  holds the creation of the header (\<open>init_producer_state_\<close>), the layout checksum of
  \<open>data_block_schema.cpp\<close> and the validations an attacher runs.
\<close>

section \<open>Layout\<close>

definition PAGE_ALIGNMENT :: u64 where
  "PAGE_ALIGNMENT = 4096"

definition page_up :: "u64 \<Rightarrow> u64" where
  "page_up x = (x + PAGE_ALIGNMENT - 1) AND NOT (PAGE_ALIGNMENT - 1)"

text \<open>\<open>sizeof(SharedMemoryHeader)\<close> is one page; \<open>SlotRWState\<close> holds 48 bytes and is declared
  \<open>alignas(64)\<close>, so one array element takes 64.\<close>

definition sizeof_SharedMemoryHeader :: u64 where
  "sizeof_SharedMemoryHeader = 4096"

definition sizeof_SlotRWState :: u64 where
  "sizeof_SlotRWState = 64"

definition SLOT_CHECKSUM_ENTRY_SIZE :: u64 where
  "SLOT_CHECKSUM_ENTRY_SIZE = 33"

record DataBlockLayout =
  lay_slot_rw_state_offset :: u64
  lay_slot_rw_state_size :: u64
  lay_slot_checksum_offset :: u64
  lay_slot_checksum_size :: u64
  lay_flexible_zone_offset :: u64
  lay_flexible_zone_size :: u64
  lay_structured_buffer_offset :: u64
  lay_structured_buffer_size :: u64
  lay_total_size :: u64
  lay_slot_stride_bytes :: u64
  lay_physical_page_size_bytes :: u64
  lay_slot_count :: u32

definition empty_layout :: DataBlockLayout where
  "empty_layout = \<lparr>lay_slot_rw_state_offset = 0, lay_slot_rw_state_size = 0,
     lay_slot_checksum_offset = 0, lay_slot_checksum_size = 0, lay_flexible_zone_offset = 0,
     lay_flexible_zone_size = 0, lay_structured_buffer_offset = 0,
     lay_structured_buffer_size = 0, lay_total_size = 0, lay_slot_stride_bytes = 0,
     lay_physical_page_size_bytes = 0, lay_slot_count = 0\<rparr>"

datatype shm_error =
    Logic_error_ring_buffer_misaligned
  | Invalid_policy_unset | Invalid_sync_policy_unset | Invalid_page_size_unset
  | Invalid_capacity_zero | Invalid_checksum_type_unset
  | Invalid_logical_unit_size_too_big
  | Attach_init_timeout | Attach_version_mismatch | Attach_size_mismatch
  | Schema_header_layout_mismatch
  | Module_not_initialized | Shm_map_failed | Source_fd_size_mismatch

text \<open>The part \<open>from_config\<close> and \<open>from_header\<close> have in common: the offsets from the slot
  count, the checksum flag and the sizes of the data region.\<close>

definition layout_of ::
  "u32 \<Rightarrow> bool \<Rightarrow> u64 \<Rightarrow> u64 \<Rightarrow> u64 \<Rightarrow> u64 \<Rightarrow> shm_error + DataBlockLayout" where
  "layout_of slots has_checksum flex stride page_bytes buf_size =
     (let rw_size = ucast slots * sizeof_SlotRWState;
          ck_size = (if has_checksum then ucast slots * SLOT_CHECKSUM_ENTRY_SIZE else 0);
          control_zone_size = rw_size + ck_size;
          control_zone_end = sizeof_SharedMemoryHeader + control_zone_size;
          data_region_offset = page_up control_zone_end;
          sb_off = data_region_offset + flex
      in if sb_off mod PAGE_ALIGNMENT \<noteq> 0 then Inl Logic_error_ring_buffer_misaligned
         else Inr \<lparr>lay_slot_rw_state_offset = sizeof_SharedMemoryHeader,
                lay_slot_rw_state_size = rw_size,
                lay_slot_checksum_offset = sizeof_SharedMemoryHeader + rw_size,
                lay_slot_checksum_size = ck_size,
                lay_flexible_zone_offset = data_region_offset,
                lay_flexible_zone_size = flex,
                lay_structured_buffer_offset = sb_off,
                lay_structured_buffer_size = buf_size,
                lay_total_size = page_up (sb_off + buf_size),
                lay_slot_stride_bytes = stride,
                lay_physical_page_size_bytes = page_bytes,
                lay_slot_count = slots\<rparr>)"

definition from_config :: "DataBlockConfig \<Rightarrow> shm_error + DataBlockLayout" where
  "from_config c = layout_of (config_slots c) (cfg_checksum_type c \<noteq> ChecksumType_Unset)
     (page_up (cfg_flex_zone_size c)) (effective_logical_unit_size c)
     (to_bytes (cfg_physical_page_size c)) (config_structured_buffer_size c)"

text \<open>\<open>get_checksum_type\<close> casts the stored byte back to the enumeration; only the comparison
  with \<open>Unset\<close> (255) matters.\<close>

definition from_header :: "SharedMemoryHeader option \<Rightarrow> shm_error + DataBlockLayout" where
  "from_header h = (case h of None \<Rightarrow> Inr empty_layout
     | Some hdr \<Rightarrow>
        (let slots = get_slot_count h; stride = ucast (get_slot_stride_bytes h)
         in layout_of slots (checksum_type (hconfig hdr) \<noteq> checksum_type_u8 ChecksumType_Unset)
              (ucast (flexible_zone_size (hconfig hdr))) stride
              (ucast (physical_page_size (hconfig hdr))) (ucast slots * stride)))"

definition control_zone_size :: "DataBlockLayout \<Rightarrow> u64" where
  "control_zone_size l = lay_slot_rw_state_size l + lay_slot_checksum_size l"

definition control_zone_end :: "DataBlockLayout \<Rightarrow> u64" where
  "control_zone_end l = lay_slot_rw_state_offset l + control_zone_size l"

definition has_flex_zone :: "DataBlockLayout \<Rightarrow> bool" where
  "has_flex_zone l = (lay_flexible_zone_size l > 0)"

text \<open>Pointers are offsets from the segment base; \<open>None\<close> is \<open>nullptr\<close>.\<close>

definition flex_zone_ptr :: "DataBlockLayout \<Rightarrow> u64 option" where
  "flex_zone_ptr l = (if has_flex_zone l then Some (lay_flexible_zone_offset l) else None)"

definition slot_ptr :: "DataBlockLayout \<Rightarrow> u64 \<Rightarrow> u64 option" where
  "slot_ptr l i = (if i \<ge> ucast (lay_slot_count l) then None
     else Some (lay_structured_buffer_offset l + i * lay_slot_stride_bytes l))"

definition validate_layout :: "DataBlockLayout \<Rightarrow> bool" where
  "validate_layout l =
     (if lay_slot_rw_state_offset l \<noteq> sizeof_SharedMemoryHeader then False
      else if lay_slot_checksum_offset l \<noteq> lay_slot_rw_state_offset l + lay_slot_rw_state_size l
        then False
      else (let cze = lay_slot_checksum_offset l + lay_slot_checksum_size l in
        if lay_flexible_zone_offset l mod PAGE_ALIGNMENT \<noteq> 0 then False
        else if lay_flexible_zone_offset l < cze then False
        else if lay_flexible_zone_size l mod PAGE_ALIGNMENT \<noteq> 0 then False
        else if lay_structured_buffer_offset l
                  \<noteq> lay_flexible_zone_offset l + lay_flexible_zone_size l then False
        else if lay_structured_buffer_offset l mod PAGE_ALIGNMENT \<noteq> 0 then False
        else lay_total_size l
               = page_up (lay_structured_buffer_offset l + lay_structured_buffer_size l)))"

section \<open>Creation\<close>

text \<open>The checks of the \<open>DataBlock\<close> constructors, in their order.\<close>

definition check_config :: "DataBlockConfig \<Rightarrow> shm_error option" where
  "check_config c =
     (if cfg_policy c = DataBlockPolicy_Unset then Some Invalid_policy_unset
      else if cfg_consumer_sync_policy c = ConsumerSyncPolicy_Unset
        then Some Invalid_sync_policy_unset
      else if cfg_physical_page_size c = PageSize_Unset then Some Invalid_page_size_unset
      else if cfg_ring_buffer_capacity c = 0 then Some Invalid_capacity_zero
      else if cfg_checksum_type c = ChecksumType_Unset then Some Invalid_checksum_type_unset
      else None)"

definition HEADER_VERSION_MAJOR :: u16 where "HEADER_VERSION_MAJOR = 1"
definition HEADER_VERSION_MINOR :: u16 where "HEADER_VERSION_MINOR = 0"

definition header_config_of :: "DataBlockConfig \<Rightarrow> DataBlockLayout \<Rightarrow> HeaderConfig" where
  "header_config_of c l = \<lparr>version_major = HEADER_VERSION_MAJOR,
     version_minor = HEADER_VERSION_MINOR, total_block_size = lay_total_size l,
     policy = cfg_policy c, consumer_sync_policy = cfg_consumer_sync_policy c,
     physical_page_size = ucast (to_bytes (cfg_physical_page_size c)),
     logical_unit_size = ucast (effective_logical_unit_size c),
     ring_buffer_capacity = cfg_ring_buffer_capacity c,
     flexible_zone_size = ucast (lay_flexible_zone_size l),
     checksum_type = checksum_type_u8 (cfg_checksum_type c),
     checksum_policy = cfg_checksum_policy c\<rparr>"

definition zero_slot_metrics :: SlotMetrics where
  "zero_slot_metrics = \<lparr>writer_timeout_count = 0, writer_lock_timeout_count = 0,
     writer_reader_timeout_count = 0, writer_blocked_total_ns = 0, write_lock_contention = 0,
     write_generation_wraps = 0, reader_not_ready_count = 0, reader_race_detected = 0,
     reader_validation_failed = 0, reader_peak_count = 0, reader_timeout_count = 0\<rparr>"

definition zero_error_metrics :: ErrorMetrics where
  "zero_error_metrics = \<lparr>last_error_timestamp_ns = 0, last_error_code = 0, error_sequence = 0,
     slot_acquire_errors = 0, slot_commit_errors = 0, checksum_failures = 0,
     zmq_send_failures = 0, zmq_recv_failures = 0, zmq_timeout_count = 0,
     recovery_actions_count = 0, schema_mismatch_count = 0\<rparr>"

definition zero_perf_metrics :: PerfMetrics where
  "zero_perf_metrics = \<lparr>heartbeat_sent_count = 0, heartbeat_failed_count = 0,
     stat_last_heartbeat_ns = 0, total_slots_written = 0, total_slots_read = 0,
     total_bytes_written = 0, total_bytes_read = 0, uptime_seconds = 0,
     creation_timestamp_ns = 0\<rparr>"

definition free_consumer_heartbeat :: ConsumerHeartbeat where
  "free_consumer_heartbeat =
     \<lparr>consumer_pid = 0, last_heartbeat_ns = 0, consumer_uid = '''', consumer_name = ''''\<rparr>"

definition zero_hash :: bytes where
  "zero_hash = replicate 32 0"

text \<open>The header up to, but not including, the store of the magic number. \<open>now\<close> is the
  monotonic clock.\<close>

definition header_before_magic ::
  "u64 \<Rightarrow> DataBlockConfig \<Rightarrow> DataBlockLayout \<Rightarrow> SharedMemoryHeader" where
  "header_before_magic now c l = \<lparr>magic_number = 0, flexzone_schema_hash = zero_hash,
     datablock_schema_hash = zero_hash, schema_version = 0, hconfig = header_config_of c l,
     write_index = 0, commit_index = INVALID_SLOT_ID, read_index = 0,
     active_consumer_count = 0, slot_metrics = zero_slot_metrics,
     error_metrics = zero_error_metrics,
     perf_metrics = zero_perf_metrics\<lparr>creation_timestamp_ns := now\<rparr>,
     consumer_heartbeats = replicate MAX_CONSUMER_HEARTBEATS free_consumer_heartbeat,
     hub_uid = '''', hub_name = '''', producer_uid = '''', producer_name = '''',
     spinlock_states = replicate MAX_SHARED_SPINLOCKS init_spinlock_state,
     flexible_zone_checksums = replicate MAX_FLEXIBLE_ZONE_CHECKSUMS
       \<lparr>checksum_bytes = zero_hash, cks_is_valid = 0\<rparr>,
     header_layout_hash = zero_hash, layout_checksum = zero_hash,
     consumer_next_read_slot = replicate MAX_CONSUMER_HEARTBEATS 0,
     producer_heartbeat_id = 0, producer_heartbeat_ns = 0\<rparr>"

subsection \<open>Layout checksum\<close>

definition append_le_u32 :: "u32 \<Rightarrow> bytes" where
  "append_le_u32 v = [ucast v, ucast (drop_bit 8 v), ucast (drop_bit 16 v), ucast (drop_bit 24 v)]"

definition append_le_u64 :: "u64 \<Rightarrow> bytes" where
  "append_le_u64 v = append_le_u32 (ucast v) @ append_le_u32 (ucast (drop_bit 32 v))"

definition layout_checksum_fill :: "HeaderConfig \<Rightarrow> bytes" where
  "layout_checksum_fill h =
     append_le_u32 (ring_buffer_capacity h) @ append_le_u32 (physical_page_size h) @
     append_le_u32 (logical_unit_size h) @ append_le_u64 (ucast (flexible_zone_size h)) @
     [checksum_type h, policy_u8 (policy h), sync_policy_u8 (consumer_sync_policy h), 0]"

text \<open>\<open>blake2b\<close> stands for libsodium's generic hash (third-party code, a parameter).\<close>

definition store_layout_checksum ::
  "(bytes \<Rightarrow> bytes) \<Rightarrow> SharedMemoryHeader \<Rightarrow> SharedMemoryHeader" where
  "store_layout_checksum blake2b h =
     h\<lparr>layout_checksum := blake2b (layout_checksum_fill (hconfig h))\<rparr>"

definition validate_layout_checksum :: "(bytes \<Rightarrow> bytes) \<Rightarrow> SharedMemoryHeader \<Rightarrow> bool" where
  "validate_layout_checksum blake2b h =
     (layout_checksum h = blake2b (layout_checksum_fill (hconfig h)))"

text \<open>\<open>abi_hash\<close> is the hash of this build's header field list
  (\<open>get_shared_memory_header_schema_info\<close>).\<close>

definition validate_header_layout_hash ::
  "bytes \<Rightarrow> SharedMemoryHeader \<Rightarrow> shm_error + unit" where
  "validate_header_layout_hash abi_hash h =
     (if header_layout_hash h \<noteq> abi_hash then Inl Schema_header_layout_mismatch else Inr ())"

definition update_producer_heartbeat_impl ::
  "u64 \<Rightarrow> pid \<Rightarrow> SharedMemoryHeader \<Rightarrow> SharedMemoryHeader" where
  "update_producer_heartbeat_impl now p h =
     h\<lparr>producer_heartbeat_id := p, producer_heartbeat_ns := now\<rparr>"

subsection \<open>The publication sequence\<close>

text \<open>
  \<open>init_producer_state_\<close> as the sequence of header states other processes can observe from the
  store of the magic number on: magic, layout hash, layout checksum, producer heartbeat. The last
  state is the result of the function. The guard on \<open>logical_unit_size\<close> comes first.
\<close>

definition init_producer_state ::
  "(bytes \<Rightarrow> bytes) \<Rightarrow> bytes \<Rightarrow> u64 \<Rightarrow> pid \<Rightarrow> DataBlockConfig \<Rightarrow> DataBlockLayout
   \<Rightarrow> shm_error + SharedMemoryHeader list" where
  "init_producer_state blake2b abi_hash now me c l =
     (if effective_logical_unit_size c > 0xFFFFFFFF
      then Inl Invalid_logical_unit_size_too_big
      else (let h0 = header_before_magic now c l;
                h1 = h0\<lparr>magic_number := DATABLOCK_MAGIC_NUMBER\<rparr>;
                h2 = h1\<lparr>header_layout_hash := abi_hash\<rparr>;
                h3 = store_layout_checksum blake2b h2;
                h4 = update_producer_heartbeat_impl now me h3
            in Inr [h0, h1, h2, h3, h4]))"

definition create_datablock ::
  "(bytes \<Rightarrow> bytes) \<Rightarrow> bytes \<Rightarrow> u64 \<Rightarrow> pid \<Rightarrow> DataBlockConfig
   \<Rightarrow> shm_error + (DataBlockLayout \<times> SharedMemoryHeader)" where
  "create_datablock blake2b abi_hash now me c =
     (case check_config c of
        Some e \<Rightarrow> Inl e
      | None \<Rightarrow> (case from_config c of
          Inl e \<Rightarrow> Inl e
        | Inr l \<Rightarrow> (case init_producer_state blake2b abi_hash now me c l of
            Inl e \<Rightarrow> Inl e
          | Inr hs \<Rightarrow> Inr (l, last hs))))"

section \<open>Attachment\<close>

text \<open>\<open>attach_consumer_state_\<close> on a mapping of \<open>mapped_size\<close> bytes whose header reads \<open>h\<close>
  when the wait for the magic number ends (\<open>None\<close>: the wait timed out).\<close>

definition attach_consumer_state ::
  "u64 \<Rightarrow> SharedMemoryHeader option \<Rightarrow> shm_error + DataBlockLayout" where
  "attach_consumer_state mapped_size h = (case h of
       None \<Rightarrow> Inl Attach_init_timeout
     | Some hdr \<Rightarrow>
        if version_major (hconfig hdr) \<noteq> HEADER_VERSION_MAJOR
           \<or> version_minor (hconfig hdr) > HEADER_VERSION_MINOR then Inl Attach_version_mismatch
        else if mapped_size \<noteq> total_block_size (hconfig hdr) then Inl Attach_size_mismatch
        else from_header h)"

definition validate_attach_layout_and_config ::
  "(bytes \<Rightarrow> bytes) \<Rightarrow> SharedMemoryHeader \<Rightarrow> DataBlockConfig option \<Rightarrow> bool" where
  "validate_attach_layout_and_config blake2b h expected =
     (if \<not> validate_layout_checksum blake2b h then False
      else (case expected of None \<Rightarrow> True
       | Some c \<Rightarrow>
          ucast (flexible_zone_size (hconfig h)) = page_up (cfg_flex_zone_size c)
          \<and> ring_buffer_capacity (hconfig h) = cfg_ring_buffer_capacity c
          \<and> physical_page_size (hconfig h) = ucast (to_bytes (cfg_physical_page_size c))
          \<and> get_slot_stride_bytes (Some h) = ucast (effective_logical_unit_size c)
          \<and> checksum_type (hconfig h) = checksum_type_u8 (cfg_checksum_type c)))"

section \<open>Rounding\<close>

interpretation page: aligner page_up 4096
proof unfold_locales
  fix x :: u64
  have e: "page_up x = round_up_pow2 12 x"
    by (simp add: page_up_def round_up_pow2_def PAGE_ALIGNMENT_def)
  show "4096 dvd unat (page_up x)"
    using round_up_pow2_dvd [of 12 x] by (simp add: e)
  show "unat (page_up x) = (unat x + 4096 - 1) div 4096 * 4096" if "unat x + 4096 \<le> 2 ^ 64"
    using round_up_pow2_unat [of 12 x] that by (simp add: e)
qed simp_all

interpretation line: aligner cache_line_up 64
proof unfold_locales
  fix x :: u64
  have e: "cache_line_up x = round_up_pow2 6 x"
    by (simp add: cache_line_up_def round_up_pow2_def)
  show "64 dvd unat (cache_line_up x)"
    using round_up_pow2_dvd [of 6 x] by (simp add: e)
  show "unat (cache_line_up x) = (unat x + 64 - 1) div 64 * 64" if "unat x + 64 \<le> 2 ^ 64"
    using round_up_pow2_unat [of 6 x] that by (simp add: e)
qed simp_all

lemma mod_page_iff: "x mod PAGE_ALIGNMENT = 0 \<longleftrightarrow> 4096 dvd unat x"
  by (simp add: PAGE_ALIGNMENT_def word_unat_eq_iff unat_mod dvd_eq_mod_eq_0)

section \<open>Properties of the layout\<close>

text \<open>A configuration whose segment can be addressed with 64-bit sizes.\<close>

definition config_fits :: "DataBlockConfig \<Rightarrow> bool" where
  "config_fits c \<longleftrightarrow> unat (cfg_logical_unit_size c) + 64 \<le> 2 ^ 64
     \<and> unat (cfg_flex_zone_size c) + unat (config_slots c) * unat (effective_logical_unit_size c)
        + 2 ^ 40 \<le> 2 ^ 64"

lemma config_slots_pos: "0 < unat (config_slots c)"
  by (auto simp: config_slots_def unat_gt_0)

lemma layout_of_never_throws:
  assumes "4096 dvd unat flex"
  shows "\<exists>l. layout_of slots ck flex stride pb bs = Inr l"
  using page.sum_dvd [OF page.up_dvd assms]
  by (auto simp: layout_of_def Let_def mod_page_iff)

lemma layout_of_InrD:
  assumes "layout_of slots ck flex stride pb bs = Inr l"
  shows "l = \<lparr>lay_slot_rw_state_offset = 4096,
    lay_slot_rw_state_size = ucast slots * 64,
    lay_slot_checksum_offset = 4096 + ucast slots * 64,
    lay_slot_checksum_size = (if ck then ucast slots * 33 else 0),
    lay_flexible_zone_offset =
      page_up (4096 + (ucast slots * 64 + (if ck then ucast slots * 33 else 0))),
    lay_flexible_zone_size = flex,
    lay_structured_buffer_offset =
      page_up (4096 + (ucast slots * 64 + (if ck then ucast slots * 33 else 0))) + flex,
    lay_structured_buffer_size = bs,
    lay_total_size = page_up (page_up (4096 + (ucast slots * 64
      + (if ck then ucast slots * 33 else 0))) + flex + bs),
    lay_slot_stride_bytes = stride, lay_physical_page_size_bytes = pb, lay_slot_count = slots\<rparr>"
  using assms
  by (auto simp: layout_of_def Let_def sizeof_SharedMemoryHeader_def sizeof_SlotRWState_def
      SLOT_CHECKSUM_ENTRY_SIZE_def split: if_splits)

text \<open>The layout in unbounded arithmetic, for sizes that do not wrap.\<close>

lemma layout_of_unat:
  assumes l: "layout_of slots ck flex stride pb bs = Inr l"
    and flex: "4096 dvd unat flex"
    and fits: "unat flex + unat bs + 2 ^ 39 + 2 ^ 13 \<le> 2 ^ 64"
  shows "unat (lay_slot_rw_state_size l) = unat slots * 64"
    and "unat (lay_slot_checksum_offset l) = 4096 + unat slots * 64"
    and "unat (lay_slot_checksum_size l) = (if ck then unat slots * 33 else 0)"
    and "unat (lay_slot_checksum_offset l) + unat (lay_slot_checksum_size l)
           \<le> unat (lay_flexible_zone_offset l)"
    and "unat (lay_flexible_zone_offset l) < 2 ^ 39"
    and "unat (lay_structured_buffer_offset l)
           = unat (lay_flexible_zone_offset l) + unat (lay_flexible_zone_size l)"
    and "unat (lay_structured_buffer_offset l) + unat (lay_structured_buffer_size l)
           \<le> unat (lay_total_size l)"
proof -
  let ?ck = "if ck then ucast slots * 33 else (0::u64)"
  let ?cz = "4096 + (ucast slots * 64 + ?ck) :: u64"
  have s: "unat slots < 2 ^ 32"
    using unsigned_less [where 'a = nat, of slots] by simp
  have a1: "unat (ucast slots * 64 :: u64) = unat slots * 64"
    using s by (subst unat_mult_no_wrap) simp_all
  have a2: "unat (ucast slots * 33 :: u64) = unat slots * 33"
    using s by (subst unat_mult_no_wrap) simp_all
  have a3: "unat (4096 + ucast slots * 64 :: u64) = 4096 + unat slots * 64"
    using s a1 by (subst unat_add_no_wrap) simp_all
  have a4: "unat ?ck = (if ck then unat slots * 33 else 0)"
    using a2 by simp
  have a5: "unat (ucast slots * 64 + ?ck) = unat slots * 64 + unat ?ck"
    using s a1 a4 by (subst unat_add_no_wrap) (simp_all split: if_splits)
  have a6: "unat ?cz = 4096 + unat slots * 64 + unat ?ck"
    using s a5 a4 by (subst unat_add_no_wrap) (simp_all split: if_splits)
  have a7: "unat ?cz + 4096 < 2 ^ 39"
    using s a6 a4 by (simp split: if_splits)
  have a8: "unat ?cz \<le> unat (page_up ?cz)" and a9: "unat (page_up ?cz) < 2 ^ 39"
    using page.up_ge [of ?cz] page.up_less [of ?cz] a7 by simp_all
  have b1: "unat (page_up ?cz + flex) = unat (page_up ?cz) + unat flex"
    using a9 fits by (subst unat_add_no_wrap) simp_all
  have b2: "unat (page_up ?cz + flex + bs) = unat (page_up ?cz) + unat flex + unat bs"
    using a9 b1 fits by (subst unat_add_no_wrap) simp_all
  have b3: "unat (page_up ?cz + flex + bs) \<le> unat (page_up (page_up ?cz + flex + bs))"
    using a9 b2 fits by (intro page.up_ge) simp
  note L = layout_of_InrD [OF l]
  show "unat (lay_slot_rw_state_size l) = unat slots * 64"
    by (simp add: L a1)
  show "unat (lay_slot_checksum_offset l) = 4096 + unat slots * 64"
    by (simp add: L a3)
  show "unat (lay_slot_checksum_size l) = (if ck then unat slots * 33 else 0)"
    using a4 by (simp add: L)
  show "unat (lay_slot_checksum_offset l) + unat (lay_slot_checksum_size l)
           \<le> unat (lay_flexible_zone_offset l)"
    using a3 a6 a8 by (simp add: L)
  show "unat (lay_flexible_zone_offset l) < 2 ^ 39"
    using a9 by (simp add: L)
  show "unat (lay_structured_buffer_offset l)
           = unat (lay_flexible_zone_offset l) + unat (lay_flexible_zone_size l)"
    using b1 by (simp add: L)
  show "unat (lay_structured_buffer_offset l) + unat (lay_structured_buffer_size l)
           \<le> unat (lay_total_size l)"
    using b1 b2 b3 by (simp add: L)
qed

lemma config_buffer_unat:
  assumes "config_fits c"
  shows "unat (config_structured_buffer_size c)
           = unat (config_slots c) * unat (effective_logical_unit_size c)"
  using assms unfolding config_structured_buffer_size_def config_fits_def
  by (subst unat_mult_no_wrap) simp_all

lemma config_fits_sizes:
  assumes "config_fits c"
  shows "unat (page_up (cfg_flex_zone_size c)) + unat (config_structured_buffer_size c)
           + 2 ^ 39 + 2 ^ 13 \<le> 2 ^ 64"
  using assms page.up_less [of "cfg_flex_zone_size c"] config_buffer_unat [OF assms]
  by (simp add: config_fits_def)

lemma from_config_unat:
  assumes l: "from_config c = Inr l" and fits: "config_fits c"
  shows "unat (lay_slot_rw_state_size l) = unat (config_slots c) * 64"
    and "unat (lay_slot_checksum_offset l) = 4096 + unat (config_slots c) * 64"
    and "unat (lay_slot_checksum_size l)
           = (if cfg_checksum_type c \<noteq> ChecksumType_Unset then unat (config_slots c) * 33 else 0)"
    and "unat (lay_slot_checksum_offset l) + unat (lay_slot_checksum_size l)
           \<le> unat (lay_flexible_zone_offset l)"
    and "unat (lay_flexible_zone_offset l) < 2 ^ 39"
    and "unat (lay_structured_buffer_offset l)
           = unat (lay_flexible_zone_offset l) + unat (lay_flexible_zone_size l)"
    and "unat (lay_structured_buffer_offset l) + unat (lay_structured_buffer_size l)
           \<le> unat (lay_total_size l)"
  by (rule layout_of_unat [OF l [unfolded from_config_def] page.up_dvd config_fits_sizes [OF fits]])+

lemma from_config_fields:
  assumes "from_config c = Inr l"
  shows "lay_slot_count l = config_slots c"
    and "lay_slot_stride_bytes l = effective_logical_unit_size c"
    and "lay_structured_buffer_size l = config_structured_buffer_size c"
    and "lay_flexible_zone_size l = page_up (cfg_flex_zone_size c)"
    and "lay_slot_rw_state_offset l = 4096"
  by (simp_all add: layout_of_InrD [OF assms [unfolded from_config_def]])

lemma from_config_total:
  obtains l where "from_config c = Inr l"
  unfolding from_config_def
  by (rule exE [OF layout_of_never_throws [OF page.up_dvd [of "cfg_flex_zone_size c"]]]) blast

lemma stride_pos:
  assumes "cfg_physical_page_size c \<noteq> PageSize_Unset" and "config_fits c"
  shows "64 dvd unat (effective_logical_unit_size c)"
    and "0 < unat (effective_logical_unit_size c)"
    and "unat (cfg_logical_unit_size c) \<le> unat (effective_logical_unit_size c)"
proof -
  show "64 dvd unat (effective_logical_unit_size c)"
    by (cases "cfg_physical_page_size c")
      (simp_all add: effective_logical_unit_size_def to_bytes_def line.up_dvd)
  show le: "unat (cfg_logical_unit_size c) \<le> unat (effective_logical_unit_size c)"
    using assms(2) line.up_ge [of "cfg_logical_unit_size c"]
    by (simp add: effective_logical_unit_size_def config_fits_def)
  show "0 < unat (effective_logical_unit_size c)"
    using assms(1) le
    by (cases "cfg_physical_page_size c"; cases "cfg_logical_unit_size c = 0")
      (simp_all add: effective_logical_unit_size_def to_bytes_def unat_gt_0 [symmetric])
qed

text \<open>The internal "ring-buffer offset is not aligned" error of the layout factory is
  unreachable for every configuration, also where sizes wrap, and for every configuration whose
  segment is addressable the computed layout passes the layout's own \<open>validate\<close>.\<close>

theorem from_config_validates:
  "\<exists>l. from_config c = Inr l \<and> (config_fits c \<longrightarrow> validate_layout l)"
proof -
  obtain l where l: "from_config c = Inr l"
    by (rule from_config_total)
  have "validate_layout l" if fits: "config_fits c"
  proof -
    note L = layout_of_InrD [OF l [unfolded from_config_def]]
    have "\<not> lay_flexible_zone_offset l < lay_slot_checksum_offset l + lay_slot_checksum_size l"
      using from_config_unat(4,5) [OF l fits]
      by (simp add: word_less_nat_alt unat_word_ariths)
    moreover have "4096 dvd unat (lay_structured_buffer_offset l)"
      using page.sum_dvd [OF page.up_dvd page.up_dvd] by (simp add: L)
    ultimately show ?thesis
      by (simp add: validate_layout_def mod_page_iff page.up_dvd sizeof_SharedMemoryHeader_def L)
  qed
  with l show ?thesis
    by blast
qed

definition demo_config :: DataBlockConfig where
  "demo_config = \<lparr>cfg_name = ''demo'', cfg_physical_page_size = Size4K, cfg_logical_unit_size = 100,
     cfg_ring_buffer_capacity = 4, cfg_policy = RingBuffer,
     cfg_consumer_sync_policy = Sequential, cfg_checksum_type = BLAKE2b,
     cfg_checksum_policy = ChecksumPolicy_Enforced, cfg_flex_zone_size = 10,
     cfg_hub_uid = '''', cfg_hub_name = '''', cfg_producer_uid = ''p1'', cfg_producer_name = ''cam''\<rparr>"

lemma demo_stride: "effective_logical_unit_size demo_config = 128"
  by (simp add: effective_logical_unit_size_def demo_config_def cache_line_up_def)

lemma demo_config_fits: "config_fits demo_config"
  using demo_stride by (simp add: config_fits_def config_slots_def) (simp add: demo_config_def)

theorem from_config_validates_witness:
  "config_fits demo_config \<and> (\<exists>l. from_config demo_config = Inr l \<and> validate_layout l)"
  using from_config_validates [of demo_config] demo_config_fits by blast

text \<open>Offset of a slot in unbounded arithmetic.\<close>

lemma slot_ptr_unat:
  assumes l: "from_config c = Inr l" and fits: "config_fits c" and p: "slot_ptr l i = Some p"
  shows "unat i < unat (config_slots c)"
    and "unat p = unat (lay_structured_buffer_offset l)
                   + unat i * unat (effective_logical_unit_size c)"
    and "unat p + unat (effective_logical_unit_size c) \<le> unat (lay_total_size l)"
proof -
  note F = from_config_fields [OF l]
  have i: "unat i < unat (config_slots c)"
    using p F(1) by (auto simp: slot_ptr_def word_le_nat_alt not_le split: if_splits)
  then show "unat i < unat (config_slots c)" .
  have peq: "p = lay_structured_buffer_offset l + i * effective_logical_unit_size c"
    using p F(2) by (simp add: slot_ptr_def split: if_splits)
  have step: "unat i * unat (effective_logical_unit_size c) + unat (effective_logical_unit_size c)
      \<le> unat (config_structured_buffer_size c)"
    using i mult_le_mono1 [of "unat i + 1" "unat (config_slots c)"
      "unat (effective_logical_unit_size c)"] config_buffer_unat [OF fits]
    by (simp add: algebra_simps)
  have total: "unat (lay_structured_buffer_offset l) + unat (config_structured_buffer_size c)
      \<le> unat (lay_total_size l)" and lt: "unat (lay_total_size l) < 2 ^ 64"
    using from_config_unat(7) [OF l fits] F(3) unsigned_less [where 'a = nat, of "lay_total_size l"]
    by simp_all
  have m: "unat (i * effective_logical_unit_size c)
      = unat i * unat (effective_logical_unit_size c)"
    using step total lt by (intro unat_mult_no_wrap) linarith
  show u: "unat p = unat (lay_structured_buffer_offset l)
      + unat i * unat (effective_logical_unit_size c)"
    unfolding peq using step total lt m by (subst unat_add_no_wrap) linarith+
  show "unat p + unat (effective_logical_unit_size c) \<le> unat (lay_total_size l)"
    using u step total by linarith
qed


lemma demo_config_ok: "check_config demo_config = None"
  by (simp add: check_config_def demo_config_def)


section \<open>Creator and attacher agree\<close>

lemma create_datablock_InrD:
  assumes "create_datablock blake2b abi now me c = Inr (l, h)"
  shows "check_config c = None" and "from_config c = Inr l"
    and "unat (effective_logical_unit_size c) < 2 ^ 32"
    and "hconfig h = header_config_of c l"
    and "header_layout_hash h = abi"
    and "layout_checksum h = blake2b (layout_checksum_fill (header_config_of c l))"
    and "magic_number h = DATABLOCK_MAGIC_NUMBER"
proof -
  have d: "check_config c = None" "from_config c = Inr l"
     "\<not> effective_logical_unit_size c > 0xFFFFFFFF"
     "h = update_producer_heartbeat_impl now me (store_layout_checksum blake2b
        ((header_before_magic now c l)\<lparr>magic_number := DATABLOCK_MAGIC_NUMBER,
           header_layout_hash := abi\<rparr>))"
    using assms
    by (auto simp: create_datablock_def init_producer_state_def Let_def
        split: option.splits sum.splits if_splits)
  show "check_config c = None" "from_config c = Inr l"
    by (fact d)+
  show "unat (effective_logical_unit_size c) < 2 ^ 32"
    using d(3) by (simp add: word_less_nat_alt)
  show "hconfig h = header_config_of c l" "header_layout_hash h = abi"
    "layout_checksum h = blake2b (layout_checksum_fill (header_config_of c l))"
    "magic_number h = DATABLOCK_MAGIC_NUMBER"
    by (simp_all add: d(4) update_producer_heartbeat_impl_def store_layout_checksum_def
        header_before_magic_def)
qed

lemma create_datablock_header:
  assumes "create_datablock blake2b abi now me c = Inr (l, h)"
  shows "h = update_producer_heartbeat_impl now me (store_layout_checksum blake2b
     ((header_before_magic now c l)\<lparr>magic_number := DATABLOCK_MAGIC_NUMBER, header_layout_hash := abi\<rparr>))"
  using assms
  by (auto simp: create_datablock_def init_producer_state_def Let_def split: option.splits sum.splits if_splits)

lemma header_sizes_roundtrip:
  assumes "check_config c = None" and "config_fits c" and "from_config c = Inr l"
    and "unat (effective_logical_unit_size c) < 2 ^ 32" and "hconfig h = header_config_of c l"
  shows "get_slot_count (Some h) = config_slots c"
    and "(ucast (get_slot_stride_bytes (Some h)) :: u64) = effective_logical_unit_size c"
    and "(ucast (physical_page_size (hconfig h)) :: u64) = to_bytes (cfg_physical_page_size c)"
proof -
  have pg: "cfg_physical_page_size c \<noteq> PageSize_Unset"
    using assms(1) by (auto simp: check_config_def split: if_splits)
  show "get_slot_count (Some h) = config_slots c"
    by (simp add: get_slot_count_def config_slots_def assms(5) header_config_of_def)
  have r: "(ucast (ucast (effective_logical_unit_size c) :: u32) :: u64)
      = effective_logical_unit_size c"
    using assms(4) by (rule ucast_u64_u32_u64)
  moreover have "effective_logical_unit_size c \<noteq> 0"
    using stride_pos(2) [OF pg assms(2)] by (simp add: unat_gt_0)
  ultimately show "(ucast (get_slot_stride_bytes (Some h)) :: u64) = effective_logical_unit_size c"
    by (auto simp: get_slot_stride_bytes_def assms(5) header_config_of_def)
  show "(ucast (physical_page_size (hconfig h)) :: u64) = to_bytes (cfg_physical_page_size c)"
    by (cases "cfg_physical_page_size c") (simp_all add: assms(5) header_config_of_def to_bytes_def)
qed

text \<open>Whatever else a header holds, its layout section, ABI hash and layout checksum decide the
  attachment.\<close>

lemma header_attaches:
  assumes "check_config c = None" and "from_config c = Inr l"
    and "unat (effective_logical_unit_size c) < 2 ^ 32"
    and "hconfig h = header_config_of c l" and "header_layout_hash h = abi"
    and "layout_checksum h = blake2b (layout_checksum_fill (header_config_of c l))"
    and "config_fits c" and "unat (page_up (cfg_flex_zone_size c)) < 2 ^ 32"
  shows "attach_consumer_state (lay_total_size l) (Some h) = Inr l"
    and "validate_header_layout_hash abi h = Inr ()"
    and "validate_attach_layout_and_config blake2b h (Some c)"
proof -
  note F = from_config_fields [OF assms(2)]
  note R = header_sizes_roundtrip [OF assms(1,7,2,3,4)]
  have fl: "ucast (flexible_zone_size (hconfig h)) = page_up (cfg_flex_zone_size c)"
    using assms(8) F(4) by (simp add: assms(4) header_config_of_def ucast_u64_u32_u64)
  have ck: "checksum_type (hconfig h) \<noteq> checksum_type_u8 ChecksumType_Unset
      \<longleftrightarrow> cfg_checksum_type c \<noteq> ChecksumType_Unset"
    by (cases "cfg_checksum_type c") (simp_all add: assms(4) header_config_of_def checksum_type_u8_def)
  have fh: "from_header (Some h) = Inr l"
    using assms(2) by (simp add: from_header_def from_config_def Let_def R fl ck
        config_structured_buffer_size_def)
  have st: "get_slot_stride_bytes (Some h) = ucast (effective_logical_unit_size c)"
    using arg_cong [OF R(2), of "ucast :: u64 \<Rightarrow> u32"] by simp
  show "attach_consumer_state (lay_total_size l) (Some h) = Inr l"
    using fh by (simp add: attach_consumer_state_def assms(4) header_config_of_def
        HEADER_VERSION_MAJOR_def HEADER_VERSION_MINOR_def)
  show "validate_header_layout_hash abi h = Inr ()"
    by (simp add: validate_header_layout_hash_def assms(5))
  show "validate_attach_layout_and_config blake2b h (Some c)"
    using fl st by (simp add: validate_attach_layout_and_config_def validate_layout_checksum_def
        assms(4,6) header_config_of_def)
qed

text \<open>C31: a segment whose flexible zone is below 4 GiB is described the same way on both sides.
  What the creator writes into the header makes an attaching process reconstruct exactly the
  creator's layout, and it passes the ABI hash check, the layout checksum and the configuration
  match against the creator's configuration, whatever the hash function is.\<close>

theorem attach_reconstructs_layout:
  assumes "create_datablock blake2b abi now me c = Inr (l, h)"
    and "config_fits c" and "unat (page_up (cfg_flex_zone_size c)) < 2 ^ 32"
  shows "attach_consumer_state (lay_total_size l) (Some h) = Inr l
     \<and> validate_header_layout_hash abi h = Inr ()
     \<and> validate_attach_layout_and_config blake2b h (Some c)"
  using header_attaches [where blake2b = blake2b, OF create_datablock_InrD(1-6) [OF assms(1)] assms(2,3)]
  by blast

definition demo_layout :: DataBlockLayout where
  "demo_layout = (case from_config demo_config of Inr l \<Rightarrow> l | Inl _ \<Rightarrow> empty_layout)"

lemma demo_layout: "from_config demo_config = Inr demo_layout"
proof -
  obtain l where "from_config demo_config = Inr l"
    by (rule from_config_total)
  then show ?thesis
    by (simp add: demo_layout_def)
qed

lemma demo_create:
  "\<exists>h. create_datablock blake2b abi now me demo_config = Inr (demo_layout, h)"
proof -
  have "\<not> effective_logical_unit_size demo_config > 0xFFFFFFFF"
    by (simp add: demo_stride)
  then show ?thesis
    by (simp add: create_datablock_def demo_config_ok demo_layout init_producer_state_def Let_def)
qed

theorem attach_reconstructs_layout_witness:
  "\<exists>h. create_datablock (\<lambda>bs. bs) [7] 5 42 demo_config = Inr (demo_layout, h)
     \<and> attach_consumer_state (lay_total_size demo_layout) (Some h) = Inr demo_layout
     \<and> validate_attach_layout_and_config (\<lambda>bs. bs) h (Some demo_config)"
proof -
  obtain h where h: "create_datablock (\<lambda>bs. bs) [7] 5 42 demo_config = Inr (demo_layout, h)"
    using demo_create by blast
  have "unat (page_up (cfg_flex_zone_size demo_config)) < 2 ^ 32"
    by (simp add: demo_config_def page_up_def PAGE_ALIGNMENT_def)
  with attach_reconstructs_layout [OF h demo_config_fits] h show ?thesis
    by blast
qed

text \<open>The bound of 4 GiB on the flexible zone is needed. The creator accepts larger zones but
  the header keeps their size in 32 bits without a check, so for a zone of exactly 4 GiB an
  attaching process that passes the version and size checks reconstructs a layout with an empty
  flexible zone and a ring buffer that starts 4 GiB below the creator's.\<close>

theorem attach_flex_zone_truncated:
  assumes "create_datablock blake2b abi now me c = Inr (l, h)"
    and "cfg_flex_zone_size c = 2 ^ 32" and "config_fits c"
  shows "\<exists>l'. attach_consumer_state (lay_total_size l) (Some h) = Inr l'
     \<and> lay_flexible_zone_size l = 2 ^ 32 \<and> lay_flexible_zone_size l' = 0
     \<and> lay_structured_buffer_offset l = lay_structured_buffer_offset l' + 2 ^ 32"
proof -
  note C = create_datablock_InrD [OF assms(1)]
  note F = from_config_fields [OF C(2)]
  note R = header_sizes_roundtrip [OF C(1) assms(3) C(2,3,4)]
  have big: "page_up (2 ^ 32) = 2 ^ 32"
    by (simp add: page_up_def PAGE_ALIGNMENT_def)
  have fl: "flexible_zone_size (hconfig h) = 0"
    using F(4) assms(2) big by (simp add: C(4) header_config_of_def)
  let ?ck = "checksum_type (hconfig h) \<noteq> checksum_type_u8 ChecksumType_Unset"
  have ck: "?ck \<longleftrightarrow> cfg_checksum_type c \<noteq> ChecksumType_Unset"
    by (cases "cfg_checksum_type c") (simp_all add: C(4) header_config_of_def checksum_type_u8_def)
  obtain l' where l': "from_header (Some h) = Inr l'"
    by (rule exE [OF layout_of_never_throws [of "0::u64"]])
      (use that in \<open>auto simp: from_header_def Let_def fl\<close>)
  have "attach_consumer_state (lay_total_size l) (Some h) = Inr l'"
    using l' by (simp add: attach_consumer_state_def C header_config_of_def
        HEADER_VERSION_MAJOR_def HEADER_VERSION_MINOR_def)
  moreover have "lay_flexible_zone_size l' = 0"
    "lay_structured_buffer_offset l = lay_structured_buffer_offset l' + 2 ^ 32"
    using layout_of_InrD [OF l' [unfolded from_header_def Let_def option.case]]
      layout_of_InrD [OF C(2) [unfolded from_config_def]] assms(2) big
    by (simp_all add: R fl ck)
  ultimately show ?thesis
    using F(4) assms(2) big by simp
qed

definition big_flex_config :: DataBlockConfig where
  "big_flex_config = demo_config\<lparr>cfg_flex_zone_size := 2 ^ 32\<rparr>"

theorem attach_flex_zone_truncated_witness:
  "\<exists>l h l'. create_datablock (\<lambda>bs. bs) [7] 5 42 big_flex_config = Inr (l, h)
     \<and> attach_consumer_state (lay_total_size l) (Some h) = Inr l'
     \<and> lay_flexible_zone_size l = 2 ^ 32 \<and> lay_flexible_zone_size l' = 0"
proof -
  have st: "effective_logical_unit_size big_flex_config = 128"
    by (simp add: effective_logical_unit_size_def big_flex_config_def demo_config_def
        cache_line_up_def)
  have fits: "config_fits big_flex_config"
    using st by (simp add: config_fits_def config_slots_def)
      (simp add: big_flex_config_def demo_config_def)
  obtain l where l: "from_config big_flex_config = Inr l"
    by (rule from_config_total)
  have "\<exists>h. create_datablock (\<lambda>bs. bs) [7] 5 42 big_flex_config = Inr (l, h)"
    using l st by (simp add: create_datablock_def init_producer_state_def Let_def check_config_def)
      (simp add: big_flex_config_def demo_config_def)
  then obtain h where h: "create_datablock (\<lambda>bs. bs) [7] 5 42 big_flex_config = Inr (l, h)" ..
  show ?thesis
    using attach_flex_zone_truncated [OF h _ fits] h by (auto simp: big_flex_config_def)
qed

section \<open>Publication order\<close>

text \<open>The creator stores the magic number before the ABI hash and the layout checksum.
  Among the header states another process can observe during creation there is one in which the
  magic number is already valid, so the attach wait ends, while the ABI hash check rejects the
  segment; only the last states pass it.\<close>

theorem magic_published_before_hashes:
  assumes "init_producer_state blake2b abi now me c l = Inr hs" and "abi \<noteq> zero_hash"
  shows "\<exists>h \<in> set hs. is_header_magic_valid (Some (magic_number h)) DATABLOCK_MAGIC_NUMBER
           \<and> validate_header_layout_hash abi h = Inl Schema_header_layout_mismatch
           \<and> validate_header_layout_hash abi (last hs) = Inr ()"
  using assms
  by (auto simp: init_producer_state_def Let_def is_header_magic_valid_def
      validate_header_layout_hash_def header_before_magic_def store_layout_checksum_def
      update_producer_heartbeat_impl_def split: if_splits)

theorem magic_published_before_hashes_witness:
  "\<exists>hs. init_producer_state (\<lambda>bs. bs) [7] 5 42 demo_config demo_layout = Inr hs
     \<and> (\<exists>h \<in> set hs. validate_header_layout_hash [7] h = Inl Schema_header_layout_mismatch
          \<and> magic_number h = DATABLOCK_MAGIC_NUMBER)"
proof -
  have "\<exists>hs. init_producer_state (\<lambda>bs. bs) [7] 5 42 demo_config demo_layout = Inr hs"
    by (simp add: init_producer_state_def demo_stride Let_def)
  then obtain hs where hs: "init_producer_state (\<lambda>bs. bs) [7] 5 42 demo_config demo_layout = Inr hs" ..
  have "[7] \<noteq> zero_hash"
    by (simp add: zero_hash_def numeral_eq_Suc)
  from magic_published_before_hashes [OF hs this] hs show ?thesis
    by (auto simp: is_header_magic_valid_def)
qed

end
