(* ===== verification/Slot_Ops.thy ===== *)
theory Slot_Ops
  imports Shm_Layout
begin

text \<open>
  The slot coordination functions of \<open>data_block_slot_ops.cpp\<close>: \<open>acquire_write\<close>,
  \<open>commit_write\<close>, \<open>release_write\<close>, \<open>acquire_read\<close>, \<open>validate_read_impl\<close> and
  \<open>release_read\<close>, the metric helpers of \<open>data_block_internal.hpp\<close> they call, and the C API
  wrappers of \<open>data_block_c_api.cpp\<close>.

  The two loops of \<open>acquire_write\<close> watch memory that other processes change. Here the other
  processes move at the back-off points: \<open>env_step k\<close> is what they do to the slot during the
  \<open>k\<close>-th back-off, \<open>env_clock k\<close> the monotonic clock and \<open>env_alive k\<close> the answer of
  \<open>is_process_alive\<close> in the \<open>k\<close>-th iteration. The loops take fuel; \<open>None\<close> is "still
  spinning". Interference between the single atomic accesses is the subject of the theory
  \<open>Slot_Interleaving\<close>.
\<close>

section \<open>Metrics and liveness\<close>

type_synonym hdr = "SharedMemoryHeader option"

definition upd_slot_metrics :: "(SlotMetrics \<Rightarrow> SlotMetrics) \<Rightarrow> hdr \<Rightarrow> hdr" where
  "upd_slot_metrics f h = map_option (\<lambda>p. p\<lparr>slot_metrics := f (slot_metrics p)\<rparr>) h"

definition increment_metric_writer_timeout :: "hdr \<Rightarrow> hdr" where
  "increment_metric_writer_timeout =
     upd_slot_metrics (\<lambda>m. m\<lparr>writer_timeout_count := writer_timeout_count m + 1\<rparr>)"

definition increment_metric_writer_lock_timeout :: "hdr \<Rightarrow> hdr" where
  "increment_metric_writer_lock_timeout =
     upd_slot_metrics (\<lambda>m. m\<lparr>writer_lock_timeout_count := writer_lock_timeout_count m + 1\<rparr>)"

definition increment_metric_writer_reader_timeout :: "hdr \<Rightarrow> hdr" where
  "increment_metric_writer_reader_timeout =
     upd_slot_metrics (\<lambda>m. m\<lparr>writer_reader_timeout_count := writer_reader_timeout_count m + 1\<rparr>)"

definition add_metric_writer_blocked_ns :: "u64 \<Rightarrow> hdr \<Rightarrow> hdr" where
  "add_metric_writer_blocked_ns ns =
     upd_slot_metrics (\<lambda>m. m\<lparr>writer_blocked_total_ns := writer_blocked_total_ns m + ns\<rparr>)"

definition increment_metric_write_lock_contention :: "hdr \<Rightarrow> hdr" where
  "increment_metric_write_lock_contention =
     upd_slot_metrics (\<lambda>m. m\<lparr>write_lock_contention := write_lock_contention m + 1\<rparr>)"

definition increment_metric_reader_race_detected :: "hdr \<Rightarrow> hdr" where
  "increment_metric_reader_race_detected =
     upd_slot_metrics (\<lambda>m. m\<lparr>reader_race_detected := reader_race_detected m + 1\<rparr>)"

definition increment_metric_reader_validation_failed :: "hdr \<Rightarrow> hdr" where
  "increment_metric_reader_validation_failed =
     upd_slot_metrics (\<lambda>m. m\<lparr>reader_validation_failed := reader_validation_failed m + 1\<rparr>)"

definition increment_metric_slot_acquire_errors :: "hdr \<Rightarrow> hdr" where
  "increment_metric_slot_acquire_errors h = map_option (\<lambda>p. p\<lparr>error_metrics :=
     (error_metrics p)\<lparr>slot_acquire_errors := slot_acquire_errors (error_metrics p) + 1\<rparr>\<rparr>) h"

definition increment_metric_total_commits :: "hdr \<Rightarrow> hdr" where
  "increment_metric_total_commits h = map_option (\<lambda>p. p\<lparr>perf_metrics :=
     (perf_metrics p)\<lparr>total_slots_written := total_slots_written (perf_metrics p) + 1\<rparr>\<rparr>) h"

definition update_reader_peak_count :: "u32 \<Rightarrow> hdr \<Rightarrow> hdr" where
  "update_reader_peak_count current = upd_slot_metrics (\<lambda>m.
     if ucast current > reader_peak_count m then m\<lparr>reader_peak_count := ucast current\<rparr> else m)"

definition update_commit_index :: "u64 \<Rightarrow> hdr \<Rightarrow> hdr" where
  "update_commit_index slot_id h = map_option (\<lambda>p. p\<lparr>commit_index := slot_id\<rparr>) h"

definition is_producer_heartbeat_fresh :: "u64 \<Rightarrow> hdr \<Rightarrow> pid \<Rightarrow> bool" where
  "is_producer_heartbeat_fresh now h p = (case h of
       None \<Rightarrow> False
     | Some hdr \<Rightarrow>
        if p = 0 then False
        else if producer_heartbeat_id hdr \<noteq> p then False
        else now - producer_heartbeat_ns hdr \<le> PRODUCER_HEARTBEAT_STALE_THRESHOLD_NS)"

definition is_writer_alive_impl :: "(pid \<Rightarrow> bool) \<Rightarrow> u64 \<Rightarrow> hdr \<Rightarrow> pid \<Rightarrow> bool" where
  "is_writer_alive_impl is_process_alive now h p =
     (if p = 0 then False
      else if h \<noteq> None \<and> is_producer_heartbeat_fresh now h p then True
      else is_process_alive p)"

text \<open>\<open>elapsed_time_ns\<close> and \<open>spin_elapsed_ms_exceeded\<close>: a timeout of 0 expires at once, a
  negative one never.\<close>

definition elapsed_time_ns :: "u64 \<Rightarrow> u64 \<Rightarrow> u64" where
  "elapsed_time_ns now start_ns = (if now < start_ns then 0 else now - start_ns)"

definition spin_elapsed_ms_exceeded :: "u64 \<Rightarrow> u64 \<Rightarrow> int \<Rightarrow> bool" where
  "spin_elapsed_ms_exceeded now start_ns timeout_ms =
     (if timeout_ms = 0 then True
      else if timeout_ms < 0 then False
      else elapsed_time_ns now start_ns \<ge> of_int timeout_ms * 1000000)"

section \<open>Writer acquisition\<close>

record slot_env =
  env_step :: "nat \<Rightarrow> SlotRWState \<Rightarrow> SlotRWState"
  env_clock :: "nat \<Rightarrow> u64"
  env_alive :: "nat \<Rightarrow> pid \<Rightarrow> bool"

text \<open>Phase 1: compare-and-swap of the write lock from 0 (or from a dead owner) to our pid.
  The boolean result says whether the lock was taken.\<close>

fun acquire_lock_loop ::
  "nat \<Rightarrow> nat \<Rightarrow> slot_env \<Rightarrow> pid \<Rightarrow> u64 \<Rightarrow> int \<Rightarrow> SlotRWState \<Rightarrow> hdr
   \<Rightarrow> (bool \<times> nat \<times> SlotRWState \<times> hdr) option" where
  "acquire_lock_loop 0 k e me start timeout_ms s h = None"
| "acquire_lock_loop (Suc fuel) k e me start timeout_ms s h =
     (if write_lock s = 0 then Some (True, k, s\<lparr>write_lock := me\<rparr>, h)
      else if \<not> is_writer_alive_impl (env_alive e k) (env_clock e k) h (write_lock s)
        then Some (True, k, s\<lparr>write_lock := me\<rparr>, increment_metric_write_lock_contention h)
      else if spin_elapsed_ms_exceeded (env_clock e k) start timeout_ms
        then Some (False, k, s,
          increment_metric_writer_lock_timeout (increment_metric_writer_timeout h))
      else acquire_lock_loop fuel (Suc k) e me start timeout_ms (env_step e k s) h)"

text \<open>Phase 2: wait for \<open>reader_count\<close> to reach 0. With \<open>drain_hold\<close> a timeout resets the
  timer and the wait goes on.\<close>

fun drain_loop ::
  "nat \<Rightarrow> nat \<Rightarrow> slot_env \<Rightarrow> u64 \<Rightarrow> int \<Rightarrow> bool \<Rightarrow> SlotRWState \<Rightarrow> hdr
   \<Rightarrow> (bool \<times> SlotRWState \<times> hdr) option" where
  "drain_loop 0 k e start timeout_ms drain_hold s h = None"
| "drain_loop (Suc fuel) k e start timeout_ms drain_hold s h =
     (if reader_count s = 0 then Some (True, s, h)
      else if spin_elapsed_ms_exceeded (env_clock e k) start timeout_ms then
        (if drain_hold then
           drain_loop fuel (Suc k) e (env_clock e k) timeout_ms drain_hold (env_step e k s)
             (add_metric_writer_blocked_ns (env_clock e k - start)
               (increment_metric_writer_reader_timeout (increment_metric_writer_timeout h)))
         else Some (False, s, h))
      else drain_loop fuel (Suc k) e start timeout_ms drain_hold (env_step e k s) h)"

text \<open>After the lock is taken: \<open>COMMITTED\<close> becomes \<open>DRAINING\<close>; and the undo of that when the
  drain times out.\<close>

definition enter_draining :: "SlotRWState \<Rightarrow> SlotRWState" where
  "enter_draining s =
     (if slot_state s = COMMITTED then s\<lparr>slot_state := DRAINING\<rparr> else s)\<lparr>writer_waiting := 1\<rparr>"

definition abandon_draining :: "bool \<Rightarrow> SlotRWState \<Rightarrow> SlotRWState" where
  "abandon_draining entered_draining s =
     (let s1 = s\<lparr>writer_waiting := 0\<rparr>;
          s2 = (if entered_draining then s1\<lparr>slot_state := COMMITTED\<rparr> else s1)
      in s2\<lparr>write_lock := 0\<rparr>)"

definition acquire_write ::
  "nat \<Rightarrow> slot_env \<Rightarrow> pid \<Rightarrow> int \<Rightarrow> bool \<Rightarrow> SlotRWState \<Rightarrow> hdr
   \<Rightarrow> (SlotAcquireResult \<times> SlotRWState \<times> hdr) option" where
  "acquire_write fuel e me timeout_ms drain_hold s0 h0 =
     (case acquire_lock_loop fuel 0 e me (env_clock e 0) timeout_ms s0 h0 of
        None \<Rightarrow> None
      | Some (False, k, s, h) \<Rightarrow> Some (SLOT_ACQUIRE_TIMEOUT, s, h)
      | Some (True, k, s, h) \<Rightarrow>
         (case drain_loop fuel (Suc k) e (env_clock e 0) timeout_ms drain_hold (enter_draining s) h of
            None \<Rightarrow> None
          | Some (False, s2, h2) \<Rightarrow>
              Some (SLOT_ACQUIRE_TIMEOUT, abandon_draining (slot_state s = COMMITTED) s2,
                increment_metric_writer_reader_timeout (increment_metric_writer_timeout h2))
          | Some (True, s2, h2) \<Rightarrow>
              Some (SLOT_ACQUIRE_OK, s2\<lparr>writer_waiting := 0, slot_state := WRITING\<rparr>, h2)))"

section \<open>Commit, release, read\<close>

definition commit_write :: "u64 \<Rightarrow> SlotRWState \<Rightarrow> hdr \<Rightarrow> SlotRWState \<times> hdr" where
  "commit_write slot_id s h =
     (s\<lparr>write_generation := write_generation s + 1, slot_state := COMMITTED\<rparr>,
      increment_metric_total_commits (update_commit_index slot_id h))"

definition release_write :: "SlotRWState \<Rightarrow> SlotRWState" where
  "release_write s = s\<lparr>slot_state := FREE, write_lock := 0\<rparr>"

text \<open>\<open>acquire_read\<close>: \<open>e1\<close> and \<open>e2\<close> are what other processes do to the slot between the first
  check and the registration, and between the registration and the second check. The result
  carries the captured generation on success.\<close>

definition acquire_read ::
  "(SlotRWState \<Rightarrow> SlotRWState) \<Rightarrow> (SlotRWState \<Rightarrow> SlotRWState) \<Rightarrow> SlotRWState \<Rightarrow> hdr
   \<Rightarrow> SlotAcquireResult \<times> u64 option \<times> SlotRWState \<times> hdr" where
  "acquire_read e1 e2 s h =
     (if slot_state s \<noteq> COMMITTED then (SLOT_ACQUIRE_NOT_READY, None, s, h)
      else (let s1 = e1 s;
                s2 = e2 (s1\<lparr>reader_count := reader_count s1 + 1\<rparr>)
            in if slot_state s2 \<noteq> COMMITTED
               then (SLOT_ACQUIRE_NOT_READY, None, s2\<lparr>reader_count := reader_count s2 - 1\<rparr>,
                     increment_metric_reader_race_detected h)
               else (SLOT_ACQUIRE_OK, Some (write_generation s2), s2, h)))"

definition validate_read_impl :: "u64 \<Rightarrow> SlotRWState \<Rightarrow> hdr \<Rightarrow> bool \<times> hdr" where
  "validate_read_impl captured_gen s h =
     (if write_generation s \<noteq> captured_gen then (False, increment_metric_reader_validation_failed h)
      else (True, h))"

definition release_read :: "SlotRWState \<Rightarrow> hdr \<Rightarrow> SlotRWState \<times> hdr" where
  "release_read s h =
     (s\<lparr>reader_count := reader_count s - 1\<rparr>, update_reader_peak_count (reader_count s) h)"

section \<open>C API\<close>

text \<open>The wrappers pass a null header; a null slot pointer is \<open>None\<close>.\<close>

definition slot_rw_acquire_write ::
  "nat \<Rightarrow> slot_env \<Rightarrow> pid \<Rightarrow> int \<Rightarrow> SlotRWState option
   \<Rightarrow> (SlotAcquireResult \<times> SlotRWState option) option" where
  "slot_rw_acquire_write fuel e me timeout_ms s = (case s of
       None \<Rightarrow> Some (SLOT_ACQUIRE_ERROR, None)
     | Some st \<Rightarrow> map_option (\<lambda>(r, st', h). (r, Some st'))
         (acquire_write fuel e me timeout_ms False st None))"

definition slot_rw_commit :: "SlotRWState option \<Rightarrow> SlotRWState option" where
  "slot_rw_commit s = map_option (\<lambda>st. fst (commit_write 0 st None)) s"

definition slot_rw_release_write :: "SlotRWState option \<Rightarrow> SlotRWState option" where
  "slot_rw_release_write s = map_option release_write s"

definition slot_rw_acquire_read ::
  "(SlotRWState \<Rightarrow> SlotRWState) \<Rightarrow> (SlotRWState \<Rightarrow> SlotRWState) \<Rightarrow> SlotRWState option
   \<Rightarrow> SlotAcquireResult \<times> u64 option \<times> SlotRWState option" where
  "slot_rw_acquire_read e1 e2 s = (case s of
       None \<Rightarrow> (SLOT_ACQUIRE_ERROR, None, None)
     | Some st \<Rightarrow> (case acquire_read e1 e2 st None of (r, g, st', h) \<Rightarrow> (r, g, Some st')))"

definition slot_rw_validate_read :: "u64 \<Rightarrow> SlotRWState option \<Rightarrow> bool" where
  "slot_rw_validate_read gen s = (case s of None \<Rightarrow> False
     | Some st \<Rightarrow> fst (validate_read_impl gen st None))"

definition slot_rw_release_read :: "SlotRWState option \<Rightarrow> SlotRWState option" where
  "slot_rw_release_read s = map_option (\<lambda>st. fst (release_read st None)) s"

definition slot_rw_reset_metrics :: "hdr \<Rightarrow> int \<times> hdr" where
  "slot_rw_reset_metrics h = (case h of
       None \<Rightarrow> (- 1, None)
     | Some p \<Rightarrow> (0, Some (p\<lparr>slot_metrics := (slot_metrics p)\<lparr>writer_timeout_count := 0,
           writer_lock_timeout_count := 0, writer_reader_timeout_count := 0,
           writer_blocked_total_ns := 0, write_lock_contention := 0,
           write_generation_wraps := 0, reader_not_ready_count := 0,
           reader_race_detected := 0, reader_validation_failed := 0, reader_peak_count := 0\<rparr>,
         error_metrics := zero_error_metrics,
         perf_metrics := zero_perf_metrics\<lparr>creation_timestamp_ns
            := creation_timestamp_ns (perf_metrics p)\<rparr>\<rparr>)))"

definition slot_rw_get_total_slots_written :: "hdr \<Rightarrow> u64" where
  "slot_rw_get_total_slots_written h =
     (case h of None \<Rightarrow> 0 | Some p \<Rightarrow> total_slots_written (perf_metrics p))"

definition slot_rw_get_commit_index :: "hdr \<Rightarrow> u64" where
  "slot_rw_get_commit_index h = (case h of None \<Rightarrow> 0 | Some p \<Rightarrow> commit_index p)"

definition slot_rw_get_slot_count :: "hdr \<Rightarrow> u32" where
  "slot_rw_get_slot_count h = (case h of None \<Rightarrow> 0 | Some p \<Rightarrow> get_slot_count h)"

section \<open>Writer acquisition: results\<close>

text \<open>What a writer relies on: while it holds the lock, other processes leave the lock, the state,
  the generation and the waiting flag of the slot alone (readers only count).\<close>

definition env_respects :: "pid \<Rightarrow> slot_env \<Rightarrow> bool" where
  "env_respects me e \<longleftrightarrow> (\<forall>k s. write_lock s = me \<longrightarrow>
     write_lock (env_step e k s) = me \<and> slot_state (env_step e k s) = slot_state s
     \<and> write_generation (env_step e k s) = write_generation s
     \<and> writer_waiting (env_step e k s) = writer_waiting s)"

lemma env_respectsD:
  assumes "env_respects me e" and "write_lock s = me"
  shows "write_lock (env_step e k s) = me" and "slot_state (env_step e k s) = slot_state s"
    and "write_generation (env_step e k s) = write_generation s"
    and "writer_waiting (env_step e k s) = writer_waiting s"
  using assms by (simp_all add: env_respects_def)

lemma lock_loop_taken:
  "acquire_lock_loop fuel k e me start t s h = Some (True, k', s', h') \<Longrightarrow> write_lock s' = me"
  by (induction fuel arbitrary: k s) (auto split: if_splits)

lemma drain_loop_frame:
  assumes "env_respects me e"
  shows "drain_loop fuel k e start t dh s h = Some (b, s', h') \<Longrightarrow> write_lock s = me \<Longrightarrow>
     write_lock s' = me \<and> slot_state s' = slot_state s \<and> write_generation s' = write_generation s
     \<and> writer_waiting s' = writer_waiting s \<and> (b \<longleftrightarrow> reader_count s' = 0)
     \<and> (dh \<longrightarrow> b)"
proof (induction fuel arbitrary: k s start h)
  case 0
  then show ?case by simp
next
  case (Suc fuel)
  note E = env_respectsD [OF assms Suc.prems(2), of k]
  show ?case
    using Suc.prems Suc.IH [where s = "env_step e k s"] E by (auto split: if_splits)
qed

lemma acquire_write_cases:
  assumes "acquire_write fuel e me t dh s0 h0 = Some (r, s', h')"
  obtains (lock_timeout) k where
      "acquire_lock_loop fuel 0 e me (env_clock e 0) t s0 h0 = Some (False, k, s', h')"
      "r = SLOT_ACQUIRE_TIMEOUT"
  | (drain) k s h b s2 h2 where
      "acquire_lock_loop fuel 0 e me (env_clock e 0) t s0 h0 = Some (True, k, s, h)"
      "drain_loop fuel (Suc k) e (env_clock e 0) t dh (enter_draining s) h = Some (b, s2, h2)"
      "b \<Longrightarrow> r = SLOT_ACQUIRE_OK \<and> s' = s2\<lparr>writer_waiting := 0, slot_state := WRITING\<rparr> \<and> h' = h2"
      "\<not> b \<Longrightarrow> r = SLOT_ACQUIRE_TIMEOUT \<and> s' = abandon_draining (slot_state s = COMMITTED) s2
         \<and> h' = increment_metric_writer_reader_timeout (increment_metric_writer_timeout h2)"
proof (cases "acquire_lock_loop fuel 0 e me (env_clock e 0) t s0 h0")
  case None
  with assms show ?thesis by (simp add: acquire_write_def)
next
  case (Some x)
  obtain b0 k s h where x: "x = (b0, k, s, h)"
    by (cases x)
  show ?thesis
  proof (cases b0)
    case False
    with assms Some x show ?thesis
      by (intro lock_timeout) (auto simp: acquire_write_def)
  next
    case True
    obtain b s2 h2
      where d: "drain_loop fuel (Suc k) e (env_clock e 0) t dh (enter_draining s) h = Some (b, s2, h2)"
      using assms Some x True by (auto simp: acquire_write_def split: option.splits)
    show ?thesis
      by (rule drain [of k s h b s2 h2])
        (use assms Some x True d in \<open>auto simp: acquire_write_def split: bool.splits\<close>)
  qed
qed


definition free_slot :: SlotRWState where
  "free_slot = \<lparr>write_lock = 0, reader_count = 0, slot_state = FREE, writer_waiting = 0,
     write_generation = 0\<rparr>"

definition quiet_env :: slot_env where
  "quiet_env = \<lparr>env_step = (\<lambda>k s. s), env_clock = (\<lambda>k. of_nat (min k 3) * 1000000), env_alive = (\<lambda>k p. True)\<rparr>"

lemma quiet_env_respects: "env_respects me quiet_env"
  by (simp add: env_respects_def quiet_env_def)


section \<open>Writer acquisition: termination\<close>

lemma lock_loop_returns:
  assumes "\<And>k. n \<le> k \<Longrightarrow> spin_elapsed_ms_exceeded (env_clock e k) start t"
  shows "n < k + fuel \<Longrightarrow> 0 < fuel \<Longrightarrow>
     acquire_lock_loop fuel k e me start t s h \<noteq> None"
proof (induction fuel arbitrary: k s)
  case 0
  then show ?case by simp
next
  case (Suc fuel)
  show ?case
    using Suc.prems Suc.IH [of "Suc k"] assms [of k] by (cases "n \<le> k") auto
qed

lemma drain_loop_returns:
  assumes "\<And>k. n \<le> k \<Longrightarrow> spin_elapsed_ms_exceeded (env_clock e k) start t"
  shows "n < k + fuel \<Longrightarrow> 0 < fuel \<Longrightarrow> drain_loop fuel k e start t False s h \<noteq> None"
proof (induction fuel arbitrary: k s)
  case 0
  then show ?case by simp
next
  case (Suc fuel)
  show ?case
    using Suc.prems Suc.IH [of "Suc k"] assms [of k] by (cases "n \<le> k") auto
qed

text \<open>C8: without \<open>drain_hold\<close>, \<open>acquire_write\<close> returns. Once the clock has passed the timeout
  from iteration \<open>n\<close> on, \<open>n + 1\<close> iterations of each loop are enough, whatever the other processes
  do to the slot.\<close>

theorem acquire_write_terminates:
  assumes "\<And>k. n \<le> k \<Longrightarrow> spin_elapsed_ms_exceeded (env_clock e k) (env_clock e 0) t"
  shows "\<exists>r s' h'. acquire_write (Suc n) e me t False s h = Some (r, s', h')
     \<and> r \<in> {SLOT_ACQUIRE_OK, SLOT_ACQUIRE_TIMEOUT}"
proof -
  have "acquire_lock_loop (Suc n) 0 e me (env_clock e 0) t s h \<noteq> None"
    by (rule lock_loop_returns [where n = n]) (simp_all add: assms)
  then obtain b k s1 h1 where l:
    "acquire_lock_loop (Suc n) 0 e me (env_clock e 0) t s h = Some (b, k, s1, h1)"
    by (metis not_None_eq prod_cases4)
  have "drain_loop (Suc n) (Suc k) e (env_clock e 0) t False (enter_draining s1) h1 \<noteq> None"
    by (rule drain_loop_returns [where n = n]) (simp_all add: assms)
  then obtain b2 s2 h2 where d:
    "drain_loop (Suc n) (Suc k) e (env_clock e 0) t False (enter_draining s1) h1 = Some (b2, s2, h2)"
    by (metis not_None_eq prod_cases3)
  show ?thesis
    using l d by (cases b; cases b2) (simp_all add: acquire_write_def del: acquire_lock_loop.simps drain_loop.simps)
qed

theorem acquire_write_terminates_witness:
  "\<exists>r s' h'. acquire_write 4 quiet_env 7 3 False (free_slot\<lparr>write_lock := 9\<rparr>) None = Some (r, s', h')"
proof -
  have "spin_elapsed_ms_exceeded (env_clock quiet_env k) (env_clock quiet_env 0) 3" if "3 \<le> k" for k
    using that by (simp add: spin_elapsed_ms_exceeded_def quiet_env_def min_absorb2
        elapsed_time_ns_def)
  then have "\<exists>r s' h'. acquire_write (Suc 3) quiet_env 7 3 False (free_slot\<lparr>write_lock := 9\<rparr>) None
      = Some (r, s', h') \<and> r \<in> {SLOT_ACQUIRE_OK, SLOT_ACQUIRE_TIMEOUT}"
    by (rule acquire_write_terminates)
  then show ?thesis
    by auto
qed

section \<open>Writer acquisition: blocking while draining\<close>

text \<open>The slot after \<open>n\<close> back-offs from iteration \<open>k\<close> on.\<close>

fun env_run :: "slot_env \<Rightarrow> nat \<Rightarrow> nat \<Rightarrow> SlotRWState \<Rightarrow> SlotRWState" where
  "env_run e k 0 s = s"
| "env_run e k (Suc n) s = env_run e (Suc k) n (env_step e k s)"

lemma drain_hold_iff:
  "(\<exists>s' h'. drain_loop fuel k e start t True s h = Some (True, s', h'))
     \<longleftrightarrow> (\<exists>n < fuel. reader_count (env_run e k n s) = 0)"
proof (induction fuel arbitrary: k start s h)
  case 0
  then show ?case by simp
next
  case (Suc fuel)
  have split: "(\<exists>n < Suc fuel. reader_count (env_run e k n s) = 0)
      \<longleftrightarrow> reader_count s = 0 \<or> (\<exists>n < fuel. reader_count (env_run e (Suc k) n (env_step e k s)) = 0)"
    by (auto simp: less_Suc_eq_0_disj)
  show ?case
    unfolding split using Suc.IH [of "Suc k" _ "env_step e k s"] by auto
qed

lemma drain_hold_not_False: "drain_loop fuel k e start t True s h \<noteq> Some (False, s', h')"
  by (induction fuel arbitrary: k start s h) (auto split: if_splits)

text \<open>C9: with \<open>drain_hold\<close> a writer on a free slot returns if and only if the readers leave. It
  gets the slot with enough iterations when some number of back-offs empties the reader count, and
  it spins forever, whatever the timeout, when none does (a reader that died while registered).\<close>

theorem acquire_write_drain_hold_iff:
  assumes "write_lock s = 0"
  shows "((\<exists>fuel s' h'. acquire_write fuel e me t True s h = Some (SLOT_ACQUIRE_OK, s', h'))
          \<longleftrightarrow> (\<exists>n. reader_count (env_run e 1 n (enter_draining (s\<lparr>write_lock := me\<rparr>))) = 0))
       \<and> ((\<forall>fuel. acquire_write fuel e me t True s h = None)
          \<longleftrightarrow> (\<forall>n. reader_count (env_run e 1 n (enter_draining (s\<lparr>write_lock := me\<rparr>))) \<noteq> 0))"
proof -
  let ?s1 = "enter_draining (s\<lparr>write_lock := me\<rparr>)"
  have aw: "acquire_write (Suc f) e me t True s h =
      (case drain_loop (Suc f) 1 e (env_clock e 0) t True ?s1 h of
         None \<Rightarrow> None
       | Some (b, s2, h2) \<Rightarrow>
          Some (SLOT_ACQUIRE_OK, s2\<lparr>writer_waiting := 0, slot_state := WRITING\<rparr>, h2))" for f
  proof (cases "drain_loop (Suc f) 1 e (env_clock e 0) t True ?s1 h")
    case None
    then show ?thesis
      using assms by (simp add: acquire_write_def del: drain_loop.simps)
  next
    case (Some x)
    then obtain s2 h2 where "x = (True, s2, h2)"
      using drain_hold_not_False by (metis (full_types) prod_cases3)
    with Some show ?thesis
      using assms by (simp add: acquire_write_def del: drain_loop.simps)
  qed
  have z: "acquire_write 0 e me t True s h = None"
    by (simp add: acquire_write_def)
  have some: "acquire_write (Suc f) e me t True s h = None
      \<or> (\<exists>s' h'. acquire_write (Suc f) e me t True s h = Some (SLOT_ACQUIRE_OK, s', h'))" for f
    unfolding aw by (auto split: option.splits)
  have ex: "(\<exists>s' h'. acquire_write (Suc f) e me t True s h = Some (SLOT_ACQUIRE_OK, s', h'))
      \<longleftrightarrow> (\<exists>n < Suc f. reader_count (env_run e 1 n ?s1) = 0)" for f
  proof -
    have "(\<exists>s' h'. acquire_write (Suc f) e me t True s h = Some (SLOT_ACQUIRE_OK, s', h'))
        \<longleftrightarrow> (\<exists>s' h'. drain_loop (Suc f) 1 e (env_clock e 0) t True ?s1 h = Some (True, s', h'))"
      unfolding aw using drain_hold_not_False [of "Suc f" 1 e "env_clock e 0" t ?s1 h]
      by (auto simp del: drain_loop.simps split: option.splits) (metis (full_types))
    then show ?thesis
      by (simp only: drain_hold_iff)
  qed
  have "(\<exists>fuel s' h'. acquire_write fuel e me t True s h = Some (SLOT_ACQUIRE_OK, s', h'))
       \<longleftrightarrow> (\<exists>n. reader_count (env_run e 1 n ?s1) = 0)"
    using ex z by (metis lessI not0_implies_Suc option.distinct(1))
  moreover have "(\<forall>fuel. acquire_write fuel e me t True s h = None)
       \<longleftrightarrow> (\<forall>n. reader_count (env_run e 1 n ?s1) \<noteq> 0)"
    using ex z some by (metis lessI not0_implies_Suc option.distinct(1))
  ultimately show ?thesis
    by blast
qed

lemma quiet_env_run: "env_run quiet_env k n s = s"
  by (induction n arbitrary: k) (simp_all add: quiet_env_def)

theorem acquire_write_drain_hold_iff_witness:
  "\<forall>fuel. acquire_write fuel quiet_env 7 100 True (free_slot\<lparr>slot_state := COMMITTED, reader_count := 1\<rparr>) None
     = None"
proof -
  have "write_lock (free_slot\<lparr>slot_state := COMMITTED, reader_count := 1\<rparr>) = 0"
    by (simp add: free_slot_def)
  from acquire_write_drain_hold_iff [OF this] show ?thesis
    by (simp add: quiet_env_run enter_draining_def)
qed

lemma drain_hold_stuck:
  assumes "write_lock s = 0" and "reader_count s \<noteq> 0"
  shows "acquire_write fuel quiet_env me t True s h = None"
proof -
  have stuck: "drain_loop f k quiet_env start t True x h = None" if "reader_count x \<noteq> 0" for f k start x h
    using that by (induction f arbitrary: k start h) (simp_all add: quiet_env_def)
  show ?thesis
    using assms by (cases fuel) (simp_all add: acquire_write_def stuck enter_draining_def del: drain_loop.simps)
qed

section \<open>Readers and the C API\<close>

text \<open>\<open>acquire_read\<close> either registers the reader on a slot that is COMMITTED after the
  registration, and captures the generation it then has, or it leaves the reader count as the other
  processes left it. Interference \<open>e1\<close> and \<open>e2\<close> is arbitrary, so the state may change between the
  two checks.\<close>

theorem acquire_read_outcome:
  "case acquire_read e1 e2 s h of (r, g, s', h') \<Rightarrow>
     (r = SLOT_ACQUIRE_OK \<and> slot_state s' = COMMITTED \<and> g = Some (write_generation s')
        \<and> s' = e2 ((e1 s)\<lparr>reader_count := reader_count (e1 s) + 1\<rparr>))
   \<or> (r = SLOT_ACQUIRE_NOT_READY \<and> g = None
        \<and> (s' = s \<or> (\<exists>c. c = e2 ((e1 s)\<lparr>reader_count := reader_count (e1 s) + 1\<rparr>)
              \<and> slot_state c \<noteq> COMMITTED \<and> s' = c\<lparr>reader_count := reader_count c - 1\<rparr>)))"
  by (auto simp: acquire_read_def Let_def split: prod.splits if_splits)

text \<open>Through the C API a committed slot cannot be handed to readers with its lock released.
  \<open>slot_rw_release_write\<close> puts the slot back to FREE also after \<open>slot_rw_commit\<close>, so a reader that
  comes afterwards is refused, while before the release the same reader is served.\<close>

theorem c_api_release_discards_commit:
  "fst (slot_rw_acquire_read id id (slot_rw_release_write (slot_rw_commit (Some s))))
     = SLOT_ACQUIRE_NOT_READY
   \<and> fst (slot_rw_acquire_read id id (slot_rw_commit (Some s))) = SLOT_ACQUIRE_OK"
  by (simp add: slot_rw_acquire_read_def slot_rw_release_write_def slot_rw_commit_def
      commit_write_def release_write_def acquire_read_def)

text \<open>A reader that nobody disturbs gets back exactly the slot it found, and its validation
  succeeds; after a commit by somebody else it fails.\<close>

lemma read_undisturbed:
  assumes "acquire_read id id s h = (SLOT_ACQUIRE_OK, Some g, s1, h1)"
  shows "fst (release_read s1 h1) = s" and "fst (validate_read_impl g s1 h1)"
    and "\<not> fst (validate_read_impl g (fst (commit_write i s1 h1)) h1)"
  using assms by (auto simp: acquire_read_def release_read_def validate_read_impl_def
      commit_write_def Let_def split: if_splits)

text \<open>\<open>slot_rw_reset_metrics\<close>, documented to reset all timeout counters, leaves the reader
  timeout counter as it is, while every other slot-coordination counter becomes 0; the ring indices
  are untouched.\<close>

theorem reset_metrics_keeps_reader_timeouts:
  "slot_rw_reset_metrics (Some p) = (0, Some p') \<longrightarrow>
     slot_metrics p' = zero_slot_metrics\<lparr>reader_timeout_count := reader_timeout_count (slot_metrics p)\<rparr>
     \<and> commit_index p' = commit_index p \<and> write_index p' = write_index p
     \<and> read_index p' = read_index p"
  by (cases "slot_metrics p") (auto simp: slot_rw_reset_metrics_def zero_slot_metrics_def)

theorem reset_metrics_keeps_reader_timeouts_witness:
  "\<exists>p'. slot_rw_reset_metrics (Some ((header_before_magic 0 demo_config demo_layout)\<lparr>slot_metrics :=
       zero_slot_metrics\<lparr>reader_timeout_count := 3\<rparr>\<rparr>)) = (0, Some p')
     \<and> reader_timeout_count (slot_metrics p') = 3"
proof -
  define p where "p = (header_before_magic 0 demo_config demo_layout)\<lparr>slot_metrics :=
       zero_slot_metrics\<lparr>reader_timeout_count := 3\<rparr>\<rparr>"
  obtain p' where r: "slot_rw_reset_metrics (Some p) = (0, Some p')"
    by (simp add: slot_rw_reset_metrics_def)
  with reset_metrics_keeps_reader_timeouts [of p p'] have "reader_timeout_count (slot_metrics p') = 3"
    by (simp add: p_def)
  with r show ?thesis
    unfolding p_def by blast
qed

end
