(* ===== verification/Slot_Interleaving.thy ===== *)
theory Slot_Interleaving
  imports Slot_Ops
begin

text \<open>
  The slot protocol of \<open>data_block_slot_ops.cpp\<close> under arbitrary interleaving. Any number of
  writers (one per process id) and a fixed list of readers run against one slot; one step is one
  atomic access of one of them, in the order the code makes them. Accesses are sequentially
  consistent, which the code enforces with \<open>memory_order_seq_cst\<close> fences around the reader
  registration and the drain. A writer may crash at any point (\<open>W_Dead\<close>) and leaves memory as it
  is; a crashed process id is not used again. A reader that crashes is one that takes no further
  step. The payload of the slot is carried along, so that what a reader sees can be stated.
\<close>

section \<open>Program counters\<close>

text \<open>Positions in \<open>acquire_write\<close>, then in the release of the write handle.\<close>

datatype wpc =
    W_Idle
  | W_Spin \<comment> \<open>phase 1: about to compare-and-swap the lock\<close>
  | W_Reclaim pid \<comment> \<open>saw a dead owner, about to compare-and-swap it away\<close>
  | W_Locked \<comment> \<open>lock taken, about to load \<open>prev_state\<close>\<close>
  | W_Enter bool \<comment> \<open>\<open>entered_draining\<close> known\<close>
  | W_Wait bool \<comment> \<open>about to set \<open>writer_waiting\<close>\<close>
  | W_Drain bool \<comment> \<open>phase 2: about to load \<open>reader_count\<close>\<close>
  | W_Timeout bool \<comment> \<open>drain timed out, about to restore\<close>
  | W_Drained \<comment> \<open>\<open>reader_count\<close> was 0\<close>
  | W_Ready \<comment> \<open>about to store WRITING\<close>
  | W_Writing \<comment> \<open>\<open>acquire_write\<close> returned OK\<close>
  | W_Commit \<comment> \<open>generation incremented, about to store COMMITTED\<close>
  | W_Unlock \<comment> \<open>about to clear the lock\<close>
  | W_Dead

text \<open>Positions in \<open>acquire_read\<close>; \<open>R_Reading\<close> remembers the captured generation and the payload
  at that moment.\<close>

datatype 'v rpc =
    R_Idle
  | R_Checked \<comment> \<open>first check saw COMMITTED\<close>
  | R_Registered \<comment> \<open>\<open>reader_count\<close> incremented\<close>
  | R_Undo \<comment> \<open>second check failed, about to decrement\<close>
  | R_Verified \<comment> \<open>second check saw COMMITTED\<close>
  | R_Reading u64 'v

record 'v slot_sys =
  shm :: SlotRWState
  payload :: 'v
  wpcs :: "pid \<Rightarrow> wpc"
  rpcs :: "'v rpc list"

section \<open>Steps\<close>

definition set_w :: "pid \<Rightarrow> wpc \<Rightarrow> 'v slot_sys \<Rightarrow> 'v slot_sys" where
  "set_w p c s = s\<lparr>wpcs := (wpcs s)(p := c)\<rparr>"

definition set_r :: "nat \<Rightarrow> 'v rpc \<Rightarrow> 'v slot_sys \<Rightarrow> 'v slot_sys" where
  "set_r i c s = s\<lparr>rpcs := (rpcs s)[i := c]\<rparr>"

definition upd_shm :: "(SlotRWState \<Rightarrow> SlotRWState) \<Rightarrow> 'v slot_sys \<Rightarrow> 'v slot_sys" where
  "upd_shm f s = s\<lparr>shm := f (shm s)\<rparr>"

text \<open>One access of the writer with process id \<open>p\<close>.\<close>

inductive writer_step :: "pid \<Rightarrow> 'v slot_sys \<Rightarrow> 'v slot_sys \<Rightarrow> bool" where
  w_start: "wpcs s p = W_Idle \<Longrightarrow> writer_step p s (set_w p W_Spin s)"
| w_cas_ok: "wpcs s p = W_Spin \<Longrightarrow> write_lock (shm s) = 0 \<Longrightarrow>
    writer_step p s (set_w p W_Locked (upd_shm (\<lambda>m. m\<lparr>write_lock := p\<rparr>) s))"
| w_phase1_timeout: "wpcs s p = W_Spin \<Longrightarrow> write_lock (shm s) \<noteq> 0 \<Longrightarrow>
    writer_step p s (set_w p W_Idle s)"
| w_see_dead: "wpcs s p = W_Spin \<Longrightarrow> write_lock (shm s) = q \<Longrightarrow> q \<noteq> 0 \<Longrightarrow> wpcs s q = W_Dead \<Longrightarrow>
    writer_step p s (set_w p (W_Reclaim q) s)"
| w_reclaim_ok: "wpcs s p = W_Reclaim q \<Longrightarrow> write_lock (shm s) = q \<Longrightarrow>
    writer_step p s (set_w p W_Locked (upd_shm (\<lambda>m. m\<lparr>write_lock := p\<rparr>) s))"
| w_reclaim_lost: "wpcs s p = W_Reclaim q \<Longrightarrow> write_lock (shm s) \<noteq> q \<Longrightarrow>
    writer_step p s (set_w p W_Spin s)"
| w_load_state: "wpcs s p = W_Locked \<Longrightarrow>
    writer_step p s (set_w p (W_Enter (slot_state (shm s) = COMMITTED)) s)"
| w_draining: "wpcs s p = W_Enter True \<Longrightarrow>
    writer_step p s (set_w p (W_Wait True) (upd_shm (\<lambda>m. m\<lparr>slot_state := DRAINING\<rparr>) s))"
| w_no_draining: "wpcs s p = W_Enter False \<Longrightarrow> writer_step p s (set_w p (W_Wait False) s)"
| w_waiting: "wpcs s p = W_Wait b \<Longrightarrow>
    writer_step p s (set_w p (W_Drain b) (upd_shm (\<lambda>m. m\<lparr>writer_waiting := 1\<rparr>) s))"
| w_drained: "wpcs s p = W_Drain b \<Longrightarrow> reader_count (shm s) = 0 \<Longrightarrow>
    writer_step p s (set_w p W_Drained s)"
| w_drain_timeout: "wpcs s p = W_Drain b \<Longrightarrow> reader_count (shm s) \<noteq> 0 \<Longrightarrow>
    writer_step p s (set_w p (W_Timeout b) (upd_shm (\<lambda>m. m\<lparr>writer_waiting := 0\<rparr>) s))"
| w_restore: "wpcs s p = W_Timeout True \<Longrightarrow>
    writer_step p s (set_w p W_Unlock (upd_shm (\<lambda>m. m\<lparr>slot_state := COMMITTED\<rparr>) s))"
| w_no_restore: "wpcs s p = W_Timeout False \<Longrightarrow> writer_step p s (set_w p W_Unlock s)"
| w_not_waiting: "wpcs s p = W_Drained \<Longrightarrow>
    writer_step p s (set_w p W_Ready (upd_shm (\<lambda>m. m\<lparr>writer_waiting := 0\<rparr>) s))"
| w_writing: "wpcs s p = W_Ready \<Longrightarrow>
    writer_step p s (set_w p W_Writing (upd_shm (\<lambda>m. m\<lparr>slot_state := WRITING\<rparr>) s))"
| w_store: "wpcs s p = W_Writing \<Longrightarrow> writer_step p s (s\<lparr>payload := v\<rparr>)"
| w_commit_gen: "wpcs s p = W_Writing \<Longrightarrow>
    writer_step p s (set_w p W_Commit
      (upd_shm (\<lambda>m. m\<lparr>write_generation := write_generation m + 1\<rparr>) s))"
| w_commit_state: "wpcs s p = W_Commit \<Longrightarrow>
    writer_step p s (set_w p W_Unlock (upd_shm (\<lambda>m. m\<lparr>slot_state := COMMITTED\<rparr>) s))"
| w_abort: "wpcs s p = W_Writing \<Longrightarrow>
    writer_step p s (set_w p W_Unlock (upd_shm (\<lambda>m. m\<lparr>slot_state := FREE\<rparr>) s))"
| w_unlock: "wpcs s p = W_Unlock \<Longrightarrow>
    writer_step p s (set_w p W_Idle (upd_shm (\<lambda>m. m\<lparr>write_lock := 0\<rparr>) s))"
| w_crash: "writer_step p s (set_w p W_Dead s)"

text \<open>One access of the reader at position \<open>i\<close>.\<close>

inductive reader_step :: "nat \<Rightarrow> 'v slot_sys \<Rightarrow> 'v slot_sys \<Rightarrow> bool" where
  r_check: "rpcs s ! i = R_Idle \<Longrightarrow> slot_state (shm s) = COMMITTED \<Longrightarrow>
    reader_step i s (set_r i R_Checked s)"
| r_register: "rpcs s ! i = R_Checked \<Longrightarrow>
    reader_step i s (set_r i R_Registered
      (upd_shm (\<lambda>m. m\<lparr>reader_count := reader_count m + 1\<rparr>) s))"
| r_recheck_ok: "rpcs s ! i = R_Registered \<Longrightarrow> slot_state (shm s) = COMMITTED \<Longrightarrow>
    reader_step i s (set_r i R_Verified s)"
| r_recheck_fail: "rpcs s ! i = R_Registered \<Longrightarrow> slot_state (shm s) \<noteq> COMMITTED \<Longrightarrow>
    reader_step i s (set_r i R_Undo s)"
| r_undo: "rpcs s ! i = R_Undo \<Longrightarrow>
    reader_step i s (set_r i R_Idle (upd_shm (\<lambda>m. m\<lparr>reader_count := reader_count m - 1\<rparr>) s))"
| r_capture: "rpcs s ! i = R_Verified \<Longrightarrow>
    reader_step i s (set_r i (R_Reading (write_generation (shm s)) (payload s)) s)"
| r_release: "rpcs s ! i = R_Reading g v \<Longrightarrow>
    reader_step i s (set_r i R_Idle (upd_shm (\<lambda>m. m\<lparr>reader_count := reader_count m - 1\<rparr>) s))"

text \<open>A step of the system: some writer (process ids are not 0) or some reader moves.\<close>

inductive slot_step :: "'v slot_sys \<Rightarrow> 'v slot_sys \<Rightarrow> bool" where
  step_writer: "writer_step p s t \<Longrightarrow> p \<noteq> 0 \<Longrightarrow> wpcs s p \<noteq> W_Dead \<Longrightarrow> slot_step s t"
| step_reader: "reader_step i s t \<Longrightarrow> i < length (rpcs s) \<Longrightarrow> slot_step s t"

definition slot_init :: "'v slot_sys \<Rightarrow> bool" where
  "slot_init s \<longleftrightarrow> shm s = free_slot \<and> wpcs s = (\<lambda>_. W_Idle) \<and> list_all (\<lambda>r. r = R_Idle) (rpcs s)
     \<and> length (rpcs s) < 2 ^ 32"

section \<open>Invariant\<close>

fun registered :: "'v rpc \<Rightarrow> bool" where
  "registered R_Idle = False"
| "registered R_Checked = False"
| "registered _ = True"

fun reading :: "'v rpc \<Rightarrow> bool" where
  "reading R_Verified = True"
| "reading (R_Reading g v) = True"
| "reading _ = False"

fun holding :: "wpc \<Rightarrow> bool" where
  "holding W_Idle = False"
| "holding W_Spin = False"
| "holding (W_Reclaim q) = False"
| "holding W_Dead = False"
| "holding _ = True"

definition nregs :: "'v rpc list \<Rightarrow> nat" where
  "nregs rs = length (filter registered rs)"

fun phase_ok :: "SlotState \<Rightarrow> bool \<Rightarrow> wpc \<Rightarrow> bool" where
  "phase_ok st rd (W_Enter b) = (b \<longleftrightarrow> st = COMMITTED)"
| "phase_ok st rd (W_Wait b) = (st \<noteq> COMMITTED)"
| "phase_ok st rd (W_Drain b) = (st \<noteq> COMMITTED)"
| "phase_ok st rd (W_Timeout b) = (st \<noteq> COMMITTED)"
| "phase_ok st rd W_Drained = (st \<noteq> COMMITTED \<and> \<not> rd)"
| "phase_ok st rd W_Ready = (st \<noteq> COMMITTED \<and> \<not> rd)"
| "phase_ok st rd W_Writing = (st = WRITING)"
| "phase_ok st rd W_Commit = (st = WRITING)"
| "phase_ok st rd _ = True"

definition some_reading :: "'v slot_sys \<Rightarrow> bool" where
  "some_reading s \<longleftrightarrow> list_ex reading (rpcs s)"

definition slot_inv :: "'v slot_sys \<Rightarrow> bool" where
  "slot_inv s \<longleftrightarrow>
     length (rpcs s) < 2 ^ 32
   \<and> unat (reader_count (shm s)) = nregs (rpcs s)
   \<and> (\<forall>p. holding (wpcs s p) \<longrightarrow> p \<noteq> 0 \<and> write_lock (shm s) = p)
   \<and> (\<forall>p q. wpcs s p = W_Reclaim q \<longrightarrow> wpcs s q = W_Dead)
   \<and> (some_reading s \<longrightarrow> slot_state (shm s) = COMMITTED \<or> slot_state (shm s) = DRAINING)
   \<and> (\<forall>p. phase_ok (slot_state (shm s)) (some_reading s) (wpcs s p))
   \<and> (\<forall>g v. R_Reading g v \<in> set (rpcs s) \<longrightarrow> g = write_generation (shm s) \<and> v = payload s)"

lemma slot_invI:
  assumes "length (rpcs s) < 2 ^ 32"
    and "unat (reader_count (shm s)) = nregs (rpcs s)"
    and "\<And>p. holding (wpcs s p) \<Longrightarrow> p \<noteq> 0 \<and> write_lock (shm s) = p"
    and "\<And>p q. wpcs s p = W_Reclaim q \<Longrightarrow> wpcs s q = W_Dead"
    and "some_reading s \<Longrightarrow> slot_state (shm s) = COMMITTED \<or> slot_state (shm s) = DRAINING"
    and "\<And>p. phase_ok (slot_state (shm s)) (some_reading s) (wpcs s p)"
    and "\<And>g v. R_Reading g v \<in> set (rpcs s) \<Longrightarrow> g = write_generation (shm s) \<and> v = payload s"
  shows "slot_inv s"
  using assms unfolding slot_inv_def by blast

lemma slot_invD:
  assumes "slot_inv s"
  shows "length (rpcs s) < 2 ^ 32"
    and "unat (reader_count (shm s)) = nregs (rpcs s)"
    and "holding (wpcs s p) \<Longrightarrow> p \<noteq> 0 \<and> write_lock (shm s) = p"
    and "wpcs s p = W_Reclaim q \<Longrightarrow> wpcs s q = W_Dead"
    and "some_reading s \<Longrightarrow> slot_state (shm s) = COMMITTED \<or> slot_state (shm s) = DRAINING"
    and "phase_ok (slot_state (shm s)) (some_reading s) (wpcs s p)"
    and "R_Reading g v \<in> set (rpcs s) \<Longrightarrow> g = write_generation (shm s) \<and> v = payload s"
  using assms unfolding slot_inv_def by blast+

lemma phase_not_holding: "\<not> holding c \<Longrightarrow> phase_ok st rd c"
  by (cases c) auto

lemma reading_registered: "reading r \<Longrightarrow> registered r"
  by (cases r) auto

lemma nregs_0: "nregs rs = 0 \<Longrightarrow> \<not> list_ex reading rs"
  by (induction rs) (auto simp: nregs_def dest: reading_registered split: if_splits)

lemma nregs_le: "nregs rs \<le> length rs"
  by (simp add: nregs_def)

lemma nregs_update:
  "i < length rs \<Longrightarrow>
   nregs (rs[i := r]) + (if registered (rs ! i) then 1 else 0)
     = nregs rs + (if registered r then 1 else 0)"
  using length_filter_update [of i rs registered r] by (simp add: nregs_def)

lemma slot_inv_init: "slot_init s \<Longrightarrow> slot_inv s"
proof (rule slot_invI)
  assume i: "slot_init s"
  show "length (rpcs s) < 2 ^ 32"
    using i by (simp add: slot_init_def)
  have "\<forall>r \<in> set (rpcs s). r = R_Idle"
    using i by (simp add: slot_init_def list_all_iff)
  then show "unat (reader_count (shm s)) = nregs (rpcs s)"
    using i by (auto simp: slot_init_def free_slot_def nregs_def filter_empty_conv)
qed (auto simp: slot_init_def some_reading_def list_ex_iff list_all_iff)

text \<open>The general shape of a writer's access: it changes its own counter and the slot fields. The
  side conditions are what the single accesses have to provide.\<close>

lemma writer_access_inv:
  assumes inv: "slot_inv s" and live: "wpcs s p \<noteq> W_Dead"
    and count: "reader_count (f (shm s)) = reader_count (shm s)"
    and own: "holding c \<Longrightarrow> p \<noteq> 0 \<and> write_lock (f (shm s)) = p"
    and others: "\<And>q. q \<noteq> p \<Longrightarrow> holding (wpcs s q) \<Longrightarrow> write_lock (f (shm s)) = write_lock (shm s)"
    and recl: "\<And>q. c = W_Reclaim q \<Longrightarrow> wpcs s q = W_Dead"
    and state: "slot_state (f (shm s)) = slot_state (shm s) \<or> holding (wpcs s p)
      \<and> (some_reading s \<longrightarrow> slot_state (f (shm s)) = COMMITTED \<or> slot_state (f (shm s)) = DRAINING)"
    and phase: "phase_ok (slot_state (f (shm s))) (some_reading s) c"
    and gen: "write_generation (f (shm s)) = write_generation (shm s) \<or> \<not> some_reading s"
  shows "slot_inv (set_w p c (upd_shm f s))"
proof (rule slot_invI)
  let ?t = "set_w p c (upd_shm f s)"
  note D = slot_invD [OF inv]
  have rd: "some_reading ?t = some_reading s"
    by (simp add: some_reading_def set_w_def upd_shm_def)
  show "length (rpcs ?t) < 2 ^ 32" "unat (reader_count (shm ?t)) = nregs (rpcs ?t)"
    using D(1,2) count by (simp_all add: set_w_def upd_shm_def)
  show "q \<noteq> 0 \<and> write_lock (shm ?t) = q" if "holding (wpcs ?t q)" for q
    using that own others [of q] D(3) [of q] by (auto simp: set_w_def upd_shm_def split: if_splits)
  show "wpcs ?t r = W_Dead" if "wpcs ?t q = W_Reclaim r" for q r
    using that recl D(4) [of q r] live by (auto simp: set_w_def upd_shm_def split: if_splits)
  show "slot_state (shm ?t) = COMMITTED \<or> slot_state (shm ?t) = DRAINING" if "some_reading ?t"
    using that state D(5) rd by (auto simp: set_w_def upd_shm_def)
  show "phase_ok (slot_state (shm ?t)) (some_reading ?t) (wpcs ?t q)" for q
  proof (cases "q = p")
    case True
    with phase rd show ?thesis by (simp add: set_w_def upd_shm_def)
  next
    case False
    then have "holding (wpcs s p) \<Longrightarrow> \<not> holding (wpcs s q)"
      using D(3) [of p] D(3) [of q] by auto
    with False state D(6) [of q] show ?thesis
      unfolding rd by (auto simp: set_w_def upd_shm_def intro: phase_not_holding)
  qed
  show "g = write_generation (shm ?t) \<and> v = payload ?t" if "R_Reading g v \<in> set (rpcs ?t)" for g v
  proof -
    have r: "R_Reading g v \<in> set (rpcs s)"
      using that by (simp add: set_w_def upd_shm_def)
    then have "some_reading s"
      by (auto simp: some_reading_def list_ex_iff intro: bexI [of _ "R_Reading g v"])
    with gen D(7) [OF r] show ?thesis
      by (simp add: set_w_def upd_shm_def)
  qed
qed

lemma upd_shm_id: "upd_shm (\<lambda>m. m) s = s"
  by (cases s) (simp add: upd_shm_def)

lemmas writer_pc_inv = writer_access_inv [where f = "\<lambda>m. m", unfolded upd_shm_id simp_thms]

lemma sole_holder:
  "slot_inv s \<Longrightarrow> holding (wpcs s p) \<Longrightarrow> holding (wpcs s q) \<Longrightarrow> p = q"
  using slot_invD(3) [of s p] slot_invD(3) [of s q] by auto

lemma not_reading_writing: "slot_inv s \<Longrightarrow> slot_state (shm s) = WRITING \<Longrightarrow> \<not> some_reading s"
  using slot_invD(5) [of s] by auto

lemma writer_step_inv:
  assumes "writer_step p s t" and inv: "slot_inv s" and p: "p \<noteq> 0" and live: "wpcs s p \<noteq> W_Dead"
  shows "slot_inv t"
  using assms(1)
proof cases
  case w_cas_ok
  then show ?thesis
    using slot_invD(3) [OF inv] p by (auto intro!: writer_access_inv [OF inv live])
next
  case (w_reclaim_ok q)
  then have "wpcs s q = W_Dead"
    using slot_invD(4) [OF inv] by blast
  then show ?thesis
    using w_reclaim_ok slot_invD(3) [OF inv] p by (auto intro!: writer_access_inv [OF inv live])
next
  case (w_drained b)
  have "\<not> some_reading s"
    using nregs_0 [of "rpcs s"] slot_invD(2) [OF inv] w_drained by (simp add: some_reading_def)
  then show ?thesis
    unfolding w_drained(1) using w_drained(2) slot_invD(3,6) [OF inv, of p]
    by (intro writer_pc_inv [OF inv live]) auto
next
  case (w_store v)
  then have "\<not> some_reading s"
    using slot_invD(6) [OF inv, of p] not_reading_writing [OF inv] by simp
  then have "R_Reading g u \<notin> set (rpcs s)" for g u
    by (force simp: some_reading_def list_ex_iff)
  then show ?thesis
    using inv w_store by (simp add: slot_inv_def some_reading_def)
next
  case w_commit_gen
  then have "\<not> some_reading s"
    using slot_invD(6) [OF inv, of p] not_reading_writing [OF inv] by simp
  then show ?thesis
    unfolding w_commit_gen(1) using w_commit_gen(2) slot_invD(3,6) [OF inv, of p]
    by (intro writer_access_inv [OF inv live]) auto
next
  case w_commit_state
  then show ?thesis
    unfolding w_commit_state(1) using w_commit_state(2) slot_invD(3,6) [OF inv, of p] not_reading_writing [OF inv]
    by (intro writer_access_inv [OF inv live]) auto
next
  case w_abort
  then show ?thesis
    unfolding w_abort(1) using w_abort(2) slot_invD(3,6) [OF inv, of p] not_reading_writing [OF inv]
    by (intro writer_access_inv [OF inv live]) auto
next
  case w_unlock
  then have "\<not> holding (wpcs s q)" if "q \<noteq> p" for q
    using sole_holder [OF inv, of p q] that by auto
  then show ?thesis
    using w_unlock by (auto intro!: writer_access_inv [OF inv live])
next
  case w_restore
  then show ?thesis
    unfolding w_restore(1) using w_restore(2) slot_invD(3,6) [OF inv, of p] slot_invD(5) [OF inv]
    by (intro writer_access_inv [OF inv live]) auto
qed (hypsubst, (rule writer_pc_inv [OF inv live] | rule writer_access_inv [OF inv live]);
      use slot_invD(3,6) [OF inv, of p] in auto)+

text \<open>The same for a reader's access, which changes its own counter and \<open>reader_count\<close>.\<close>

lemma reader_access_inv:
  assumes inv: "slot_inv s" and i: "i < length (rpcs s)"
    and count: "unat n = nregs ((rpcs s)[i := c])"
    and check: "reading c \<Longrightarrow> reading (rpcs s ! i) \<or> slot_state (shm s) = COMMITTED"
    and cap: "\<And>g v. c = R_Reading g v \<Longrightarrow> g = write_generation (shm s) \<and> v = payload s"
  shows "slot_inv (set_r i c (upd_shm (\<lambda>m. m\<lparr>reader_count := n\<rparr>) s))"
proof (rule slot_invI)
  let ?t = "set_r i c (upd_shm (\<lambda>m. m\<lparr>reader_count := n\<rparr>) s)"
  note D = slot_invD [OF inv]
  have S: "shm ?t = (shm s)\<lparr>reader_count := n\<rparr>" "wpcs ?t = wpcs s" "rpcs ?t = (rpcs s)[i := c]"
    "payload ?t = payload s"
    by (simp_all add: set_r_def upd_shm_def)
  have rd: "some_reading s \<or> slot_state (shm s) = COMMITTED" if t: "some_reading ?t"
  proof -
    obtain r where "r \<in> set ((rpcs s)[i := c])" "reading r"
      using t by (auto simp: some_reading_def S list_ex_iff)
    moreover have "set ((rpcs s)[i := c]) \<subseteq> insert c (set (rpcs s))"
      by (rule set_update_subset_insert)
    ultimately show ?thesis
      using check nth_mem [OF i] by (auto simp: some_reading_def list_ex_iff)
  qed
  show "length (rpcs ?t) < 2 ^ 32" "unat (reader_count (shm ?t)) = nregs (rpcs ?t)"
    using D(1) count by (simp_all add: S)
  show "q \<noteq> 0 \<and> write_lock (shm ?t) = q" if "holding (wpcs ?t q)" for q
    using that D(3) [of q] by (simp add: S)
  show "wpcs ?t r = W_Dead" if "wpcs ?t q = W_Reclaim r" for q r
    using that D(4) by (simp add: S)
  show "slot_state (shm ?t) = COMMITTED \<or> slot_state (shm ?t) = DRAINING" if "some_reading ?t"
    using rd [OF that] D(5) by (auto simp: S)
  show "phase_ok (slot_state (shm ?t)) (some_reading ?t) (wpcs ?t q)" for q
    using D(6) [of q] rd by (cases "wpcs s q") (auto simp: S)
  show "g = write_generation (shm ?t) \<and> v = payload ?t" if "R_Reading g v \<in> set (rpcs ?t)" for g v
    using that D(7) [of g v] cap [of g v] set_update_subset_insert [of "rpcs s" i c]
    by (auto simp: S)
qed

lemma unat_u32_dec: "0 < unat n \<Longrightarrow> unat (n - 1 :: u32) = unat n - 1"
  by (metis One_nat_def Suc_leI unat_1 unat_sub word_le_nat_alt)

lemma unat_u32_inc: "unat n + 1 < 2 ^ 32 \<Longrightarrow> unat (n + 1 :: u32) = unat n + 1"
  by (simp add: unat_word_ariths)

lemma set_r_same_count:
  "set_r i c s = set_r i c (upd_shm (\<lambda>m. m\<lparr>reader_count := reader_count (shm s)\<rparr>) s)"
  by (cases s) (simp add: set_r_def upd_shm_def)

lemma nregs_drop:
  assumes "i < length rs" and "registered (rs ! i)" and "\<not> registered c"
  shows "nregs rs = nregs (rs[i := c]) + 1"
  using nregs_update [OF assms(1), of c] assms(2,3) by simp

lemma nregs_same:
  "i < length rs \<Longrightarrow> registered c = registered (rs ! i) \<Longrightarrow> nregs (rs[i := c]) = nregs rs"
  using nregs_update [of i rs c] by (simp split: if_splits)

lemma upd_shm_count:
  "upd_shm (\<lambda>m. m\<lparr>reader_count := f (reader_count m)\<rparr>) s
     = upd_shm (\<lambda>m. m\<lparr>reader_count := f (reader_count (shm s))\<rparr>) s"
  by (simp add: upd_shm_def)

lemma reader_step_inv:
  assumes "reader_step i s t" and inv: "slot_inv s" and i: "i < length (rpcs s)"
  shows "slot_inv t"
  using assms(1)
proof cases
  case r_register
  have n: "nregs ((rpcs s)[i := R_Registered]) = nregs (rpcs s) + 1"
    using nregs_update [OF i, of R_Registered] r_register by simp
  moreover have "nregs ((rpcs s)[i := R_Registered]) \<le> length (rpcs s)"
    using nregs_le [of "(rpcs s)[i := R_Registered]"] by simp
  ultimately have "unat (reader_count (shm s) + 1) = nregs ((rpcs s)[i := R_Registered])"
    using slot_invD(1,2) [OF inv] by (subst unat_u32_inc) simp_all
  then show ?thesis
    unfolding r_register(1) upd_shm_count [of "\<lambda>c. c + 1"]
    by (intro reader_access_inv [OF inv i]) simp_all
next
  case r_undo
  then have "unat (reader_count (shm s) - 1) = nregs ((rpcs s)[i := R_Idle])"
    using nregs_drop [OF i, of R_Idle] slot_invD(2) [OF inv] by (subst unat_u32_dec) simp_all
  then show ?thesis
    unfolding r_undo(1) upd_shm_count [of "\<lambda>c. c - 1"]
    by (intro reader_access_inv [OF inv i]) simp_all
next
  case (r_release g v)
  then have "unat (reader_count (shm s) - 1) = nregs ((rpcs s)[i := R_Idle])"
    using nregs_drop [OF i, of R_Idle] slot_invD(2) [OF inv] by (subst unat_u32_dec) simp_all
  then show ?thesis
    unfolding r_release(1) upd_shm_count [of "\<lambda>c. c - 1"]
    by (intro reader_access_inv [OF inv i]) simp_all
qed (hypsubst, subst set_r_same_count, rule reader_access_inv [OF inv i];
      use nregs_same [OF i] slot_invD(2) [OF inv] in simp)+

lemma slot_step_inv: "slot_inv s \<Longrightarrow> slot_step s t \<Longrightarrow> slot_inv t"
  by (erule slot_step.cases) (auto intro: writer_step_inv reader_step_inv)

interpretation slot: inductive_invariant slot_init slot_step slot_inv
  by unfold_locales (auto intro: slot_inv_init slot_step_inv)

section \<open>Safety\<close>

text \<open>C1: mutual exclusion of writing and reading. In every reachable state, whatever the
  interleaving, the drain timeouts, the reclaimed locks and the crashed writers: while a writer is
  between a successful \<open>acquire_write\<close> and the store of COMMITTED, no reader is between the
  successful second check of \<open>acquire_read\<close> and its release.\<close>

theorem no_reader_while_writing:
  assumes "reach slot_init slot_step s" and "wpcs s p = W_Writing \<or> wpcs s p = W_Commit"
    and "r \<in> set (rpcs s)"
  shows "\<not> reading r"
proof -
  have inv: "slot_inv s"
    using assms(1) by (rule slot.reach_inv)
  then have "slot_state (shm s) = WRITING"
    using slot_invD(6) [OF inv, of p] assms(2) by auto
  then show ?thesis
    using not_reading_writing [OF inv] assms(3) by (auto simp: some_reading_def list_ex_iff)
qed

text \<open>C2: a read is stable. The generation a reader captured and the payload it saw at that moment
  are still those of the slot in every reachable state in which the reader has not released yet, so
  the validation at release succeeds.\<close>

theorem read_is_stable:
  assumes "reach slot_init slot_step s" and "R_Reading g v \<in> set (rpcs s)"
  shows "v = payload s \<and> fst (validate_read_impl g (shm s) h)"
  using slot_invD(7) [OF slot.reach_inv [OF assms(1)] assms(2)]
  by (simp add: validate_read_impl_def)

text \<open>C3: writers exclude each other, and the reader count is exact. Two live writers that hold the
  lock of a slot are the same process, the lock word names the holder, and \<open>reader_count\<close> is the
  number of readers between registration and release (it neither drifts nor wraps).\<close>

theorem write_lock_exclusive:
  assumes "reach slot_init slot_step s" and "holding (wpcs s p)" and "holding (wpcs s q)"
  shows "p = q \<and> write_lock (shm s) = p
     \<and> unat (reader_count (shm s)) = length (filter registered (rpcs s))"
proof -
  have inv: "slot_inv s"
    using assms(1) by (rule slot.reach_inv)
  show ?thesis
    using sole_holder [OF inv assms(2,3)] slot_invD(2,3) [OF inv] assms(2)
    by (simp add: nregs_def)
qed

section \<open>A run\<close>

text \<open>Process 1 publishes the value 5; the only reader acquires it; the writer comes back for the
  next lap and has to drain.\<close>

definition run0 :: "nat slot_sys" where
  "run0 = \<lparr>shm = free_slot, payload = 0, wpcs = (\<lambda>_. W_Idle), rpcs = [R_Idle]\<rparr>"

abbreviation "w1 \<equiv> set_w (1::pid)"

definition run_writing :: "nat slot_sys" where
  "run_writing = w1 W_Writing (upd_shm (\<lambda>m. m\<lparr>slot_state := WRITING\<rparr>)
     (w1 W_Ready (upd_shm (\<lambda>m. m\<lparr>writer_waiting := 0\<rparr>) (w1 W_Drained
     (w1 (W_Drain False) (upd_shm (\<lambda>m. m\<lparr>writer_waiting := 1\<rparr>) (w1 (W_Wait False)
     (w1 (W_Enter False) (w1 W_Locked (upd_shm (\<lambda>m. m\<lparr>write_lock := 1\<rparr>) (w1 W_Spin run0)))))))))))"

definition run_reading :: "nat slot_sys" where
  "run_reading = set_r 0 (R_Reading 1 5) (set_r 0 R_Verified
     (set_r 0 R_Registered (upd_shm (\<lambda>m. m\<lparr>reader_count := reader_count m + 1\<rparr>)
     (set_r 0 R_Checked (w1 W_Unlock (upd_shm (\<lambda>m. m\<lparr>slot_state := COMMITTED\<rparr>)
     (w1 W_Commit (upd_shm (\<lambda>m. m\<lparr>write_generation := write_generation m + 1\<rparr>)
     (run_writing\<lparr>payload := 5\<rparr>)))))))))"

lemmas run_simps = set_w_def set_r_def upd_shm_def run0_def free_slot_def

lemma reach_writer:
  "reach slot_init slot_step s \<Longrightarrow> writer_step p s t \<Longrightarrow> p \<noteq> 0 \<Longrightarrow> wpcs s p \<noteq> W_Dead \<Longrightarrow>
   reach slot_init slot_step t"
  by (blast intro: reach_step slot_step.step_writer)

lemma reach_reader:
  "reach slot_init slot_step s \<Longrightarrow> reader_step i s t \<Longrightarrow> i < length (rpcs s) \<Longrightarrow>
   reach slot_init slot_step t"
  by (blast intro: reach_step slot_step.step_reader)

lemma run0_reach: "reach slot_init slot_step run0"
  by (rule reach_init) (simp add: slot_init_def run0_def)

lemma run_writing_reach: "reach slot_init slot_step run_writing"
proof -
  have a: "reach slot_init slot_step (w1 W_Locked (upd_shm (\<lambda>m. m\<lparr>write_lock := 1\<rparr>) (w1 W_Spin run0)))"
    by (rule reach_writer [OF reach_writer [OF run0_reach w_start] w_cas_ok])
      (simp_all add: run_simps)
  have b: "reach slot_init slot_step (w1 (W_Enter False)
      (w1 W_Locked (upd_shm (\<lambda>m. m\<lparr>write_lock := 1\<rparr>) (w1 W_Spin run0))))"
    using reach_writer [OF a w_load_state, of 1] by (simp add: run_simps)
  show ?thesis
    unfolding run_writing_def
    by (rule reach_writer [OF reach_writer [OF reach_writer [OF reach_writer [OF reach_writer
        [OF b w_no_draining] w_waiting] w_drained [where b = False]] w_not_waiting] w_writing])
      (simp_all add: run_simps)
qed

lemma run_writing_pc: "wpcs run_writing 1 = W_Writing" "rpcs run_writing = [R_Idle]"
  by (simp_all add: run_writing_def run_simps)

theorem no_reader_while_writing_witness:
  "reach slot_init slot_step run_writing \<and> wpcs run_writing 1 = W_Writing
     \<and> R_Idle \<in> set (rpcs run_writing) \<and> \<not> reading (R_Idle :: nat rpc)"
  using no_reader_while_writing [OF run_writing_reach, of 1 R_Idle] run_writing_reach run_writing_pc
  by simp

lemma run_reading_reach: "reach slot_init slot_step run_reading"
proof -
  have a: "reach slot_init slot_step (run_writing\<lparr>payload := 5\<rparr>)"
    by (rule reach_writer [OF run_writing_reach w_store, of 1]) (simp_all add: run_writing_pc)
  have b: "reach slot_init slot_step (set_r 0 R_Verified
     (set_r 0 R_Registered (upd_shm (\<lambda>m. m\<lparr>reader_count := reader_count m + 1\<rparr>)
     (set_r 0 R_Checked (w1 W_Unlock (upd_shm (\<lambda>m. m\<lparr>slot_state := COMMITTED\<rparr>)
     (w1 W_Commit (upd_shm (\<lambda>m. m\<lparr>write_generation := write_generation m + 1\<rparr>)
     (run_writing\<lparr>payload := 5\<rparr>)))))))))"
    by (rule reach_reader [OF reach_reader [OF reach_reader [OF reach_writer [OF reach_writer
        [OF a w_commit_gen] w_commit_state] r_check] r_register] r_recheck_ok])
      (simp_all add: run_writing_pc set_w_def set_r_def upd_shm_def)
  show ?thesis
    using reach_reader [OF b r_capture, of 0]
    by (simp add: run_reading_def run_writing_pc) (simp add: run_writing_def run_simps)
qed

lemma run_reading_rpcs: "rpcs run_reading = [R_Reading 1 5]"
  by (simp add: run_reading_def run_writing_pc set_w_def set_r_def upd_shm_def)

theorem read_is_stable_witness:
  "reach slot_init slot_step run_reading \<and> R_Reading 1 5 \<in> set (rpcs run_reading)
     \<and> payload run_reading = 5 \<and> fst (validate_read_impl 1 (shm run_reading) None)"
  using read_is_stable [OF run_reading_reach, of 1 5 None] run_reading_reach run_reading_rpcs
  by simp

theorem write_lock_exclusive_witness:
  "holding (wpcs run_writing 1) \<and> write_lock (shm run_writing) = 1
     \<and> unat (reader_count (shm run_writing)) = 0"
  using write_lock_exclusive [OF run_writing_reach, of 1 1] run_writing_pc by simp

end
