(* ===== verification/Shm_Segment.thy ===== *)
theory Shm_Segment
  imports Slot_Ops
begin

text \<open>
  A mapped segment: the layout with the parts it locates, and the operations of \<open>data_block.cpp\<close>
  that work on the parts directly: slot and flexible-zone checksums, the byte copies of the slot
  handles and the table of shared spin locks. The hash is a parameter
  (\<open>crypto_generichash\<close> of libsodium through \<open>SecureSubsystem::compute_blake2b\<close>); the calls here
  pass valid pointers and the fixed output length, for which it is documented to succeed, so the
  parameter is a total function.
\<close>

section \<open>Segment\<close>

record segment =
  seg_layout :: DataBlockLayout
  seg_header :: SharedMemoryHeader
  seg_slots :: "SlotRWState list"
  seg_checksums :: "ChecksumEntry list"
  seg_buffers :: "bytes list"
  seg_flex :: bytes

definition slot_count_value :: "segment \<Rightarrow> nat" where
  "slot_count_value g = unat (lay_slot_count (seg_layout g))"

definition slot_rw_state :: "segment \<Rightarrow> nat \<Rightarrow> SlotRWState option" where
  "slot_rw_state g i = (if i \<ge> slot_count_value g then None else Some (seg_slots g ! i))"

definition put_slot :: "nat \<Rightarrow> SlotRWState \<Rightarrow> segment \<Rightarrow> segment" where
  "put_slot i s g = g\<lparr>seg_slots := (seg_slots g)[i := s]\<rparr>"

definition put_header :: "hdr \<Rightarrow> segment \<Rightarrow> segment" where
  "put_header h g = (case h of None \<Rightarrow> g | Some p \<Rightarrow> g\<lparr>seg_header := p\<rparr>)"

text \<open>The arrays of a segment have the lengths the layout gives them.\<close>

definition segment_wf :: "segment \<Rightarrow> bool" where
  "segment_wf g \<longleftrightarrow> length (seg_slots g) = slot_count_value g
     \<and> length (seg_checksums g) = slot_count_value g
     \<and> length (seg_buffers g) = slot_count_value g
     \<and> (\<forall>b \<in> set (seg_buffers g). length b = unat (lay_slot_stride_bytes (seg_layout g)))
     \<and> length (consumer_heartbeats (seg_header g)) = MAX_CONSUMER_HEARTBEATS
     \<and> length (consumer_next_read_slot (seg_header g)) = MAX_CONSUMER_HEARTBEATS
     \<and> length (spinlock_states (seg_header g)) = MAX_SHARED_SPINLOCKS
     \<and> length (flexible_zone_checksums (seg_header g)) = MAX_FLEXIBLE_ZONE_CHECKSUMS"

text \<open>The segment a creator leaves: the header of \<open>create_datablock\<close>, free slots, zeroed data
  (the operating system delivers zeroed pages).\<close>

definition fresh_segment :: "DataBlockLayout \<Rightarrow> SharedMemoryHeader \<Rightarrow> segment" where
  "fresh_segment l h = \<lparr>seg_layout = l, seg_header = h,
     seg_slots = replicate (unat (lay_slot_count l)) free_slot,
     seg_checksums = replicate (unat (lay_slot_count l)) \<lparr>checksum_bytes = zero_hash, cks_is_valid = 0\<rparr>,
     seg_buffers = replicate (unat (lay_slot_count l)) (replicate (unat (lay_slot_stride_bytes l)) 0),
     seg_flex = replicate (unat (lay_flexible_zone_size l)) 0\<rparr>"

section \<open>Checksums\<close>

definition update_checksum_slot_impl ::
  "(bytes \<Rightarrow> bytes) \<Rightarrow> nat \<Rightarrow> bool \<Rightarrow> segment \<Rightarrow> bool \<times> segment" where
  "update_checksum_slot_impl blake2b i compute g =
     (if lay_slot_checksum_size (seg_layout g) = 0 then (False, g)
      else if i \<ge> slot_count_value g then (False, g)
      else (True, g\<lparr>seg_checksums := (seg_checksums g)[i :=
             \<lparr>checksum_bytes = (if compute then blake2b (seg_buffers g ! i) else zero_hash),
              cks_is_valid = 0\<rparr>]\<rparr>))"

definition verify_checksum_slot_impl ::
  "(bytes \<Rightarrow> bytes) \<Rightarrow> nat \<Rightarrow> bool \<Rightarrow> segment \<Rightarrow> bool \<times> segment" where
  "verify_checksum_slot_impl blake2b i honor_slot_valid g =
     (if lay_slot_checksum_size (seg_layout g) = 0 then (False, g)
      else if i \<ge> slot_count_value g then (False, g)
      else (let e = seg_checksums g ! i;
                mark = (\<lambda>v. g\<lparr>seg_checksums := (seg_checksums g)[i := e\<lparr>cks_is_valid := v\<rparr>]\<rparr>)
            in if list_all (\<lambda>b. b = 0) (checksum_bytes e) then (False, mark 0)
               else if honor_slot_valid \<and> cks_is_valid e = 1 then (True, g)
               else if checksum_bytes e = blake2b (seg_buffers g ! i) then (True, mark 1)
               else (False, mark 0)))"

definition update_checksum_flexible_zone_impl ::
  "(bytes \<Rightarrow> bytes) \<Rightarrow> bool \<Rightarrow> segment \<Rightarrow> bool \<times> segment" where
  "update_checksum_flexible_zone_impl blake2b compute g =
     (if lay_slot_checksum_size (seg_layout g) = 0 then (False, g)
      else if lay_flexible_zone_size (seg_layout g) = 0 then (True, g)
      else (True, g\<lparr>seg_header := (seg_header g)\<lparr>flexible_zone_checksums :=
             (flexible_zone_checksums (seg_header g))[0 :=
               \<lparr>checksum_bytes = (if compute then blake2b (seg_flex g) else zero_hash),
                cks_is_valid = 0\<rparr>]\<rparr>\<rparr>))"

definition verify_checksum_flexible_zone_impl ::
  "(bytes \<Rightarrow> bytes) \<Rightarrow> bool \<Rightarrow> segment \<Rightarrow> bool \<times> segment" where
  "verify_checksum_flexible_zone_impl blake2b honor_valid g =
     (if lay_slot_checksum_size (seg_layout g) = 0 then (False, g)
      else if lay_flexible_zone_size (seg_layout g) = 0 then (True, g)
      else (let e = flexible_zone_checksums (seg_header g) ! 0;
                mark = (\<lambda>v. g\<lparr>seg_header := (seg_header g)\<lparr>flexible_zone_checksums :=
                  (flexible_zone_checksums (seg_header g))[0 := e\<lparr>cks_is_valid := v\<rparr>]\<rparr>\<rparr>)
            in if list_all (\<lambda>b. b = 0) (checksum_bytes e) then (False, mark 0)
               else if honor_valid \<and> cks_is_valid e = 1 then (True, g)
               else if checksum_bytes e = blake2b (seg_flex g) then (True, mark 1)
               else (False, mark 0)))"

section \<open>Copies into and out of a slot\<close>

text \<open>\<open>SlotWriteHandle::write\<close> and \<open>SlotConsumeHandle::read\<close> on the slot \<open>i\<close>. The bounds check
  adds two \<open>size_t\<close> values and wraps. \<open>None\<close> is a \<open>memcpy\<close> that leaves the slot, which has no
  defined result.\<close>

definition slot_write :: "bytes \<Rightarrow> u64 \<Rightarrow> nat \<Rightarrow> u64 \<Rightarrow> segment \<Rightarrow> (bool \<times> segment) option" where
  "slot_write src offset i buffer_size g =
     (let len = of_nat (length src) :: u64; b = seg_buffers g ! i; o' = unat offset in
      if len = 0 then Some (False, g)
      else if offset + len > buffer_size then Some (False, g)
      else if o' + length src \<le> length b
        then Some (True, g\<lparr>seg_buffers :=
               (seg_buffers g)[i := take o' b @ src @ drop (o' + length src) b]\<rparr>)
      else None)"

definition slot_read :: "u64 \<Rightarrow> u64 \<Rightarrow> nat \<Rightarrow> u64 \<Rightarrow> segment \<Rightarrow> (bytes option) option" where
  "slot_read len offset i buffer_size g =
     (let b = seg_buffers g ! i in
      if len = 0 then Some None
      else if offset + len > buffer_size then Some None
      else if unat offset + unat len \<le> length b
        then Some (Some (take (unat len) (drop (unat offset) b)))
      else None)"

section \<open>Table of shared spin locks\<close>

text \<open>\<open>acquire_shared_spinlock\<close> throws when every entry has an owner (\<open>None\<close>).\<close>

fun first_free_spinlock :: "nat \<Rightarrow> SharedSpinLockState list \<Rightarrow> nat option" where
  "first_free_spinlock k [] = None"
| "first_free_spinlock k (s # ss) =
     (if owner_pid s = 0 then Some k else first_free_spinlock (Suc k) ss)"

definition acquire_shared_spinlock :: "SharedMemoryHeader \<Rightarrow> (nat \<times> SharedMemoryHeader) option" where
  "acquire_shared_spinlock h = (case first_free_spinlock 0 (spinlock_states h) of
       None \<Rightarrow> None
     | Some i \<Rightarrow> Some (i, h\<lparr>spinlock_states := (spinlock_states h)[i := init_spinlock_state]\<rparr>))"

definition release_shared_spinlock :: "nat \<Rightarrow> SharedMemoryHeader \<Rightarrow> SharedMemoryHeader option" where
  "release_shared_spinlock i h = (if i \<ge> MAX_SHARED_SPINLOCKS then None
     else Some (h\<lparr>spinlock_states := (spinlock_states h)[i := init_spinlock_state]\<rparr>))"

definition get_shared_spinlock_state :: "nat \<Rightarrow> SharedMemoryHeader \<Rightarrow> SharedSpinLockState option" where
  "get_shared_spinlock_state i h = (if i \<ge> MAX_SHARED_SPINLOCKS then None
     else Some (spinlock_states h ! i))"

section \<open>Facts about checksums\<close>

text \<open>A hash that marks data: never the all-zero value that means "no checksum". For BLAKE2b-256
  no input with an all-zero digest is known.\<close>

definition marks_data :: "(bytes \<Rightarrow> bytes) \<Rightarrow> bool" where
  "marks_data blake2b \<longleftrightarrow> (\<forall>bs. \<not> list_all (\<lambda>b. b = 0) (blake2b bs))"

lemma update_checksum_slot_frame:
  assumes "update_checksum_slot_impl blake2b i compute g = (r, g')"
  shows "seg_layout g' = seg_layout g" and "seg_header g' = seg_header g"
    and "seg_slots g' = seg_slots g" and "seg_buffers g' = seg_buffers g" and "seg_flex g' = seg_flex g"
    and "length (seg_checksums g') = length (seg_checksums g)"
    and "j \<noteq> i \<Longrightarrow> seg_checksums g' ! j = seg_checksums g ! j"
  using assms by (auto simp: update_checksum_slot_impl_def split: if_splits)

lemma verify_checksum_slot_frame:
  assumes "verify_checksum_slot_impl blake2b i honor g = (r, g')"
  shows "seg_layout g' = seg_layout g" and "seg_header g' = seg_header g"
    and "seg_slots g' = seg_slots g" and "seg_buffers g' = seg_buffers g" and "seg_flex g' = seg_flex g"
    and "length (seg_checksums g') = length (seg_checksums g)"
    and "j < length (seg_checksums g) \<Longrightarrow>
      checksum_bytes (seg_checksums g' ! j) = checksum_bytes (seg_checksums g ! j)"
  using assms
  by (auto simp: verify_checksum_slot_impl_def Let_def list_update_proj [where f = checksum_bytes]
      split: if_splits)

lemma verify_slot_iff:
  assumes "i < slot_count_value g" and "lay_slot_checksum_size (seg_layout g) \<noteq> 0"
  shows "fst (verify_checksum_slot_impl blake2b i False g)
    \<longleftrightarrow> \<not> list_all (\<lambda>b. b = 0) (checksum_bytes (seg_checksums g ! i))
        \<and> checksum_bytes (seg_checksums g ! i) = blake2b (seg_buffers g ! i)"
  using assms by (auto simp: verify_checksum_slot_impl_def Let_def)

text \<open>The checksum of a slot detects what the hash distinguishes. After an update the audit
  of the unchanged slot succeeds and records it; when the bytes of the slot change to bytes with
  another hash, the audit fails and clears the "verified" mark, so that a later gate with the mark
  honoured fails too. An invalidated checksum is never accepted.\<close>

theorem slot_checksum_detects:
  assumes "update_checksum_slot_impl blake2b i True g = (True, g1)" and "marks_data blake2b"
    and "i < length (seg_checksums g)" and "i < length (seg_buffers g)"
  shows "fst (verify_checksum_slot_impl blake2b i False g1)
    \<and> (blake2b b \<noteq> blake2b (seg_buffers g ! i) \<longrightarrow>
        (case verify_checksum_slot_impl blake2b i False
            (g1\<lparr>seg_buffers := (seg_buffers g1)[i := b]\<rparr>) of
          (ok, g2) \<Rightarrow> \<not> ok \<and> cks_is_valid (seg_checksums g2 ! i) = 0
             \<and> \<not> fst (verify_checksum_slot_impl blake2b i True g2)))
    \<and> \<not> fst (verify_checksum_slot_impl blake2b i honor
          (snd (update_checksum_slot_impl blake2b i False g1)))"
proof -
  have g1: "g1 = g\<lparr>seg_checksums := (seg_checksums g)[i :=
      \<lparr>checksum_bytes = blake2b (seg_buffers g ! i), cks_is_valid = 0\<rparr>]\<rparr>"
    and c: "lay_slot_checksum_size (seg_layout g) \<noteq> 0" "i < slot_count_value g"
    using assms(1) by (auto simp: update_checksum_slot_impl_def split: if_splits)
  have n: "\<not> list_all (\<lambda>b. b = 0) (blake2b bs)" for bs
    using assms(2) by (simp add: marks_data_def)
  have z: "list_all (\<lambda>b. b = 0) zero_hash"
    by (simp add: zero_hash_def list_all_iff)
  have sc: "slot_count_value (g\<lparr>seg_checksums := x, seg_buffers := y\<rparr>) = slot_count_value g"
    "slot_count_value (g\<lparr>seg_checksums := x\<rparr>) = slot_count_value g" for x y
    by (simp_all add: slot_count_value_def)
  show ?thesis
    using assms(3,4) c n z
    by (auto simp: g1 sc verify_checksum_slot_impl_def update_checksum_slot_impl_def Let_def)
qed

section \<open>Facts about copies\<close>

text \<open>The bounds check of the slot copies protects the buffer exactly while
  \<open>offset + length\<close> does not wrap. Without wrap a copy is refused or stays inside the slot and is
  read back unchanged by a read at the same place; with an offset near the end of the address range
  the check passes and the copy leaves the slot.\<close>

theorem slot_copy_bounds:
  assumes "i < length (seg_buffers g)" and "length (seg_buffers g ! i) = unat sz"
    and "length src < 2 ^ 64" and "src \<noteq> []"
  shows "(unat offset + length src < 2 ^ 64 \<longrightarrow>
          (\<exists>ok g'. slot_write src offset i sz g = Some (ok, g')
             \<and> (ok \<longleftrightarrow> unat offset + length src \<le> unat sz)
             \<and> (ok \<longrightarrow> slot_read (of_nat (length src)) offset i sz g' = Some (Some src))
             \<and> (\<not> ok \<longrightarrow> g' = g)))
       \<and> (slot_write src offset i sz g = None
          \<longleftrightarrow> 2 ^ 64 \<le> unat offset + length src
              \<and> unat offset + length src - 2 ^ 64 \<le> unat sz)"
proof -
  let ?len = "of_nat (length src) :: u64"
  have ul: "unat ?len = length src"
    using assms(3) by (simp add: unat_of_nat)
  have l0: "?len \<noteq> 0"
    using ul assms(4) by (metis length_0_conv unat_0)
  have sm: "unat (offset + ?len) = (unat offset + length src) mod 2 ^ 64"
    by (simp add: unat_word_ariths ul)
  have o64: "unat offset < 2 ^ 64" and s64: "unat sz < 2 ^ 64"
    using unsigned_less [where 'a = nat, of offset] unsigned_less [where 'a = nat, of sz] by simp_all
  show ?thesis
  proof (cases "unat offset + length src < 2 ^ 64")
    case True
    then have e: "unat (offset + ?len) = unat offset + length src"
      using sm by simp
    show ?thesis
      using True assms(1,2) l0 e ul
      by (auto simp: slot_write_def slot_read_def Let_def word_less_nat_alt linorder_not_less)
  next
    case False
    then have e: "unat (offset + ?len) = unat offset + length src - 2 ^ 64"
      using sm o64 assms(3) by (simp add: mod_if)
    show ?thesis
      using False assms(1,2) l0 e s64
      by (auto simp: slot_write_def Let_def word_less_nat_alt linorder_not_less)
  qed
qed

section \<open>Facts about the spin-lock table\<close>

lemma first_free_spinlock_first:
  "first_free_spinlock k ss = Some j \<Longrightarrow>
     k \<le> j \<and> j - k < length ss \<and> owner_pid (ss ! (j - k)) = 0"
proof (induction ss arbitrary: k)
  case Nil
  then show ?case by simp
next
  case (Cons s ss)
  show ?case
  proof (cases "owner_pid s = 0")
    case True
    then show ?thesis
      using Cons.prems by simp
  next
    case False
    then have "Suc k \<le> j \<and> j - Suc k < length ss \<and> owner_pid (ss ! (j - Suc k)) = 0"
      using Cons by simp
    then show ?thesis
      by (auto simp: nth_Cons' Suc_diff_Suc)
  qed
qed

lemma first_free_spinlock_update:
  assumes "first_free_spinlock k ss = Some j" and "owner_pid s = 0"
  shows "first_free_spinlock k (ss[j - k := s]) = Some j"
  using assms(1)
proof (induction ss arbitrary: k)
  case Nil
  then show ?case by simp
next
  case (Cons x ss)
  show ?case
  proof (cases "owner_pid x = 0")
    case True
    then show ?thesis
      using Cons.prems assms(2) by simp
  next
    case False
    then have "first_free_spinlock (Suc k) ss = Some j"
      using Cons.prems by simp
    moreover from this have "Suc k \<le> j"
      using first_free_spinlock_first by blast
    ultimately show ?thesis
      using Cons.IH [of "Suc k"] False by (simp add: Suc_diff_Suc [symmetric])
  qed
qed

text \<open>An allocation from the spin-lock table does not reserve the entry. The marker stored by
  the compare-and-swap is erased by the reset that follows, so the next allocation returns the same
  index again.\<close>

theorem spinlock_allocation_not_reserved:
  assumes "acquire_shared_spinlock h = Some (i, h1)"
  shows "\<exists>h2. acquire_shared_spinlock h1 = Some (i, h2)"
proof -
  have "first_free_spinlock 0 (spinlock_states h) = Some i"
    and "h1 = h\<lparr>spinlock_states := (spinlock_states h)[i := init_spinlock_state]\<rparr>"
    using assms by (auto simp: acquire_shared_spinlock_def split: option.splits)
  then show ?thesis
    using first_free_spinlock_update [of 0 "spinlock_states h" i init_spinlock_state]
    by (simp add: acquire_shared_spinlock_def init_spinlock_state_def)
qed

section \<open>Witnesses\<close>

definition demo_hash :: "bytes \<Rightarrow> bytes" where
  "demo_hash bs = (if bs = [] then [255] else map (\<lambda>b. b + 1) bs @ [255])"

lemma demo_hash_marks: "marks_data demo_hash"
  by (auto simp: marks_data_def demo_hash_def)

definition demo_segment :: segment where
  "demo_segment = \<lparr>seg_layout = empty_layout\<lparr>lay_slot_count := 2, lay_slot_checksum_size := 66,
       lay_slot_stride_bytes := 3\<rparr>,
     seg_header = header_before_magic 0 demo_config demo_layout,
     seg_slots = [free_slot, free_slot],
     seg_checksums = replicate 2 \<lparr>checksum_bytes = zero_hash, cks_is_valid = 0\<rparr>,
     seg_buffers = [[1, 2, 3], [4, 5, 6]], seg_flex = []\<rparr>"

lemmas demo_segment_simps = demo_segment_def empty_layout_def slot_count_value_def

theorem slot_checksum_detects_witness:
  "\<exists>g1. update_checksum_slot_impl demo_hash 1 True demo_segment = (True, g1)
     \<and> fst (verify_checksum_slot_impl demo_hash 1 False g1)
     \<and> \<not> fst (verify_checksum_slot_impl demo_hash 1 False
           (g1\<lparr>seg_buffers := (seg_buffers g1)[1 := [4, 5, 7]]\<rparr>))"
proof -
  have "fst (update_checksum_slot_impl demo_hash 1 True demo_segment)"
    by (simp add: update_checksum_slot_impl_def demo_segment_simps)
  then obtain g1 where g1: "update_checksum_slot_impl demo_hash 1 True demo_segment = (True, g1)"
    by (metis (full_types) eq_fst_iff)
  have "demo_hash [4, 5, 7] \<noteq> demo_hash (seg_buffers demo_segment ! 1)"
    by (simp add: demo_hash_def demo_segment_def)
  with slot_checksum_detects [OF g1 demo_hash_marks, of "[4, 5, 7]" False] g1 show ?thesis
    by (auto simp: demo_segment_def split: prod.splits)
qed

theorem slot_copy_bounds_witness:
  "slot_write [9, 9] (- 1) 0 3 demo_segment = None
   \<and> (\<exists>g'. slot_write [9, 9] 1 0 3 demo_segment = Some (True, g')
        \<and> slot_read 2 1 0 3 g' = Some (Some [9, 9]))"
proof -
  have b: "0 < length (seg_buffers demo_segment)" "length (seg_buffers demo_segment ! 0) = unat (3::u64)"
    by (simp_all add: demo_segment_def)
  have m: "unat (- 1 :: u64) = 2 ^ 64 - 1"
    by (simp add: unsigned_minus_1_eq_mask mask_eq_exp_minus_1)
  have "slot_write [9, 9] (- 1) 0 3 demo_segment = None"
    using slot_copy_bounds [OF b, of "[9, 9]" "- 1"] by (simp add: m)
  moreover have "\<exists>g'. slot_write [9, 9] 1 0 3 demo_segment = Some (True, g')
        \<and> slot_read 2 1 0 3 g' = Some (Some [9, 9])"
    using slot_copy_bounds [OF b, of "[9, 9]" 1] by auto
  ultimately show ?thesis ..
qed

theorem spinlock_allocation_not_reserved_witness:
  "\<exists>h1 h2. acquire_shared_spinlock (seg_header demo_segment) = Some (0, h1)
     \<and> acquire_shared_spinlock h1 = Some (0, h2)"
proof -
  have "\<exists>h1. acquire_shared_spinlock (seg_header demo_segment) = Some (0, h1)"
    by (simp add: acquire_shared_spinlock_def demo_segment_def header_before_magic_def
        MAX_SHARED_SPINLOCKS_def numeral_eq_Suc init_spinlock_state_def)
  then obtain h1 where "acquire_shared_spinlock (seg_header demo_segment) = Some (0, h1)" ..
  with spinlock_allocation_not_reserved [OF this] show ?thesis
    by blast
qed

end
