(* ===== verification/Ring_Buffer.thy ===== *)
theory Ring_Buffer
  imports Shm_Segment
begin

text \<open>
  The ring buffer of \<open>data_block.cpp\<close>: acquisition and release of slots by
  \<open>DataBlockProducer\<close> and \<open>DataBlockConsumer\<close> under the three consumer policies, the table of
  consumer heartbeats with the per-consumer read positions, and the attach of a consumer. The time
  measurements of \<open>ContextMetrics\<close> and the mutexes that serialise the threads of one process are
  left out; the handles are records, and releasing one returns it with its \<open>released\<close> flag set.

  Loops take fuel, as in \<open>Slot_Ops\<close>: \<open>re_step k\<close> is what other processes do to the segment during
  the \<open>k\<close>-th back-off of the surrounding loop, \<open>re_clock k\<close> the monotonic clock in its \<open>k\<close>-th
  iteration, \<open>re_slot\<close> the environment of the inner \<open>acquire_write\<close>, \<open>re_check\<close> and
  \<open>re_register\<close> the interference inside \<open>acquire_read\<close>.
\<close>

section \<open>Clients and handles\<close>

record ring_env =
  re_step :: "nat \<Rightarrow> segment \<Rightarrow> segment"
  re_clock :: "nat \<Rightarrow> u64"
  re_slot :: slot_env
  re_check :: "nat \<Rightarrow> SlotRWState \<Rightarrow> SlotRWState"
  re_register :: "nat \<Rightarrow> SlotRWState \<Rightarrow> SlotRWState"

record DataBlockProducer =
  prod_pid :: pid
  prod_checksum_policy :: ChecksumPolicy

record DataBlockConsumer =
  con_pid :: pid
  con_checksum_policy :: ChecksumPolicy
  last_consumed_slot_id :: u64
  heartbeat_slot :: int
  consumer_uid_buf :: string
  consumer_name_buf :: string
  checksum_errors :: u64

record SlotWriteHandle =
  wh_slot_index :: nat
  wh_slot_id :: u64
  wh_buffer_size :: u64
  wh_bytes_written :: u64
  wh_committed :: bool
  wh_released :: bool

record SlotConsumeHandle =
  ch_slot_index :: nat
  ch_slot_id :: u64
  ch_buffer_size :: u64
  ch_released :: bool
  ch_mark_as_consumed :: bool
  ch_captured_generation :: u64
  ch_heartbeat_slot :: int

section \<open>Producer\<close>

definition upd_header :: "(SharedMemoryHeader \<Rightarrow> SharedMemoryHeader) \<Rightarrow> segment \<Rightarrow> segment" where
  "upd_header f g = g\<lparr>seg_header := f (seg_header g)\<rparr>"

text \<open>The capacity check of the sequential policies; the subtraction of the indices wraps.\<close>

fun wait_for_capacity ::
  "nat \<Rightarrow> nat \<Rightarrow> ring_env \<Rightarrow> u64 \<Rightarrow> int \<Rightarrow> segment \<Rightarrow> (bool \<times> segment) option" where
  "wait_for_capacity 0 k e start timeout_ms g = None"
| "wait_for_capacity (Suc fuel) k e start timeout_ms g =
     (if write_index (seg_header g) - read_index (seg_header g)
           < ucast (lay_slot_count (seg_layout g))
      then Some (True, g)
      else if spin_elapsed_ms_exceeded (re_clock e k) start timeout_ms
        then Some (False, put_header (increment_metric_writer_timeout (Some (seg_header g))) g)
      else wait_for_capacity fuel (Suc k) e start timeout_ms (re_step e k g))"

definition acquire_write_slot ::
  "nat \<Rightarrow> ring_env \<Rightarrow> DataBlockProducer \<Rightarrow> int \<Rightarrow> segment
   \<Rightarrow> (SlotWriteHandle option \<times> segment) option" where
  "acquire_write_slot fuel e p timeout_ms g0 =
     (if slot_count_value g0 = 0 then Some (None, g0)
      else (case (if consumer_sync_policy (hconfig (seg_header g0)) \<in> {Sequential, Sequential_sync}
                  then wait_for_capacity fuel 0 e (re_clock e 0) timeout_ms g0
                  else Some (True, g0)) of
        None \<Rightarrow> None
      | Some (False, g) \<Rightarrow> Some (None, g)
      | Some (True, g) \<Rightarrow>
         (let slot_id = write_index (seg_header g);
              g1 = upd_header (\<lambda>h. h\<lparr>write_index := slot_id + 1\<rparr>) g;
              i = unat (slot_id mod ucast (lay_slot_count (seg_layout g)))
          in case slot_rw_state g1 i of
               None \<Rightarrow> Some (None, g1)
             | Some s \<Rightarrow>
                (case acquire_write fuel (re_slot e) (prod_pid p) timeout_ms True s
                        (Some (seg_header g1)) of
                   None \<Rightarrow> None
                 | Some (r, s', h') \<Rightarrow>
                    (let g2 = put_header h' (put_slot i s' g1) in
                     if r \<noteq> SLOT_ACQUIRE_OK then Some (None, g2)
                     else if lay_slot_stride_bytes (seg_layout g2) = 0
                       then Some (None, put_slot i (s'\<lparr>write_lock := 0\<rparr>) g2)
                     else Some (Some \<lparr>wh_slot_index = i, wh_slot_id = slot_id,
                            wh_buffer_size = lay_slot_stride_bytes (seg_layout g2),
                            wh_bytes_written = 0, wh_committed = False, wh_released = False\<rparr>,
                          g2))))))"

text \<open>\<open>SlotWriteHandle::write\<close> and \<open>commit\<close>.\<close>

definition write_handle_write ::
  "bytes \<Rightarrow> u64 \<Rightarrow> SlotWriteHandle \<Rightarrow> segment \<Rightarrow> (bool \<times> segment) option" where
  "write_handle_write src offset h g = slot_write src offset (wh_slot_index h) (wh_buffer_size h) g"

definition write_handle_commit :: "u64 \<Rightarrow> SlotWriteHandle \<Rightarrow> bool \<times> SlotWriteHandle" where
  "write_handle_commit bytes_written h =
     (if bytes_written > wh_buffer_size h then (False, h)
      else (True, h\<lparr>wh_bytes_written := bytes_written, wh_committed := True\<rparr>))"

text \<open>The checksum step of a release by a producer with the enforced policy.\<close>

definition release_checksums ::
  "(bytes \<Rightarrow> bytes) \<Rightarrow> DataBlockProducer \<Rightarrow> SlotWriteHandle \<Rightarrow> segment \<Rightarrow> bool \<times> segment" where
  "release_checksums blake2b p h g =
     (if wh_committed h \<and> prod_checksum_policy p = ChecksumPolicy_Enforced
         \<and> checksum_type (hconfig (seg_header g)) \<noteq> checksum_type_u8 ChecksumType_Unset
      then (let (ok1, g1) = update_checksum_slot_impl blake2b (wh_slot_index h) True g;
                (ok2, g2) = (if lay_flexible_zone_size (seg_layout g1) > 0
                             then update_checksum_flexible_zone_impl blake2b True g1 else (True, g1))
            in (ok1 \<and> ok2, g2))
      else (True, g))"

definition release_write_handle ::
  "(bytes \<Rightarrow> bytes) \<Rightarrow> u64 \<Rightarrow> DataBlockProducer \<Rightarrow> SlotWriteHandle \<Rightarrow> segment
   \<Rightarrow> bool \<times> SlotWriteHandle \<times> segment" where
  "release_write_handle blake2b now p h g =
     (if wh_released h then (True, h, g)
      else (let (success, g1) = release_checksums blake2b p h g;
                i = wh_slot_index h;
                s = seg_slots g1 ! i;
                g2 = (if wh_committed h
                      then (let (s', hd') = commit_write (wh_slot_id h) s (Some (seg_header g1));
                                g' = put_header hd' g1
                            in upd_header (update_producer_heartbeat_impl now (prod_pid p))
                                 (put_slot i (s'\<lparr>write_lock := 0\<rparr>) g'))
                      else upd_header (\<lambda>hd. hd\<lparr>write_index := write_index hd - 1\<rparr>)
                             (put_slot i (s\<lparr>slot_state := FREE, write_lock := 0\<rparr>) g1))
            in (success, h\<lparr>wh_released := True\<rparr>, g2)))"

section \<open>Consumer: which slot comes next\<close>

definition get_next_slot_to_read :: "SharedMemoryHeader \<Rightarrow> u64 \<Rightarrow> int \<Rightarrow> u64" where
  "get_next_slot_to_read h last_seen hb_slot =
     (if consumer_sync_policy (hconfig h) = Latest_only then
        (if commit_index h = INVALID_SLOT_ID \<or> commit_index h = last_seen then INVALID_SLOT_ID
         else commit_index h)
      else if consumer_sync_policy (hconfig h) = Sequential then
        (if commit_index h = INVALID_SLOT_ID then INVALID_SLOT_ID
         else if commit_index h < read_index h then INVALID_SLOT_ID
         else read_index h)
      else if hb_slot < 0 \<or> hb_slot \<ge> int MAX_CONSUMER_HEARTBEATS then INVALID_SLOT_ID
      else (let next = consumer_next_read_slot h ! nat hb_slot in
            if commit_index h < next then INVALID_SLOT_ID else next))"

section \<open>Consumer: acquisition\<close>

definition make_slot_consume_handle_impl ::
  "DataBlockConsumer \<Rightarrow> segment \<Rightarrow> u64 \<Rightarrow> nat \<Rightarrow> u64 \<Rightarrow> SlotConsumeHandle" where
  "make_slot_consume_handle_impl c g slot_id i gen =
     \<lparr>ch_slot_index = i, ch_slot_id = slot_id,
      ch_buffer_size = lay_slot_stride_bytes (seg_layout g), ch_released = False,
      ch_mark_as_consumed = False, ch_captured_generation = gen,
      ch_heartbeat_slot = (if consumer_sync_policy (hconfig (seg_header g)) = Sequential_sync
                           then heartbeat_slot c else -1)\<rparr>"

text \<open>After a successful \<open>acquire_read\<close>: a segment without slot stride is refused.\<close>

definition finish_consume_acquire ::
  "DataBlockConsumer \<Rightarrow> u64 \<Rightarrow> nat \<Rightarrow> u64 \<Rightarrow> segment \<Rightarrow> SlotConsumeHandle option \<times> segment" where
  "finish_consume_acquire c slot_id i gen g =
     (if lay_slot_stride_bytes (seg_layout g) = 0
      then (let (s, h) = release_read (seg_slots g ! i) (Some (seg_header g))
            in (None, put_header h (put_slot i s g)))
      else (Some (make_slot_consume_handle_impl c g slot_id i gen), g))"

text \<open>The wait of \<open>acquire_consume_slot\<close>: the inner result is the slot id, its index and the
  captured generation. The case that \<open>acquire_read\<close> returns neither OK nor NOT_READY does not
  arise for a non-null slot.\<close>

fun consume_loop ::
  "nat \<Rightarrow> nat \<Rightarrow> ring_env \<Rightarrow> DataBlockConsumer \<Rightarrow> u64 \<Rightarrow> int \<Rightarrow> segment
   \<Rightarrow> ((u64 \<times> nat \<times> u64) option \<times> segment) option" where
  "consume_loop 0 k e c start timeout_ms g = None"
| "consume_loop (Suc fuel) k e c start timeout_ms g =
     (let next = get_next_slot_to_read (seg_header g) (last_consumed_slot_id c) (heartbeat_slot c);
          i = unat (next mod ucast (lay_slot_count (seg_layout g)));
          retry = (\<lambda>g'. if spin_elapsed_ms_exceeded (re_clock e k) start timeout_ms
            then Some (None, put_header (upd_slot_metrics
                   (\<lambda>m. m\<lparr>reader_timeout_count := reader_timeout_count m + 1\<rparr>)
                   (Some (seg_header g'))) g')
            else consume_loop fuel (Suc k) e c start timeout_ms (re_step e k g'))
      in if next = INVALID_SLOT_ID then retry g
         else (case slot_rw_state g i of
             None \<Rightarrow> Some (None, g)
           | Some s \<Rightarrow>
              (case acquire_read (re_check e k) (re_register e k) s (Some (seg_header g)) of
                 (r, gen, s', h') \<Rightarrow>
                   (let g' = put_header h' (put_slot i s' g) in
                    case gen of Some w \<Rightarrow> Some (Some (next, i, w), g') | None \<Rightarrow> retry g'))))"

definition acquire_consume_slot ::
  "nat \<Rightarrow> ring_env \<Rightarrow> DataBlockConsumer \<Rightarrow> int \<Rightarrow> segment
   \<Rightarrow> (SlotConsumeHandle option \<times> segment) option" where
  "acquire_consume_slot fuel e c timeout_ms g =
     (if slot_count_value g = 0 then Some (None, g)
      else if consumer_sync_policy (hconfig (seg_header g)) = Sequential_sync \<and> heartbeat_slot c < 0
        then Some (None, put_header (increment_metric_slot_acquire_errors (Some (seg_header g))) g)
      else (case consume_loop fuel 0 e c (re_clock e 0) timeout_ms g of
          None \<Rightarrow> None
        | Some (None, g1) \<Rightarrow> Some (None, g1)
        | Some (Some (slot_id, i, gen), g1) \<Rightarrow> Some (finish_consume_acquire c slot_id i gen g1)))"

text \<open>The overload that asks for a given slot id: it first waits for \<open>commit_index\<close>.\<close>

fun wait_for_commit ::
  "nat \<Rightarrow> nat \<Rightarrow> ring_env \<Rightarrow> u64 \<Rightarrow> u64 \<Rightarrow> int \<Rightarrow> segment \<Rightarrow> (bool \<times> segment) option" where
  "wait_for_commit 0 k e slot_id start timeout_ms g = None"
| "wait_for_commit (Suc fuel) k e slot_id start timeout_ms g =
     (if \<not> commit_index (seg_header g) < slot_id then Some (True, g)
      else if spin_elapsed_ms_exceeded (re_clock e k) start timeout_ms
        then Some (False, put_header (upd_slot_metrics
               (\<lambda>m. m\<lparr>reader_timeout_count := reader_timeout_count m + 1\<rparr>)
               (Some (seg_header g))) g)
      else wait_for_commit fuel (Suc k) e slot_id start timeout_ms (re_step e k g))"

definition acquire_consume_slot_id ::
  "nat \<Rightarrow> ring_env \<Rightarrow> DataBlockConsumer \<Rightarrow> u64 \<Rightarrow> int \<Rightarrow> segment
   \<Rightarrow> (SlotConsumeHandle option \<times> segment) option" where
  "acquire_consume_slot_id fuel e c slot_id timeout_ms g0 =
     (if slot_count_value g0 = 0 then Some (None, g0)
      else (case wait_for_commit fuel 0 e slot_id (re_clock e 0) timeout_ms g0 of
          None \<Rightarrow> None
        | Some (False, g) \<Rightarrow> Some (None, g)
        | Some (True, g) \<Rightarrow>
           (let i = unat (slot_id mod ucast (lay_slot_count (seg_layout g))) in
            case acquire_read (re_check e 0) (re_register e 0) (seg_slots g ! i)
                   (Some (seg_header g)) of
              (r, gen, s', h') \<Rightarrow>
                (let g' = put_header h' (put_slot i s' g) in
                 case gen of None \<Rightarrow> Some (None, g')
                 | Some w \<Rightarrow> Some (finish_consume_acquire c slot_id i w g')))))"

section \<open>Consumer: release\<close>

definition consume_handle_read ::
  "u64 \<Rightarrow> u64 \<Rightarrow> SlotConsumeHandle \<Rightarrow> segment \<Rightarrow> (bytes option) option" where
  "consume_handle_read len offset h g = slot_read len offset (ch_slot_index h) (ch_buffer_size h) g"

text \<open>The minimum of the read positions of the registered consumers, at most \<open>next\<close>.\<close>

definition sync_min_pos :: "u64 \<Rightarrow> SharedMemoryHeader \<Rightarrow> u64" where
  "sync_min_pos next h = fold (\<lambda>i m.
       if consumer_pid (consumer_heartbeats h ! i) \<noteq> 0
       then (if consumer_next_read_slot h ! i < m then consumer_next_read_slot h ! i else m)
       else m) [0..<MAX_CONSUMER_HEARTBEATS] next"

definition advance_read_position :: "SlotConsumeHandle \<Rightarrow> SharedMemoryHeader \<Rightarrow> SharedMemoryHeader" where
  "advance_read_position ch h =
     (let next = ch_slot_id ch + 1 in
      if consumer_sync_policy (hconfig h) = Sequential then h\<lparr>read_index := next\<rparr>
      else if consumer_sync_policy (hconfig h) = Sequential_sync \<and> ch_heartbeat_slot ch \<ge> 0
              \<and> ch_heartbeat_slot ch < int MAX_CONSUMER_HEARTBEATS
        then (let h1 = h\<lparr>consumer_next_read_slot :=
                     (consumer_next_read_slot h)[nat (ch_heartbeat_slot ch) := next]\<rparr>
              in h1\<lparr>read_index := sync_min_pos next h1\<rparr>)
      else h)"

text \<open>The verification step of a release by a consumer with the enforced policy; the number is how
  many verifications failed.\<close>

definition release_verify ::
  "(bytes \<Rightarrow> bytes) \<Rightarrow> DataBlockConsumer \<Rightarrow> SlotConsumeHandle \<Rightarrow> segment \<Rightarrow> u64 \<times> segment" where
  "release_verify blake2b c ch g =
     (if con_checksum_policy c = ChecksumPolicy_Enforced
         \<and> checksum_type (hconfig (seg_header g)) \<noteq> checksum_type_u8 ChecksumType_Unset
      then (let (ok1, g1) = verify_checksum_slot_impl blake2b (ch_slot_index ch) False g;
                (ok2, g2) = (if lay_flexible_zone_size (seg_layout g1) > 0
                             then verify_checksum_flexible_zone_impl blake2b False g1
                             else (True, g1))
            in ((if ok1 then 0 else 1) + (if ok2 then 0 else 1), g2))
      else (0, g))"

definition release_consume_handle ::
  "(bytes \<Rightarrow> bytes) \<Rightarrow> DataBlockConsumer \<Rightarrow> SlotConsumeHandle \<Rightarrow> segment
   \<Rightarrow> bool \<times> DataBlockConsumer \<times> SlotConsumeHandle \<times> segment" where
  "release_consume_handle blake2b c ch g =
     (if ch_released ch then (True, c, ch, g)
      else (let i = ch_slot_index ch;
                (valid, h1) = validate_read_impl (ch_captured_generation ch) (seg_slots g ! i)
                                (Some (seg_header g));
                g1 = put_header h1 g;
                (errs, g2) = (if valid then release_verify blake2b c ch g1 else (0, g1));
                success = (valid \<and> errs = 0);
                (s, h2) = release_read (seg_slots g2 ! i) (Some (seg_header g2));
                g3 = put_header h2 (put_slot i s g2);
                g4 = (if success then upd_header (advance_read_position ch) g3 else g3);
                c1 = c\<lparr>checksum_errors := checksum_errors c + errs\<rparr>;
                c2 = (if ch_mark_as_consumed ch
                      then c1\<lparr>last_consumed_slot_id := ch_slot_id ch\<rparr> else c1)
            in (success, c2, ch\<lparr>ch_released := True\<rparr>, g4)))"

definition release_consume_slot ::
  "(bytes \<Rightarrow> bytes) \<Rightarrow> DataBlockConsumer \<Rightarrow> SlotConsumeHandle \<Rightarrow> segment
   \<Rightarrow> bool \<times> DataBlockConsumer \<times> SlotConsumeHandle \<times> segment" where
  "release_consume_slot blake2b c ch g =
     release_consume_handle blake2b c (ch\<lparr>ch_mark_as_consumed := True\<rparr>) g"

section \<open>Consumer heartbeats\<close>

fun first_free_heartbeat :: "nat \<Rightarrow> ConsumerHeartbeat list \<Rightarrow> nat option" where
  "first_free_heartbeat k [] = None"
| "first_free_heartbeat k (b # bs) =
     (if consumer_pid b = 0 then Some k else first_free_heartbeat (Suc k) bs)"

definition register_heartbeat ::
  "u64 \<Rightarrow> DataBlockConsumer \<Rightarrow> SharedMemoryHeader \<Rightarrow> int \<times> DataBlockConsumer \<times> SharedMemoryHeader" where
  "register_heartbeat now c h = (case first_free_heartbeat 0 (consumer_heartbeats h) of
       None \<Rightarrow> (-1, c, h)
     | Some i \<Rightarrow> (int i, c\<lparr>heartbeat_slot := int i\<rparr>,
         h\<lparr>consumer_heartbeats := (consumer_heartbeats h)[i :=
               \<lparr>consumer_pid = con_pid c, last_heartbeat_ns = now,
                consumer_uid = consumer_uid_buf c, consumer_name = consumer_name_buf c\<rparr>],
           active_consumer_count := active_consumer_count h + 1\<rparr>))"

definition update_heartbeat :: "u64 \<Rightarrow> int \<Rightarrow> SharedMemoryHeader \<Rightarrow> SharedMemoryHeader" where
  "update_heartbeat now slot h =
     (if slot < 0 \<or> slot \<ge> int MAX_CONSUMER_HEARTBEATS then h
      else h\<lparr>consumer_heartbeats := (consumer_heartbeats h)[nat slot :=
             (consumer_heartbeats h ! nat slot)\<lparr>last_heartbeat_ns := now\<rparr>]\<rparr>)"

definition unregister_heartbeat ::
  "int \<Rightarrow> DataBlockConsumer \<Rightarrow> SharedMemoryHeader \<Rightarrow> DataBlockConsumer \<times> SharedMemoryHeader" where
  "unregister_heartbeat slot c h =
     (if slot < 0 \<or> slot \<ge> int MAX_CONSUMER_HEARTBEATS then (c, h)
      else (let b = consumer_heartbeats h ! nat slot in
            if consumer_pid b = con_pid c
            then (c\<lparr>heartbeat_slot := -1\<rparr>,
                  h\<lparr>consumer_heartbeats := (consumer_heartbeats h)[nat slot :=
                        b\<lparr>consumer_pid := 0, consumer_uid := '''', consumer_name := ''''\<rparr>],
                    active_consumer_count := active_consumer_count h - 1\<rparr>)
            else (c, h)))"

text \<open>\<open>DataBlockProducer::check_consumer_health\<close>, one table entry at a time.\<close>

definition check_one_consumer :: "(pid \<Rightarrow> bool) \<Rightarrow> nat \<Rightarrow> SharedMemoryHeader \<Rightarrow> SharedMemoryHeader" where
  "check_one_consumer is_process_alive i h =
     (let b = consumer_heartbeats h ! i in
      if consumer_pid b \<noteq> 0 \<and> \<not> is_process_alive (consumer_pid b)
      then h\<lparr>consumer_heartbeats := (consumer_heartbeats h)[i := b\<lparr>consumer_pid := 0\<rparr>],
             active_consumer_count := active_consumer_count h - 1\<rparr>
      else h)"

definition check_consumer_health :: "(pid \<Rightarrow> bool) \<Rightarrow> SharedMemoryHeader \<Rightarrow> SharedMemoryHeader" where
  "check_consumer_health is_process_alive h =
     fold (check_one_consumer is_process_alive) [0..<MAX_CONSUMER_HEARTBEATS] h"

text \<open>A consumer that joins a \<open>Sequential_sync\<close> ring starts at the last committed slot.\<close>

definition join_read_position :: "nat \<Rightarrow> SharedMemoryHeader \<Rightarrow> SharedMemoryHeader" where
  "join_read_position i h =
     (if consumer_sync_policy (hconfig h) = Sequential_sync
      then h\<lparr>consumer_next_read_slot := (consumer_next_read_slot h)[i :=
             if commit_index h \<noteq> INVALID_SLOT_ID then commit_index h else 0]\<rparr>
      else h)"

end
