(* ===== verification/Ring_Fifo.thy ===== *)
theory Ring_Fifo
  imports Ring_Buffer
begin

text \<open>
  The ring buffer under the policy \<open>Sequential\<close> delivers exactly once and in order. One producer
  and one consumer work on a segment made by \<open>create_datablock\<close>; each step is one call of an
  operation of \<open>Ring_Buffer\<close>, and the producer's open handle and the consumer's open handle may
  overlap in any way. Calls do not wait (timeout 0): a client that waits is one that calls again.
  The abstract specification is a bounded queue, and the ring refines it.
\<close>

section \<open>What single operations do\<close>

lemma mod_distinct:
  assumes "k < k'" and "k' - k < (n::nat)"
  shows "k mod n \<noteq> k' mod n"
proof
  assume "k mod n = k' mod n"
  then have "n dvd k' - k"
    using assms(1) by (metis less_imp_le mod_eq_dvd_iff_nat)
  then show False
    using assms by (auto dest: dvd_imp_le)
qed

lemma acquire_write_free:
  assumes "write_lock s = 0" and "reader_count s = 0"
  shows "acquire_write (Suc f) e me t dh s h =
    Some (SLOT_ACQUIRE_OK, s\<lparr>write_lock := me, writer_waiting := 0, slot_state := WRITING\<rparr>, h)"
  using assms by (simp add: acquire_write_def enter_draining_def)

lemma wait_for_capacity_poll:
  "wait_for_capacity (Suc f) k e start 0 g =
    (if write_index (seg_header g) - read_index (seg_header g) < ucast (lay_slot_count (seg_layout g))
     then Some (True, g)
     else Some (False, put_header (increment_metric_writer_timeout (Some (seg_header g))) g))"
  by (simp add: spin_elapsed_ms_exceeded_def)

lemma acquire_write_slot_full:
  assumes "slot_count_value g \<noteq> 0" and "consumer_sync_policy (hconfig (seg_header g)) \<in> {Sequential, Sequential_sync}"
    and "\<not> write_index (seg_header g) - read_index (seg_header g)
           < ucast (lay_slot_count (seg_layout g))"
  shows "acquire_write_slot (Suc f) e p 0 g =
    Some (None, put_header (increment_metric_writer_timeout (Some (seg_header g))) g)"
  using assms by (simp add: acquire_write_slot_def wait_for_capacity_poll del: wait_for_capacity.simps)

lemma acquire_write_slot_ok:
  assumes "slot_count_value g \<noteq> 0" and "consumer_sync_policy (hconfig (seg_header g)) \<in> {Sequential, Sequential_sync}"
    and "write_index (seg_header g) - read_index (seg_header g)
           < ucast (lay_slot_count (seg_layout g))"
    and "i = unat (write_index (seg_header g)) mod slot_count_value g"
    and "write_lock (seg_slots g ! i) = 0" and "reader_count (seg_slots g ! i) = 0"
    and "lay_slot_stride_bytes (seg_layout g) \<noteq> 0"
  shows "acquire_write_slot (Suc f) e p 0 g =
    Some (Some \<lparr>wh_slot_index = i, wh_slot_id = write_index (seg_header g),
        wh_buffer_size = lay_slot_stride_bytes (seg_layout g), wh_bytes_written = 0,
        wh_committed = False, wh_released = False\<rparr>,
      g\<lparr>seg_header := (seg_header g)\<lparr>write_index := write_index (seg_header g) + 1\<rparr>,
        seg_slots := (seg_slots g)[i := (seg_slots g ! i)\<lparr>write_lock := prod_pid p,
          writer_waiting := 0, slot_state := WRITING\<rparr>]\<rparr>)"
proof -
  have i: "unat (write_index (seg_header g) mod ucast (lay_slot_count (seg_layout g))) = i"
    using assms(4) by (simp add: unat_mod slot_count_value_def)
  have "i < slot_count_value g"
    using assms(1,4) by simp
  then show ?thesis
    using assms
    by (simp add: acquire_write_slot_def wait_for_capacity_poll upd_header_def i slot_rw_state_def
        slot_count_value_def acquire_write_free put_slot_def put_header_def Let_def
        del: wait_for_capacity.simps)
qed

text \<open>A consumer that polls on a ring nobody disturbs.\<close>

definition calm :: "ring_env \<Rightarrow> bool" where
  "calm e \<longleftrightarrow> (\<forall>k s. re_check e k s = s \<and> re_register e k s = s)"

lemma consume_loop_empty:
  assumes "get_next_slot_to_read (seg_header g) (last_consumed_slot_id c) (heartbeat_slot c)
      = INVALID_SLOT_ID"
  shows "consume_loop (Suc f) k e c start 0 g = Some (None, put_header (upd_slot_metrics
           (\<lambda>m. m\<lparr>reader_timeout_count := reader_timeout_count m + 1\<rparr>) (Some (seg_header g))) g)"
  using assms by (simp add: spin_elapsed_ms_exceeded_def Let_def)

lemma consume_loop_ok:
  assumes "calm e"
    and "get_next_slot_to_read (seg_header g) (last_consumed_slot_id c) (heartbeat_slot c) = next"
    and "next \<noteq> INVALID_SLOT_ID" and "slot_count_value g \<noteq> 0"
    and "i = unat next mod slot_count_value g" and "slot_state (seg_slots g ! i) = COMMITTED"
  shows "consume_loop (Suc f) k e c start 0 g =
    Some (Some (next, i, write_generation (seg_slots g ! i)),
      g\<lparr>seg_slots := (seg_slots g)[i :=
        (seg_slots g ! i)\<lparr>reader_count := reader_count (seg_slots g ! i) + 1\<rparr>]\<rparr>)"
proof -
  have i: "unat (next mod ucast (lay_slot_count (seg_layout g))) = i"
    using assms(5) by (simp add: unat_mod slot_count_value_def)
  have "i < slot_count_value g"
    using assms(4,5) by simp
  then show ?thesis
    using assms
    by (simp add: i slot_rw_state_def acquire_read_def calm_def Let_def put_slot_def put_header_def
        linorder_not_le)
qed

lemma acquire_consume_slot_empty:
  assumes "slot_count_value g \<noteq> 0" and "consumer_sync_policy (hconfig (seg_header g)) = Sequential_sync \<Longrightarrow> 0 \<le> heartbeat_slot c"
    and "get_next_slot_to_read (seg_header g) (last_consumed_slot_id c) (heartbeat_slot c)
      = INVALID_SLOT_ID"
  shows "acquire_consume_slot (Suc f) e c 0 g = Some (None, put_header (upd_slot_metrics
           (\<lambda>m. m\<lparr>reader_timeout_count := reader_timeout_count m + 1\<rparr>) (Some (seg_header g))) g)"
  using assms by (auto simp: acquire_consume_slot_def consume_loop_empty simp del: consume_loop.simps)

lemma acquire_consume_slot_ok:
  assumes "calm e"
    and "consumer_sync_policy (hconfig (seg_header g)) = Sequential_sync \<Longrightarrow> 0 \<le> heartbeat_slot c"
    and "get_next_slot_to_read (seg_header g) (last_consumed_slot_id c) (heartbeat_slot c) = next"
    and "next \<noteq> INVALID_SLOT_ID" and "slot_count_value g \<noteq> 0"
    and "i = unat next mod slot_count_value g" and "slot_state (seg_slots g ! i) = COMMITTED"
    and "lay_slot_stride_bytes (seg_layout g) \<noteq> 0"
  shows "acquire_consume_slot (Suc f) e c 0 g =
    Some (Some (make_slot_consume_handle_impl c g next i (write_generation (seg_slots g ! i))),
      g\<lparr>seg_slots := (seg_slots g)[i :=
        (seg_slots g ! i)\<lparr>reader_count := reader_count (seg_slots g ! i) + 1\<rparr>]\<rparr>)"
  using assms consume_loop_ok [OF assms(1,3,4,5,6,7)]
  by (auto simp: acquire_consume_slot_def finish_consume_acquire_def
      make_slot_consume_handle_impl_def simp del: consume_loop.simps)

section \<open>Runs of one producer and one consumer\<close>

text \<open>\<open>rs_pushed\<close> and \<open>rs_popped\<close> record the payloads of the committed slots and of the
  successfully released reads; no operation looks at them.\<close>

record ring_sys =
  rs_seg :: segment
  rs_consumer :: DataBlockConsumer
  rs_write :: "SlotWriteHandle option"
  rs_read :: "SlotConsumeHandle option"
  rs_pushed :: "bytes list"
  rs_popped :: "bytes list"

text \<open>\<open>ring_step blake2b p\<close>: a call by the producer \<open>p\<close> or the consumer. The index guard of the
  acquisition rules out \<open>2 ^ 64 - 2\<close> acquisitions in one run.\<close>

inductive ring_step :: "(bytes \<Rightarrow> bytes) \<Rightarrow> DataBlockProducer \<Rightarrow> ring_sys \<Rightarrow> ring_sys \<Rightarrow> bool"
  for blake2b :: "bytes \<Rightarrow> bytes" and p :: DataBlockProducer where
  rs_acquire: "rs_write s = None \<Longrightarrow> unat (write_index (seg_header (rs_seg s))) + 2 < 2 ^ 64 \<Longrightarrow>
    acquire_write_slot (Suc f) e p 0 (rs_seg s) = Some (w, g) \<Longrightarrow>
    ring_step blake2b p s (s\<lparr>rs_seg := g, rs_write := w\<rparr>)"
| rs_store: "rs_write s = Some w \<Longrightarrow> write_handle_write src offset w (rs_seg s) = Some (ok, g) \<Longrightarrow>
    ring_step blake2b p s (s\<lparr>rs_seg := g\<rparr>)"
| rs_commit: "rs_write s = Some w \<Longrightarrow> write_handle_commit n w = (ok, w') \<Longrightarrow>
    ring_step blake2b p s (s\<lparr>rs_write := Some w'\<rparr>)"
| rs_release: "rs_write s = Some w \<Longrightarrow>
    release_write_handle blake2b now p w (rs_seg s) = (ok, w', g) \<Longrightarrow>
    ring_step blake2b p s (s\<lparr>rs_seg := g, rs_write := None,
      rs_pushed := (if wh_committed w
         then rs_pushed s @ [seg_buffers (rs_seg s) ! wh_slot_index w] else rs_pushed s)\<rparr>)"
| rs_take: "rs_read s = None \<Longrightarrow> calm e \<Longrightarrow>
    acquire_consume_slot (Suc f) e (rs_consumer s) 0 (rs_seg s) = Some (r, g) \<Longrightarrow>
    ring_step blake2b p s (s\<lparr>rs_seg := g, rs_read := r\<rparr>)"
| rs_give: "rs_read s = Some r \<Longrightarrow>
    release_consume_slot blake2b (rs_consumer s) r (rs_seg s) = (ok, c, r', g) \<Longrightarrow>
    ring_step blake2b p s (s\<lparr>rs_seg := g, rs_consumer := c, rs_read := None,
      rs_popped := (if ok then rs_popped s @ [seg_buffers (rs_seg s) ! ch_slot_index r]
         else rs_popped s)\<rparr>)"

text \<open>A run starts on the segment of a creator with a valid configuration, with a consumer that
  takes its checksum policy from the header as \<open>find_datablock_consumer_impl\<close> does.\<close>

definition ring_init :: "(bytes \<Rightarrow> bytes) \<Rightarrow> DataBlockProducer \<Rightarrow> nat \<Rightarrow> ring_sys \<Rightarrow> bool" where
  "ring_init blake2b p n s \<longleftrightarrow> marks_data blake2b \<and> (\<exists>abi now cfg l h. create_datablock blake2b abi now (prod_pid p) cfg = Inr (l, h)
     \<and> config_fits cfg \<and> cfg_consumer_sync_policy cfg = Sequential
     \<and> unat (cfg_ring_buffer_capacity cfg) = n
     \<and> prod_pid p \<noteq> 0 \<and> prod_checksum_policy p = cfg_checksum_policy cfg
     \<and> con_checksum_policy (rs_consumer s) = cfg_checksum_policy cfg
     \<and> rs_seg s = fresh_segment l h \<and> rs_write s = None \<and> rs_read s = None
     \<and> rs_pushed s = [] \<and> rs_popped s = [])"

section \<open>Invariant\<close>

definition enforced :: "ChecksumPolicy \<Rightarrow> segment \<Rightarrow> bool" where
  "enforced pol g \<longleftrightarrow> pol = ChecksumPolicy_Enforced
     \<and> checksum_type (hconfig (seg_header g)) \<noteq> checksum_type_u8 ChecksumType_Unset"

text \<open>What never changes: sizes, policies and the flexible zone.\<close>

definition ring_static :: "DataBlockProducer \<Rightarrow> nat \<Rightarrow> ring_sys \<Rightarrow> bool" where
  "ring_static p n s \<longleftrightarrow> (let g = rs_seg s in segment_wf g \<and> slot_count_value g = n \<and> 0 < n
     \<and> lay_slot_stride_bytes (seg_layout g) \<noteq> 0 \<and> lay_slot_checksum_size (seg_layout g) \<noteq> 0
     \<and> consumer_sync_policy (hconfig (seg_header g)) = Sequential
     \<and> prod_pid p \<noteq> 0 \<and> con_checksum_policy (rs_consumer s) = prod_checksum_policy p)"

definition open_write :: "ring_sys \<Rightarrow> nat" where
  "open_write s = (if rs_write s = None then 0 else 1)"

definition ring_indices :: "nat \<Rightarrow> ring_sys \<Rightarrow> bool" where
  "ring_indices n s \<longleftrightarrow> (let h = seg_header (rs_seg s); P = length (rs_pushed s); Q = length (rs_popped s) in
       unat (write_index h) = P + open_write s \<and> unat (read_index h) = Q
     \<and> commit_index h = of_nat P - 1 \<and> Q \<le> P \<and> P + open_write s \<le> Q + n
     \<and> P + open_write s < 2 ^ 64 - 1 \<and> rs_popped s = take Q (rs_pushed s))"

definition wslot :: "ring_sys \<Rightarrow> nat option" where
  "wslot s = map_option wh_slot_index (rs_write s)"

definition rslot :: "ring_sys \<Rightarrow> nat option" where
  "rslot s = map_option ch_slot_index (rs_read s)"

definition ring_locks :: "DataBlockProducer \<Rightarrow> nat \<Rightarrow> ring_sys \<Rightarrow> bool" where
  "ring_locks p n s \<longleftrightarrow> (\<forall>j < n. let t = seg_slots (rs_seg s) ! j in
       write_lock t = (if wslot s = Some j then prod_pid p else 0)
     \<and> reader_count t = (if rslot s = Some j then 1 else 0))"

definition ring_data :: "(bytes \<Rightarrow> bytes) \<Rightarrow> DataBlockProducer \<Rightarrow> nat \<Rightarrow> ring_sys \<Rightarrow> bool" where
  "ring_data blake2b p n s \<longleftrightarrow> (let g = rs_seg s in
     (\<forall>k. length (rs_popped s) \<le> k \<and> k < length (rs_pushed s) \<longrightarrow>
        slot_state (seg_slots g ! (k mod n)) = COMMITTED
      \<and> seg_buffers g ! (k mod n) = rs_pushed s ! k
      \<and> (enforced (prod_checksum_policy p) g \<longrightarrow>
           checksum_bytes (seg_checksums g ! (k mod n)) = blake2b (rs_pushed s ! k)))
     \<and> (enforced (prod_checksum_policy p) g \<and> lay_flexible_zone_size (seg_layout g) > 0
          \<and> rs_pushed s \<noteq> [] \<longrightarrow>
        checksum_bytes (flexible_zone_checksums (seg_header g) ! 0) = blake2b (seg_flex g)))"

definition ring_handles :: "nat \<Rightarrow> ring_sys \<Rightarrow> bool" where
  "ring_handles n s \<longleftrightarrow> (let g = rs_seg s; P = length (rs_pushed s); Q = length (rs_popped s) in
     (\<forall>w. rs_write s = Some w \<longrightarrow> wh_slot_id w = of_nat P \<and> wh_slot_index w = P mod n
        \<and> \<not> wh_released w \<and> wh_buffer_size w = lay_slot_stride_bytes (seg_layout g))
   \<and> (\<forall>r. rs_read s = Some r \<longrightarrow> ch_slot_id r = of_nat Q \<and> ch_slot_index r = Q mod n \<and> Q < P
        \<and> \<not> ch_released r \<and> ch_buffer_size r = lay_slot_stride_bytes (seg_layout g)
        \<and> ch_captured_generation r = write_generation (seg_slots g ! (Q mod n))))"

definition ring_inv :: "(bytes \<Rightarrow> bytes) \<Rightarrow> DataBlockProducer \<Rightarrow> nat \<Rightarrow> ring_sys \<Rightarrow> bool" where
  "ring_inv blake2b p n s \<longleftrightarrow> ring_static p n s \<and> ring_indices n s \<and> ring_locks p n s
     \<and> ring_data blake2b p n s \<and> ring_handles n s"

lemma ring_inv_metrics:
  assumes "ring_inv blake2b p n s"
  shows "ring_inv blake2b p n (s\<lparr>rs_seg :=
     put_header (upd_slot_metrics f (Some (seg_header (rs_seg s)))) (rs_seg s)\<rparr>)"
    (is "ring_inv _ _ _ ?t")
proof -
  note fields = put_header_def upd_slot_metrics_def
  have "ring_static p n ?t = ring_static p n s"
    by (simp add: ring_static_def fields segment_wf_def slot_count_value_def Let_def)
  moreover have "ring_indices n ?t = ring_indices n s"
    by (simp add: ring_indices_def open_write_def fields Let_def)
  moreover have "ring_locks p n ?t = ring_locks p n s"
    by (simp add: ring_locks_def wslot_def rslot_def fields)
  moreover have "ring_data blake2b p n ?t = ring_data blake2b p n s"
    by (simp add: ring_data_def enforced_def fields Let_def)
  moreover have "ring_handles n ?t = ring_handles n s"
    by (simp add: ring_handles_def fields Let_def)
  ultimately show ?thesis
    using assms by (simp add: ring_inv_def)
qed

lemma ring_invD:
  assumes "ring_inv blake2b p n s"
  defines "g \<equiv> rs_seg s" and "h \<equiv> seg_header (rs_seg s)" and "P \<equiv> length (rs_pushed s)"
    and "Q \<equiv> length (rs_popped s)"
  shows "segment_wf g" and "slot_count_value g = n" and "0 < n"
    and "lay_slot_stride_bytes (seg_layout g) \<noteq> 0" and "lay_slot_checksum_size (seg_layout g) \<noteq> 0"
    and "consumer_sync_policy (hconfig h) = Sequential" and "prod_pid p \<noteq> 0"
    and "con_checksum_policy (rs_consumer s) = prod_checksum_policy p"
    and "unat (write_index h) = P + open_write s" and "unat (read_index h) = Q"
    and "commit_index h = of_nat P - 1" and "Q \<le> P" and "P + open_write s \<le> Q + n"
    and "P + open_write s < 2 ^ 64 - 1" and "rs_popped s = take Q (rs_pushed s)"
    and "j < n \<Longrightarrow> write_lock (seg_slots g ! j) = (if wslot s = Some j then prod_pid p else 0)"
    and "j < n \<Longrightarrow> reader_count (seg_slots g ! j) = (if rslot s = Some j then 1 else 0)"
    and "Q \<le> k \<Longrightarrow> k < P \<Longrightarrow> slot_state (seg_slots g ! (k mod n)) = COMMITTED"
    and "Q \<le> k \<Longrightarrow> k < P \<Longrightarrow> seg_buffers g ! (k mod n) = rs_pushed s ! k"
    and "Q \<le> k \<Longrightarrow> k < P \<Longrightarrow> enforced (prod_checksum_policy p) g \<Longrightarrow>
           checksum_bytes (seg_checksums g ! (k mod n)) = blake2b (rs_pushed s ! k)"
    and "enforced (prod_checksum_policy p) g \<Longrightarrow> lay_flexible_zone_size (seg_layout g) > 0 \<Longrightarrow>
           rs_pushed s \<noteq> [] \<Longrightarrow>
           checksum_bytes (flexible_zone_checksums h ! 0) = blake2b (seg_flex g)"
    and "rs_write s = Some w \<Longrightarrow> wh_slot_id w = of_nat P \<and> wh_slot_index w = P mod n
        \<and> \<not> wh_released w \<and> wh_buffer_size w = lay_slot_stride_bytes (seg_layout g)"
    and "rs_read s = Some r \<Longrightarrow> ch_slot_id r = of_nat Q \<and> ch_slot_index r = Q mod n \<and> Q < P
        \<and> \<not> ch_released r \<and> ch_buffer_size r = lay_slot_stride_bytes (seg_layout g)
        \<and> ch_captured_generation r = write_generation (seg_slots g ! (Q mod n))"
  using assms(1) unfolding ring_inv_def ring_static_def ring_indices_def ring_locks_def
    ring_data_def ring_handles_def g_def h_def P_def Q_def Let_def by blast+

lemma nth_pushed_mod_distinct:
  assumes "ring_inv blake2b p n s" and "length (rs_popped s) \<le> k" and "k < length (rs_pushed s)"
    and "rs_write s \<noteq> None \<or> length (rs_pushed s) < length (rs_popped s) + n"
  shows "k mod n \<noteq> length (rs_pushed s) mod n"
  using assms ring_invD(13) [OF assms(1)] by (intro mod_distinct) (auto simp: open_write_def split: if_splits)

lemma ring_acquire_inv:
  assumes inv: "ring_inv blake2b p n s" and w: "rs_write s = None"
    and lim: "unat (write_index (seg_header (rs_seg s))) + 2 < 2 ^ 64"
    and cap: "length (rs_pushed s) < length (rs_popped s) + n"
    and i: "i = length (rs_pushed s) mod n"
    and h: "wh_slot_id h = of_nat (length (rs_pushed s))" "wh_slot_index h = i" "\<not> wh_released h"
      "wh_buffer_size h = lay_slot_stride_bytes (seg_layout (rs_seg s))"
  shows "ring_inv blake2b p n (s\<lparr>rs_seg := (rs_seg s)\<lparr>seg_header := (seg_header (rs_seg s))
        \<lparr>write_index := write_index (seg_header (rs_seg s)) + 1\<rparr>,
        seg_slots := (seg_slots (rs_seg s))[i := (seg_slots (rs_seg s) ! i)\<lparr>write_lock := prod_pid p,
          writer_waiting := 0, slot_state := WRITING\<rparr>]\<rparr>, rs_write := Some h\<rparr>)"
    (is "ring_inv _ _ _ ?t")
proof -
  note D = ring_invD [OF inv]
  have len: "length (seg_slots (rs_seg s)) = n"
    using D(1,2) by (simp add: segment_wf_def)
  have ne: "k mod n \<noteq> i" if "length (rs_popped s) \<le> k" "k < length (rs_pushed s)" for k
    using nth_pushed_mod_distinct [OF inv that] cap i by simp
  have rd: "rslot s \<noteq> Some i"
    using D(23) ne [of "length (rs_popped s)"] by (auto simp: rslot_def)
  have "ring_static p n ?t"
    using inv by (simp add: ring_inv_def ring_static_def segment_wf_def slot_count_value_def Let_def)
  moreover have "ring_indices n ?t"
    using D(9-15) w cap lim by (simp add: ring_indices_def open_write_def Let_def unat_inc_no_wrap)
  moreover have "ring_locks p n ?t"
    using D(16,17) w h(2) rd D(3) len
    by (auto simp: ring_locks_def wslot_def rslot_def nth_list_update)
  moreover have keep: "(seg_slots (rs_seg s))[i := x] ! (k mod n) = seg_slots (rs_seg s) ! (k mod n)"
    if "length (rs_popped s) \<le> k" "k < length (rs_pushed s)" for k x
    using ne [OF that] by simp
  moreover have "ring_data blake2b p n ?t"
    using D(18-21) keep by (simp add: ring_data_def enforced_def Let_def)
  moreover have "ring_handles n ?t"
    using D(23) h i keep by (auto simp: ring_handles_def Let_def)
  ultimately show ?thesis
    by (simp add: ring_inv_def)
qed

text \<open>The release of a committed write: what it leaves of the segment.\<close>

definition hdr_same :: "SharedMemoryHeader \<Rightarrow> SharedMemoryHeader \<Rightarrow> bool" where
  "hdr_same h h' \<longleftrightarrow> hconfig h' = hconfig h \<and> write_index h' = write_index h
     \<and> read_index h' = read_index h \<and> commit_index h' = commit_index h
     \<and> consumer_heartbeats h' = consumer_heartbeats h
     \<and> consumer_next_read_slot h' = consumer_next_read_slot h
     \<and> spinlock_states h' = spinlock_states h
     \<and> length (flexible_zone_checksums h') = length (flexible_zone_checksums h)"

lemma release_checksums_effect:
  assumes "release_checksums blake2b p w g = (ok, g')" and "wh_slot_index w < slot_count_value g"
    and "lay_slot_checksum_size (seg_layout g) \<noteq> 0" and "segment_wf g"
  shows "ok" and "seg_layout g' = seg_layout g" and "seg_slots g' = seg_slots g"
    and "seg_buffers g' = seg_buffers g" and "seg_flex g' = seg_flex g"
    and "hdr_same (seg_header g) (seg_header g')"
    and "length (seg_checksums g') = length (seg_checksums g)"
    and "j \<noteq> wh_slot_index w \<Longrightarrow> seg_checksums g' ! j = seg_checksums g ! j"
    and "wh_committed w \<Longrightarrow> enforced (prod_checksum_policy p) g \<Longrightarrow>
      checksum_bytes (seg_checksums g' ! wh_slot_index w) = blake2b (seg_buffers g ! wh_slot_index w)"
    and "wh_committed w \<Longrightarrow> enforced (prod_checksum_policy p) g \<Longrightarrow>
      lay_flexible_zone_size (seg_layout g) > 0 \<Longrightarrow>
      checksum_bytes (flexible_zone_checksums (seg_header g') ! 0) = blake2b (seg_flex g)"
    and "\<not> wh_committed w \<Longrightarrow> g' = g"
  using assms
  by (auto simp: release_checksums_def update_checksum_slot_impl_def enforced_def
      update_checksum_flexible_zone_impl_def hdr_same_def segment_wf_def slot_count_value_def
      MAX_FLEXIBLE_ZONE_CHECKSUMS_def split: if_splits prod.splits)

lemma release_write_handle_discard:
  assumes "release_write_handle blake2b now p w g = (ok, w', g')" and "\<not> wh_released w"
    and "\<not> wh_committed w"
  shows "g' = g\<lparr>seg_header := (seg_header g)\<lparr>write_index := write_index (seg_header g) - 1\<rparr>,
     seg_slots := (seg_slots g)[wh_slot_index w :=
       (seg_slots g ! wh_slot_index w)\<lparr>slot_state := FREE, write_lock := 0\<rparr>]\<rparr>"
  using assms by (auto simp: release_write_handle_def release_checksums_def upd_header_def put_slot_def Let_def)

lemma release_write_handle_commit:
  assumes "release_write_handle blake2b now p w g = (ok, w', g')" and "\<not> wh_released w"
    and "wh_committed w" and "wh_slot_index w < slot_count_value g"
    and "lay_slot_checksum_size (seg_layout g) \<noteq> 0" and "segment_wf g"
  shows "ok" and "seg_layout g' = seg_layout g" and "seg_buffers g' = seg_buffers g"
    and "seg_flex g' = seg_flex g"
    and "hdr_same ((seg_header g)\<lparr>commit_index := wh_slot_id w\<rparr>) (seg_header g')"
    and "length (seg_checksums g') = length (seg_checksums g)"
    and "j \<noteq> wh_slot_index w \<Longrightarrow> seg_checksums g' ! j = seg_checksums g ! j"
    and "enforced (prod_checksum_policy p) g \<Longrightarrow>
      checksum_bytes (seg_checksums g' ! wh_slot_index w) = blake2b (seg_buffers g ! wh_slot_index w)"
    and "enforced (prod_checksum_policy p) g \<Longrightarrow> lay_flexible_zone_size (seg_layout g) > 0 \<Longrightarrow>
      checksum_bytes (flexible_zone_checksums (seg_header g') ! 0) = blake2b (seg_flex g)"
    and "seg_slots g' = (seg_slots g)[wh_slot_index w := (seg_slots g ! wh_slot_index w)
       \<lparr>write_generation := write_generation (seg_slots g ! wh_slot_index w) + 1,
        slot_state := COMMITTED, write_lock := 0\<rparr>]"
proof -
  obtain ok1 g1 where r: "release_checksums blake2b p w g = (ok1, g1)"
    by fastforce
  note E = release_checksums_effect [OF r assms(4,5,6)]
  have g': "ok = ok1" "g' = upd_header (update_producer_heartbeat_impl now (prod_pid p))
     (put_slot (wh_slot_index w) ((fst (commit_write (wh_slot_id w) (seg_slots g1 ! wh_slot_index w)
        (Some (seg_header g1))))\<lparr>write_lock := 0\<rparr>)
     (put_header (snd (commit_write (wh_slot_id w) (seg_slots g1 ! wh_slot_index w)
        (Some (seg_header g1)))) g1))"
    using assms(1,2,3) r
    by (auto simp: release_write_handle_def Let_def split: prod.splits)
  note fields = g'(2) upd_header_def put_slot_def put_header_def commit_write_def
    update_producer_heartbeat_impl_def increment_metric_total_commits_def update_commit_index_def
  show ok "seg_layout g' = seg_layout g" "seg_buffers g' = seg_buffers g" "seg_flex g' = seg_flex g"
    "length (seg_checksums g') = length (seg_checksums g)"
    using E(1,2,4,5,7) by (simp_all add: g'(1) fields)
  show "hdr_same ((seg_header g)\<lparr>commit_index := wh_slot_id w\<rparr>) (seg_header g')"
    using E(6) by (simp add: fields hdr_same_def)
  show "j \<noteq> wh_slot_index w \<Longrightarrow> seg_checksums g' ! j = seg_checksums g ! j"
    using E(8) by (simp add: fields)
  show "enforced (prod_checksum_policy p) g \<Longrightarrow>
      checksum_bytes (seg_checksums g' ! wh_slot_index w) = blake2b (seg_buffers g ! wh_slot_index w)"
    using E(9) assms(3) by (simp add: fields)
  show "enforced (prod_checksum_policy p) g \<Longrightarrow> lay_flexible_zone_size (seg_layout g) > 0 \<Longrightarrow>
      checksum_bytes (flexible_zone_checksums (seg_header g') ! 0) = blake2b (seg_flex g)"
    using E(10) assms(3) by (simp add: fields)
  show "seg_slots g' = (seg_slots g)[wh_slot_index w := (seg_slots g ! wh_slot_index w)
       \<lparr>write_generation := write_generation (seg_slots g ! wh_slot_index w) + 1,
        slot_state := COMMITTED, write_lock := 0\<rparr>]"
    using E(3) by (simp add: fields)
qed

lemma ring_discard_inv:
  assumes inv: "ring_inv blake2b p n s" and w: "rs_write s = Some w" and nc: "\<not> wh_committed w"
    and r: "release_write_handle blake2b now p w (rs_seg s) = (ok, w', g)"
  shows "ring_inv blake2b p n (s\<lparr>rs_seg := g, rs_write := None\<rparr>)" (is "ring_inv _ _ _ ?t")
proof -
  note D = ring_invD [OF inv]
  have wi: "wh_slot_index w = length (rs_pushed s) mod n" and nr: "\<not> wh_released w"
    using D(22) [OF w] by auto
  have g: "g = (rs_seg s)\<lparr>seg_header := (seg_header (rs_seg s))
        \<lparr>write_index := write_index (seg_header (rs_seg s)) - 1\<rparr>,
     seg_slots := (seg_slots (rs_seg s))[wh_slot_index w :=
       (seg_slots (rs_seg s) ! wh_slot_index w)\<lparr>slot_state := FREE, write_lock := 0\<rparr>]\<rparr>"
    by (rule release_write_handle_discard [OF r nr nc])
  have len: "length (seg_slots (rs_seg s)) = n"
    using D(1,2) by (simp add: segment_wf_def)
  have keep: "(seg_slots (rs_seg s))[wh_slot_index w := x] ! (k mod n) = seg_slots (rs_seg s) ! (k mod n)"
    if "length (rs_popped s) \<le> k" "k < length (rs_pushed s)" for k x
    using nth_pushed_mod_distinct [OF inv that] w wi by simp
  have "ring_static p n ?t"
    using inv by (simp add: ring_inv_def ring_static_def segment_wf_def slot_count_value_def g Let_def)
  moreover have "ring_indices n ?t"
  proof -
    have ow: "open_write s = 1"
      using w by (simp add: open_write_def)
    then have "(1::u64) \<le> write_index (seg_header (rs_seg s))"
      using D(9) by (simp add: word_le_nat_alt)
    then have "unat (write_index (seg_header (rs_seg s)) - 1) = length (rs_pushed s)"
      using D(9) ow by (simp add: unat_sub)
    then show ?thesis
      using D(9-15) ow by (simp add: ring_indices_def open_write_def g Let_def)
  qed
  moreover have "ring_locks p n ?t"
    unfolding ring_locks_def Let_def
  proof (intro allI impI)
    fix j assume "j < n"
    then show "write_lock (seg_slots (rs_seg ?t) ! j) = (if wslot ?t = Some j then prod_pid p else 0)
      \<and> reader_count (seg_slots (rs_seg ?t) ! j) = (if rslot ?t = Some j then 1 else 0)"
      using D(16,17) [of j] w len by (cases "j = wh_slot_index w") (auto simp: wslot_def rslot_def g)
  qed
  moreover have "ring_data blake2b p n ?t"
    using D(18-21) keep by (simp add: ring_data_def enforced_def g Let_def)
  moreover have "ring_handles n ?t"
    using D(23) keep by (auto simp: ring_handles_def g Let_def)
  ultimately show ?thesis
    by (simp add: ring_inv_def)
qed

lemma ring_commit_inv:
  assumes inv: "ring_inv blake2b p n s" and w: "rs_write s = Some w" and c: "wh_committed w"
    and r: "release_write_handle blake2b now p w (rs_seg s) = (ok, w', g)"
  shows "ring_inv blake2b p n (s\<lparr>rs_seg := g, rs_write := None,
      rs_pushed := rs_pushed s @ [seg_buffers (rs_seg s) ! wh_slot_index w]\<rparr>)"
    (is "ring_inv _ _ _ ?t")
proof -
  note D = ring_invD [OF inv]
  have wi: "wh_slot_index w = length (rs_pushed s) mod n" and nr: "\<not> wh_released w"
    and id: "wh_slot_id w = of_nat (length (rs_pushed s))"
    using D(22) [OF w] by auto
  have lt: "wh_slot_index w < slot_count_value (rs_seg s)"
    using wi D(2,3) by simp
  note E = release_write_handle_commit [OF r nr c lt D(5,1)]
  have H: "hconfig (seg_header g) = hconfig (seg_header (rs_seg s))"
    "write_index (seg_header g) = write_index (seg_header (rs_seg s))"
    "read_index (seg_header g) = read_index (seg_header (rs_seg s))"
    "commit_index (seg_header g) = wh_slot_id w"
    using E(5) by (simp_all add: hdr_same_def)
  have len: "length (seg_slots (rs_seg s)) = n" "slot_count_value g = n"
    using D(1,2) E(2) by (simp_all add: segment_wf_def slot_count_value_def)
  have ow: "open_write s = 1"
    using w by (simp add: open_write_def)
  have ne: "k mod n \<noteq> wh_slot_index w"
    if "length (rs_popped s) \<le> k" "k < length (rs_pushed s)" for k
    using nth_pushed_mod_distinct [OF inv that] w wi by simp
  have enf: "enforced pol g = enforced pol (rs_seg s)" for pol
    using H(1) by (simp add: enforced_def)
  have "ring_static p n ?t"
    using D(1-8) E(2-6) len H by (simp add: ring_static_def segment_wf_def hdr_same_def E(10) Let_def)
  moreover have "ring_indices n ?t"
    using D(9-15) ow by (simp add: ring_indices_def open_write_def H id Let_def)
  moreover have "ring_locks p n ?t"
    unfolding ring_locks_def Let_def
  proof (intro allI impI)
    fix j assume "j < n"
    then show "write_lock (seg_slots (rs_seg ?t) ! j) = (if wslot ?t = Some j then prod_pid p else 0)
      \<and> reader_count (seg_slots (rs_seg ?t) ! j) = (if rslot ?t = Some j then 1 else 0)"
      using D(16,17) [of j] w len by (cases "j = wh_slot_index w") (auto simp: wslot_def rslot_def E(10))
  qed
  moreover have "ring_data blake2b p n ?t"
    unfolding ring_data_def Let_def
  proof (intro conjI allI impI)
    fix k assume k: "length (rs_popped ?t) \<le> k \<and> k < length (rs_pushed ?t)"
    then have cases: "k < length (rs_pushed s) \<or> k = length (rs_pushed s)"
      by auto
    show "slot_state (seg_slots (rs_seg ?t) ! (k mod n)) = COMMITTED"
      using cases D(18) ne k len lt D(2) by (auto simp: E(10) wi nth_list_update)
    show "seg_buffers (rs_seg ?t) ! (k mod n) = rs_pushed ?t ! k"
      using cases D(19) k by (auto simp: E(3) wi nth_append)
    show "checksum_bytes (seg_checksums (rs_seg ?t) ! (k mod n)) = blake2b (rs_pushed ?t ! k)"
      if "enforced (prod_checksum_policy p) (rs_seg ?t)"
      using cases D(20) k E(7) [of "k mod n"] E(8) ne that
      by (auto simp: wi nth_append enf)
  next
    assume "enforced (prod_checksum_policy p) (rs_seg ?t)
      \<and> lay_flexible_zone_size (seg_layout (rs_seg ?t)) > 0 \<and> rs_pushed ?t \<noteq> []"
    then show "checksum_bytes (flexible_zone_checksums (seg_header (rs_seg ?t)) ! 0)
        = blake2b (seg_flex (rs_seg ?t))"
      using E(9,2,4) by (simp add: enf)
  qed
  moreover have "ring_handles n ?t"
  proof -
    have "seg_slots g ! (length (rs_popped s) mod n) = seg_slots (rs_seg s) ! (length (rs_popped s) mod n)"
      if "length (rs_popped s) < length (rs_pushed s)"
      using ne [of "length (rs_popped s)"] that by (simp add: E(10))
    then show ?thesis
      using D(23) E(2) by (auto simp: ring_handles_def Let_def)
  qed
  ultimately show ?thesis
    by (simp add: ring_inv_def)
qed

lemma ring_store_inv:
  assumes inv: "ring_inv blake2b p n s" and w: "rs_write s = Some w"
    and r: "write_handle_write src offset w (rs_seg s) = Some (ok, g)"
  shows "ring_inv blake2b p n (s\<lparr>rs_seg := g\<rparr>)"
proof -
  note D = ring_invD [OF inv]
  have wi: "wh_slot_index w = length (rs_pushed s) mod n"
    using D(22) [OF w] by auto
  obtain b where g: "g = (rs_seg s)\<lparr>seg_buffers := (seg_buffers (rs_seg s))[wh_slot_index w := b]\<rparr>"
    and lb: "length b = length (seg_buffers (rs_seg s) ! wh_slot_index w)"
  proof (cases "g = rs_seg s")
    case True
    then show ?thesis
      using that [of "seg_buffers (rs_seg s) ! wh_slot_index w"] by simp
  next
    case False
    let ?b = "seg_buffers (rs_seg s) ! wh_slot_index w"
    have "g = (rs_seg s)\<lparr>seg_buffers := (seg_buffers (rs_seg s))[wh_slot_index w :=
        take (unat offset) ?b @ src @ drop (unat offset + length src) ?b]\<rparr>"
      and "unat offset + length src \<le> length ?b"
      using r False by (auto simp: write_handle_write_def slot_write_def Let_def split: if_splits)
    then show ?thesis
      using that by simp
  qed
  have keep: "(seg_buffers (rs_seg s))[wh_slot_index w := x] ! (k mod n) = seg_buffers (rs_seg s) ! (k mod n)"
    if "length (rs_popped s) \<le> k" "k < length (rs_pushed s)" for k x
    using nth_pushed_mod_distinct [OF inv that] w wi by simp
  have wf: "segment_wf g"
  proof -
    let ?L = "unat (lay_slot_stride_bytes (seg_layout (rs_seg s)))"
    have all: "\<forall>x \<in> set (seg_buffers (rs_seg s)). length x = ?L"
      and "wh_slot_index w < length (seg_buffers (rs_seg s))"
      using D(1,2,3) wi by (simp_all add: segment_wf_def)
    then have "length b = ?L"
      using lb by simp
    with all have "\<forall>x \<in> insert b (set (seg_buffers (rs_seg s))). length x = ?L"
      by simp
    then have "\<forall>x \<in> set ((seg_buffers (rs_seg s))[wh_slot_index w := b]). length x = ?L"
      by (meson set_update_subset_insert subsetD)
    then show ?thesis
      using D(1) by (simp add: segment_wf_def slot_count_value_def g)
  qed
  have "ring_static p n (s\<lparr>rs_seg := g\<rparr>)"
    using D(2-8) wf by (simp add: ring_static_def slot_count_value_def g Let_def)
  moreover have "ring_indices n (s\<lparr>rs_seg := g\<rparr>) = ring_indices n s"
    by (simp add: ring_indices_def open_write_def g Let_def)
  moreover have "ring_locks p n (s\<lparr>rs_seg := g\<rparr>) = ring_locks p n s"
    by (simp add: ring_locks_def wslot_def rslot_def g)
  moreover have "ring_handles n (s\<lparr>rs_seg := g\<rparr>) = ring_handles n s"
    by (simp add: ring_handles_def g Let_def)
  moreover have "ring_data blake2b p n (s\<lparr>rs_seg := g\<rparr>)"
    using D(18-21) keep by (simp add: ring_data_def enforced_def g Let_def)
  ultimately show ?thesis
    using inv by (simp add: ring_inv_def)
qed

text \<open>The consumer's side: registering and unregistering on the oldest unread slot.\<close>

lemma ring_take_inv:
  assumes inv: "ring_inv blake2b p n s" and r: "rs_read s = None"
    and av: "length (rs_popped s) < length (rs_pushed s)"
    and i: "i = length (rs_popped s) mod n"
    and h: "ch_slot_id ch = of_nat (length (rs_popped s))" "ch_slot_index ch = i" "\<not> ch_released ch"
      "ch_buffer_size ch = lay_slot_stride_bytes (seg_layout (rs_seg s))"
      "ch_captured_generation ch = write_generation (seg_slots (rs_seg s) ! i)"
  shows "ring_inv blake2b p n (s\<lparr>rs_seg := (rs_seg s)\<lparr>seg_slots := (seg_slots (rs_seg s))[i :=
        (seg_slots (rs_seg s) ! i)\<lparr>reader_count := reader_count (seg_slots (rs_seg s) ! i) + 1\<rparr>]\<rparr>,
      rs_read := Some ch\<rparr>)"
    (is "ring_inv _ _ _ ?t")
proof -
  note D = ring_invD [OF inv]
  have len: "length (seg_slots (rs_seg s)) = n"
    using D(1,2) by (simp add: segment_wf_def)
  have i_lt: "i < n"
    using i D(3) by simp
  have "ring_static p n ?t"
    using inv by (simp add: ring_inv_def ring_static_def segment_wf_def slot_count_value_def Let_def)
  moreover have "ring_indices n ?t"
    using inv by (simp add: ring_inv_def ring_indices_def open_write_def Let_def)
  moreover have "ring_locks p n ?t"
    unfolding ring_locks_def Let_def
  proof (intro allI impI)
    fix j assume "j < n"
    then show "write_lock (seg_slots (rs_seg ?t) ! j) = (if wslot ?t = Some j then prod_pid p else 0)
      \<and> reader_count (seg_slots (rs_seg ?t) ! j) = (if rslot ?t = Some j then 1 else 0)"
      using D(16,17) [of j] r len h(2) by (cases "j = i") (auto simp: wslot_def rslot_def)
  qed
  moreover have "ring_data blake2b p n ?t"
    using D(18-21) by (simp add: ring_data_def enforced_def list_update_proj [where f = slot_state] Let_def)
  moreover have "ring_handles n ?t"
    using D(22) h i av by (simp add: ring_handles_def list_update_proj [where f = write_generation] Let_def)
  ultimately show ?thesis
    by (simp add: ring_inv_def)
qed

lemma release_verify_ok:
  assumes "marks_data blake2b" and "ch_slot_index ch < slot_count_value g"
    and "lay_slot_checksum_size (seg_layout g) \<noteq> 0"
    and "enforced (con_checksum_policy c) g \<Longrightarrow>
      checksum_bytes (seg_checksums g ! ch_slot_index ch) = blake2b (seg_buffers g ! ch_slot_index ch)"
    and "enforced (con_checksum_policy c) g \<Longrightarrow> lay_flexible_zone_size (seg_layout g) > 0 \<Longrightarrow>
      checksum_bytes (flexible_zone_checksums (seg_header g) ! 0) = blake2b (seg_flex g)"
  shows "fst (release_verify blake2b c ch g) = 0"
  using assms
  by (auto simp: release_verify_def enforced_def verify_checksum_slot_impl_def marks_data_def
      verify_checksum_flexible_zone_impl_def Let_def slot_count_value_def split: if_splits)

lemma release_verify_frame:
  assumes "release_verify blake2b c ch g = (e, g')"
  shows "seg_layout g' = seg_layout g" and "seg_slots g' = seg_slots g"
    and "seg_buffers g' = seg_buffers g" and "seg_flex g' = seg_flex g"
    and "hdr_same (seg_header g) (seg_header g')"
    and "length (seg_checksums g') = length (seg_checksums g)"
    and "checksum_bytes (seg_checksums g' ! j) = checksum_bytes (seg_checksums g ! j)"
    and "checksum_bytes (flexible_zone_checksums (seg_header g') ! j)
      = checksum_bytes (flexible_zone_checksums (seg_header g) ! j)"
  using assms
  by (auto simp: release_verify_def verify_checksum_slot_impl_def hdr_same_def
      verify_checksum_flexible_zone_impl_def Let_def list_update_proj [where f = checksum_bytes]
      split: if_splits prod.splits)

lemma put_header_same: "put_header (Some (seg_header g)) g = g"
  by (simp add: put_header_def)

lemma release_consume_handle_effect:
  assumes "release_consume_handle blake2b c ch g = (ok, c', ch', g')" and "\<not> ch_released ch"
    and "ch_captured_generation ch = write_generation (seg_slots g ! ch_slot_index ch)"
    and "fst (release_verify blake2b c ch g) = 0"
    and "consumer_sync_policy (hconfig (seg_header g)) = Sequential"
  shows "ok" and "con_checksum_policy c' = con_checksum_policy c"
    and "seg_layout g' = seg_layout g" and "seg_buffers g' = seg_buffers g" and "seg_flex g' = seg_flex g"
    and "seg_slots g' = (seg_slots g)[ch_slot_index ch := (seg_slots g ! ch_slot_index ch)
      \<lparr>reader_count := reader_count (seg_slots g ! ch_slot_index ch) - 1\<rparr>]"
    and "hdr_same ((seg_header g)\<lparr>read_index := ch_slot_id ch + 1\<rparr>) (seg_header g')"
    and "length (seg_checksums g') = length (seg_checksums g)"
    and "checksum_bytes (seg_checksums g' ! j) = checksum_bytes (seg_checksums g ! j)"
    and "checksum_bytes (flexible_zone_checksums (seg_header g') ! j)
      = checksum_bytes (flexible_zone_checksums (seg_header g) ! j)"
proof -
  obtain g2 where v: "release_verify blake2b c ch g = (0, g2)"
    using assms(4) by (metis prod.collapse)
  note V = release_verify_frame [OF v]
  have pol: "consumer_sync_policy (hconfig (seg_header g2)) = Sequential"
    using V(5) assms(5) by (simp add: hdr_same_def)
  have val: "validate_read_impl (ch_captured_generation ch) (seg_slots g ! ch_slot_index ch)
      (Some (seg_header g)) = (True, Some (seg_header g))"
    using assms(3) by (simp add: validate_read_impl_def)
  have R: "ok" "con_checksum_policy c' = con_checksum_policy c"
    "g' = upd_header (advance_read_position ch) (put_header (update_reader_peak_count
       (reader_count (seg_slots g ! ch_slot_index ch)) (Some (seg_header g2)))
       (put_slot (ch_slot_index ch) ((seg_slots g ! ch_slot_index ch)
         \<lparr>reader_count := reader_count (seg_slots g ! ch_slot_index ch) - 1\<rparr>) g2))"
    using assms(1,2) v
    by (auto simp: release_consume_handle_def val put_header_same release_read_def Let_def V(2)
        split: if_splits)
  note fields = R(3) upd_header_def put_header_def put_slot_def update_reader_peak_count_def
    upd_slot_metrics_def advance_read_position_def pol
  show ok "con_checksum_policy c' = con_checksum_policy c"
    by (fact R)+
  show "seg_layout g' = seg_layout g" "seg_buffers g' = seg_buffers g" "seg_flex g' = seg_flex g"
    "seg_slots g' = (seg_slots g)[ch_slot_index ch := (seg_slots g ! ch_slot_index ch)
      \<lparr>reader_count := reader_count (seg_slots g ! ch_slot_index ch) - 1\<rparr>]"
    "length (seg_checksums g') = length (seg_checksums g)"
    "checksum_bytes (seg_checksums g' ! j) = checksum_bytes (seg_checksums g ! j)"
    using V by (simp_all add: fields)
  show "hdr_same ((seg_header g)\<lparr>read_index := ch_slot_id ch + 1\<rparr>) (seg_header g')"
    "checksum_bytes (flexible_zone_checksums (seg_header g') ! j)
      = checksum_bytes (flexible_zone_checksums (seg_header g) ! j)"
    using V(5,8) assms(5) by (simp_all add: fields hdr_same_def Let_def)
qed

lemma ring_give_inv:
  assumes inv: "ring_inv blake2b p n s" and r: "rs_read s = Some ch" and hash: "marks_data blake2b"
    and rel: "release_consume_slot blake2b (rs_consumer s) ch (rs_seg s) = (ok, c, ch', g)"
  shows "ok" and "ring_inv blake2b p n (s\<lparr>rs_seg := g, rs_consumer := c, rs_read := None,
      rs_popped := rs_popped s @ [seg_buffers (rs_seg s) ! ch_slot_index ch]\<rparr>)"
    (is "ring_inv _ _ _ ?t")
proof -
  note D = ring_invD [OF inv]
  have hd: "ch_slot_id ch = of_nat (length (rs_popped s))" "ch_slot_index ch = length (rs_popped s) mod n"
    "length (rs_popped s) < length (rs_pushed s)" "\<not> ch_released ch"
    "ch_captured_generation ch = write_generation (seg_slots (rs_seg s) ! ch_slot_index ch)"
    using D(23) [OF r] by auto
  let ?ch = "ch\<lparr>ch_mark_as_consumed := True\<rparr>"
  have lt: "ch_slot_index ch < n"
    using hd(2) D(3) by simp
  have pne: "rs_pushed s \<noteq> []"
    using hd(3) by auto
  have v: "fst (release_verify blake2b (rs_consumer s) ?ch (rs_seg s)) = 0"
    by (rule release_verify_ok [OF hash])
      (use lt hd D(2,5,8,21) D(19,20) [of "length (rs_popped s)"] pne in auto)
  have sq: "consumer_sync_policy (hconfig (seg_header (rs_seg s))) = Sequential"
    by (rule D(6))
  note E = release_consume_handle_effect [OF rel [unfolded release_consume_slot_def], simplified,
      OF hd(4,5) v sq]
  show ok
    by (rule E(1))
  have len: "length (seg_slots (rs_seg s)) = n" "slot_count_value g = n"
    using D(1,2) E(3) by (simp_all add: segment_wf_def slot_count_value_def)
  have H: "hconfig (seg_header g) = hconfig (seg_header (rs_seg s))"
    "write_index (seg_header g) = write_index (seg_header (rs_seg s))"
    "read_index (seg_header g) = ch_slot_id ch + 1"
    "commit_index (seg_header g) = commit_index (seg_header (rs_seg s))"
    using E(7) by (simp_all add: hdr_same_def)
  have enf: "enforced pol g = enforced pol (rs_seg s)" for pol
    using H(1) by (simp add: enforced_def)
  have "ring_static p n ?t"
    using D(1-8) E(2-8) len H by (simp add: ring_static_def segment_wf_def hdr_same_def Let_def)
  moreover have "ring_indices n ?t"
  proof -
    have "unat (of_nat (length (rs_popped s)) + 1 :: u64) = length (rs_popped s) + 1"
      using hd(3) D(14) by (simp add: unat_word_ariths unat_of_nat)
    moreover have "rs_popped s @ [seg_buffers (rs_seg s) ! ch_slot_index ch]
        = take (Suc (length (rs_popped s))) (rs_pushed s)"
      using D(15) D(19) [of "length (rs_popped s)"] hd(2,3) by (simp add: take_Suc_conv_app_nth)
    ultimately show ?thesis
      using D(9-15) hd(3) by (simp add: ring_indices_def open_write_def H hd(1) Let_def)
  qed
  moreover have "ring_locks p n ?t"
    unfolding ring_locks_def Let_def
  proof (intro allI impI)
    fix j assume "j < n"
    then show "write_lock (seg_slots (rs_seg ?t) ! j) = (if wslot ?t = Some j then prod_pid p else 0)
      \<and> reader_count (seg_slots (rs_seg ?t) ! j) = (if rslot ?t = Some j then 1 else 0)"
      using D(16,17) [of j] r len by (cases "j = ch_slot_index ch") (auto simp: wslot_def rslot_def E(6))
  qed
  moreover have "ring_data blake2b p n ?t"
    using D(18-21) E(3-5)
    by (simp add: ring_data_def enf E(6,9,10) list_update_proj [where f = slot_state] Let_def)
  moreover have "ring_handles n ?t"
    using D(22) E(3) by (simp add: ring_handles_def Let_def)
  ultimately show "ring_inv blake2b p n ?t"
    by (simp add: ring_inv_def)
qed

section \<open>Every step keeps the invariant\<close>

lemma ring_capacity_iff:
  assumes "ring_inv blake2b p n s" and "rs_write s = None"
  shows "write_index (seg_header (rs_seg s)) - read_index (seg_header (rs_seg s))
      < ucast (lay_slot_count (seg_layout (rs_seg s)))
    \<longleftrightarrow> length (rs_pushed s) < length (rs_popped s) + n"
proof -
  note D = ring_invD [OF assms(1)]
  have "read_index (seg_header (rs_seg s)) \<le> write_index (seg_header (rs_seg s))"
    using D(9,10,12) by (simp add: word_le_nat_alt)
  then have "unat (write_index (seg_header (rs_seg s)) - read_index (seg_header (rs_seg s)))
      = length (rs_pushed s) - length (rs_popped s)"
    using D(9,10) assms(2) by (simp add: unat_sub open_write_def)
  then show ?thesis
    using D(2,12) by (auto simp: word_less_nat_alt slot_count_value_def)
qed

lemma ring_next_slot:
  assumes "ring_inv blake2b p n s"
  shows "get_next_slot_to_read (seg_header (rs_seg s)) l hb
    = (if length (rs_popped s) < length (rs_pushed s) then of_nat (length (rs_popped s))
       else INVALID_SLOT_ID)"
proof -
  note D = ring_invD [OF assms]
  let ?P = "length (rs_pushed s)" and ?Q = "length (rs_popped s)"
  have r: "read_index (seg_header (rs_seg s)) = of_nat ?Q"
    using D(10) [symmetric] by simp
  have bound: "?P < 2 ^ 64 - 1"
    using D(14) by linarith
  show ?thesis
  proof (cases "?P = 0")
    case True
    then show ?thesis
      using D(6,11) by (simp add: get_next_slot_to_read_def INVALID_SLOT_ID_def)
  next
    case False
    then have c: "unat (commit_index (seg_header (rs_seg s))) = ?P - 1"
      using D(11) bound unat_of_nat_pred [of ?P] by simp
    moreover have "commit_index (seg_header (rs_seg s)) \<noteq> INVALID_SLOT_ID"
      using c bound by (auto simp: word_unat_eq_iff unat_INVALID_SLOT_ID)
    ultimately show ?thesis
      using D(6,10,12) False r by (auto simp: get_next_slot_to_read_def word_less_nat_alt)
  qed
qed

lemma ring_acquire_cases:
  assumes inv: "ring_inv blake2b p n s" and w: "rs_write s = None"
  shows "acquire_write_slot (Suc f) e p 0 (rs_seg s) =
    (let g = rs_seg s; i = length (rs_pushed s) mod n in
     if length (rs_pushed s) < length (rs_popped s) + n
     then Some (Some \<lparr>wh_slot_index = i, wh_slot_id = of_nat (length (rs_pushed s)),
        wh_buffer_size = lay_slot_stride_bytes (seg_layout g), wh_bytes_written = 0,
        wh_committed = False, wh_released = False\<rparr>,
      g\<lparr>seg_header := (seg_header g)\<lparr>write_index := write_index (seg_header g) + 1\<rparr>,
        seg_slots := (seg_slots g)[i := (seg_slots g ! i)\<lparr>write_lock := prod_pid p,
          writer_waiting := 0, slot_state := WRITING\<rparr>]\<rparr>)
     else Some (None, put_header (increment_metric_writer_timeout (Some (seg_header g))) g))"
proof -
  note D = ring_invD [OF inv]
  have idx: "unat (write_index (seg_header (rs_seg s))) = length (rs_pushed s)"
    using D(9) w by (simp add: open_write_def)
  then have wi: "write_index (seg_header (rs_seg s)) = of_nat (length (rs_pushed s))"
    by (simp flip: idx)
  show ?thesis
  proof (cases "length (rs_pushed s) < length (rs_popped s) + n")
    case True
    have lt: "length (rs_pushed s) mod n < n"
      using D(3) by simp
    have "rslot s \<noteq> Some (length (rs_pushed s) mod n)"
      using D(23) nth_pushed_mod_distinct [OF inv, of "length (rs_popped s)"] True
      by (auto simp: rslot_def)
    then have fr: "write_lock (seg_slots (rs_seg s) ! (length (rs_pushed s) mod n)) = 0"
      "reader_count (seg_slots (rs_seg s) ! (length (rs_pushed s) mod n)) = 0"
      using D(16,17) [OF lt] w by (simp_all add: wslot_def)
    show ?thesis
      using acquire_write_slot_ok [of "rs_seg s" "length (rs_pushed s) mod n" f e p] fr True
        ring_capacity_iff [OF inv w] D(2,3,4,6) idx wi by (simp add: Let_def)
  next
    case False
    then show ?thesis
      using acquire_write_slot_full [of "rs_seg s" f e p] ring_capacity_iff [OF inv w] D(2,3,6)
      by (simp add: Let_def)
  qed
qed

lemma ring_take_cases:
  assumes inv: "ring_inv blake2b p n s" and e: "calm e"
  shows "acquire_consume_slot (Suc f) e (rs_consumer s) 0 (rs_seg s) =
    (let g = rs_seg s; i = length (rs_popped s) mod n in
     if length (rs_popped s) < length (rs_pushed s)
     then Some (Some \<lparr>ch_slot_index = i, ch_slot_id = of_nat (length (rs_popped s)),
        ch_buffer_size = lay_slot_stride_bytes (seg_layout g), ch_released = False,
        ch_mark_as_consumed = False, ch_captured_generation = write_generation (seg_slots g ! i),
        ch_heartbeat_slot = -1\<rparr>,
      g\<lparr>seg_slots := (seg_slots g)[i :=
        (seg_slots g ! i)\<lparr>reader_count := reader_count (seg_slots g ! i) + 1\<rparr>]\<rparr>)
     else Some (None, put_header (upd_slot_metrics
           (\<lambda>m. m\<lparr>reader_timeout_count := reader_timeout_count m + 1\<rparr>) (Some (seg_header g))) g))"
proof -
  note D = ring_invD [OF inv]
  show ?thesis
  proof (cases "length (rs_popped s) < length (rs_pushed s)")
    case True
    have u: "unat (of_nat (length (rs_popped s)) :: u64) = length (rs_popped s)"
      using True D(14) by (simp add: unat_of_nat)
    then have ne: "(of_nat (length (rs_popped s)) :: u64) \<noteq> INVALID_SLOT_ID"
      using True D(14) by (auto simp: word_unat_eq_iff unat_INVALID_SLOT_ID)
    show ?thesis
      using acquire_consume_slot_ok [OF e, of "rs_seg s" "rs_consumer s"
          "of_nat (length (rs_popped s))" "length (rs_popped s) mod n" f]
        ring_next_slot [OF inv] True D(2,3,4,6) D(18) [of "length (rs_popped s)"] u ne
      by (simp add: make_slot_consume_handle_impl_def Let_def)
  next
    case False
    then show ?thesis
      using acquire_consume_slot_empty [of "rs_seg s" "rs_consumer s" f e] ring_next_slot [OF inv]
        D(2,3,6) by (simp add: Let_def)
  qed
qed

lemma ring_step_inv:
  assumes "ring_step blake2b p s t" and inv: "ring_inv blake2b p n s" and hash: "marks_data blake2b"
  shows "ring_inv blake2b p n t"
  using assms(1)
proof cases
  case (rs_acquire f e w g)
  show ?thesis
  proof (cases "length (rs_pushed s) < length (rs_popped s) + n")
    case True
    then show ?thesis
      using rs_acquire ring_acquire_cases [OF inv rs_acquire(2), of f e] ring_acquire_inv [OF inv]
      by (auto simp: Let_def)
  next
    case False
    then have "w = None" "g = put_header (increment_metric_writer_timeout
        (Some (seg_header (rs_seg s)))) (rs_seg s)"
      using rs_acquire(4) ring_acquire_cases [OF inv rs_acquire(2), of f e] by (auto simp: Let_def)
    then show ?thesis
      using rs_acquire(1,2) ring_inv_metrics [OF inv]
      by (cases s) (simp add: increment_metric_writer_timeout_def)
  qed
next
  case (rs_store w src offset ok g)
  then show ?thesis
    using ring_store_inv [OF inv] by blast
next
  case (rs_commit w k ok w')
  have "\<And>x. rs_write s = Some x \<Longrightarrow> wh_slot_index w' = wh_slot_index x \<and> wh_slot_id w' = wh_slot_id x
      \<and> wh_released w' = wh_released x \<and> wh_buffer_size w' = wh_buffer_size x"
    using rs_commit by (auto simp: write_handle_commit_def split: if_splits)
  then show ?thesis
    using inv rs_commit(1,2)
    by (auto simp: ring_inv_def ring_static_def ring_indices_def ring_locks_def ring_data_def
        ring_handles_def wslot_def rslot_def open_write_def Let_def)
next
  case (rs_release w now ok w' g)
  then show ?thesis
    using ring_commit_inv [OF inv rs_release(2) _ rs_release(3)]
      ring_discard_inv [OF inv rs_release(2) _ rs_release(3)] by (cases "wh_committed w") simp_all
next
  case (rs_take e f r g)
  show ?thesis
  proof (cases "length (rs_popped s) < length (rs_pushed s)")
    case True
    then show ?thesis
      using rs_take ring_take_cases [OF inv rs_take(3), of f] ring_take_inv [OF inv rs_take(2)]
      by (auto simp: Let_def)
  next
    case False
    then have "r = None" "g = put_header (upd_slot_metrics
           (\<lambda>m. m\<lparr>reader_timeout_count := reader_timeout_count m + 1\<rparr>)
           (Some (seg_header (rs_seg s)))) (rs_seg s)"
      using rs_take(4) ring_take_cases [OF inv rs_take(3), of f] by (auto simp: Let_def)
    then show ?thesis
      using rs_take(1,2) ring_inv_metrics [OF inv] by (cases s) simp
  qed
next
  case (rs_give r ok c r' g)
  then show ?thesis
    using ring_give_inv [OF inv rs_give(2) hash rs_give(3)] by simp
qed

section \<open>Refinement of a bounded queue\<close>

text \<open>The abstract specification: a queue of at most \<open>n\<close> payloads.\<close>

inductive fifo_step :: "nat \<times> bytes list \<Rightarrow> nat \<times> bytes list \<Rightarrow> bool" where
  fifo_push: "length q < n \<Longrightarrow> fifo_step (n, q) (n, q @ [v])"
| fifo_pop: "fifo_step (n, v # q) (n, q)"

definition fifo_init :: "nat \<Rightarrow> nat \<times> bytes list \<Rightarrow> bool" where
  "fifo_init n a \<longleftrightarrow> a = (n, [])"

definition ring_abs :: "nat \<Rightarrow> ring_sys \<Rightarrow> nat \<times> bytes list" where
  "ring_abs n s = (n, drop (length (rs_popped s)) (rs_pushed s))"

lemma fresh_segment_wf:
  assumes "create_datablock blake2b abi now me cfg = Inr (l, h)"
  shows "segment_wf (fresh_segment l h)"
proof -
  have "h = update_producer_heartbeat_impl now me (store_layout_checksum blake2b
        ((header_before_magic now cfg l)\<lparr>magic_number := DATABLOCK_MAGIC_NUMBER,
           header_layout_hash := abi\<rparr>))"
    using assms by (auto simp: create_datablock_def init_producer_state_def Let_def
        split: option.splits sum.splits if_splits)
  then show ?thesis
    by (simp add: segment_wf_def fresh_segment_def slot_count_value_def header_before_magic_def
        update_producer_heartbeat_impl_def store_layout_checksum_def)
qed

lemma create_datablock_indices:
  assumes "create_datablock blake2b abi now me cfg = Inr (l, h)"
  shows "write_index h = 0" and "read_index h = 0" and "commit_index h = INVALID_SLOT_ID"
  using assms
  by (auto simp: create_datablock_def init_producer_state_def Let_def header_before_magic_def
      update_producer_heartbeat_impl_def store_layout_checksum_def
      split: option.splits sum.splits if_splits)

lemma ring_init_inv:
  assumes "ring_init blake2b p n s"
  shows "ring_inv blake2b p n s"
proof -
  obtain abi now cfg l h where c: "create_datablock blake2b abi now (prod_pid p) cfg = Inr (l, h)"
    and fits: "config_fits cfg" and sq: "cfg_consumer_sync_policy cfg = Sequential"
    and cap: "unat (cfg_ring_buffer_capacity cfg) = n"
    and p: "prod_pid p \<noteq> 0" "con_checksum_policy (rs_consumer s) = prod_checksum_policy p"
    and s: "rs_seg s = fresh_segment l h" "rs_write s = None" "rs_read s = None"
      "rs_pushed s = []" "rs_popped s = []"
    using assms by (auto simp: ring_init_def)
  note C = create_datablock_InrD [OF c] and I = create_datablock_indices [OF c]
  have chk: "cfg_ring_buffer_capacity cfg \<noteq> 0" "cfg_physical_page_size cfg \<noteq> PageSize_Unset"
    "cfg_checksum_type cfg \<noteq> ChecksumType_Unset"
    using C(1) by (auto simp: check_config_def split: if_splits)
  note F = from_config_fields [OF C(2)]
  have n: "unat (lay_slot_count l) = n" "0 < n"
    using F(1) cap chk(1) by (auto simp: config_slots_def word_neq_0_conv unat_gt_0)
  have stride: "lay_slot_stride_bytes l \<noteq> 0"
    using F(2) stride_pos(2) [OF chk(2) fits] by (simp add: unat_gt_0)
  have "unat (config_slots cfg) * 33 < 2 ^ 64"
    using unsigned_less [where 'a = nat, of "config_slots cfg"] by simp
  then have ck: "lay_slot_checksum_size l \<noteq> 0"
    using layout_of_InrD [OF C(2) [unfolded from_config_def]] chk(3) n F(1)
    by (auto simp: word_unat_eq_iff unat_word_ariths)
  show ?thesis
    using fresh_segment_wf [OF c] n stride ck I p s C(4) sq
    by (auto simp: ring_inv_def ring_static_def ring_indices_def ring_locks_def ring_data_def
        ring_handles_def open_write_def wslot_def rslot_def fresh_segment_def slot_count_value_def
        header_config_of_def free_slot_def INVALID_SLOT_ID_def Let_def)
qed

lemma ring_step_sim:
  assumes "ring_step blake2b p s t" and inv: "ring_inv blake2b p n s" and hash: "marks_data blake2b"
  shows "ring_abs n t = ring_abs n s \<or> fifo_step (ring_abs n s) (ring_abs n t)"
  using assms(1)
proof cases
  case (rs_release w now ok w' g)
  note D = ring_invD [OF inv]
  have "length (drop (length (rs_popped s)) (rs_pushed s)) < n"
    using D(12,13) rs_release(2) by (simp add: open_write_def)
  then show ?thesis
    using D(12) rs_release(1) by (auto simp: ring_abs_def intro!: fifo_push)
next
  case (rs_give r ok c r' g)
  note D = ring_invD [OF inv]
  have lt: "length (rs_popped s) < length (rs_pushed s)"
    using D(23) [OF rs_give(2)] by auto
  have "fifo_step (n, rs_pushed s ! length (rs_popped s) # drop (Suc (length (rs_popped s))) (rs_pushed s))
      (n, drop (Suc (length (rs_popped s))) (rs_pushed s))"
    by (rule fifo_pop)
  then show ?thesis
    using rs_give(1) ring_give_inv(1) [OF inv rs_give(2) hash rs_give(3)] lt
    by (simp add: ring_abs_def Cons_nth_drop_Suc)
qed (simp_all add: ring_abs_def)

interpretation ring: simulation "ring_init blake2b p n" "ring_step blake2b p"
  "\<lambda>s. ring_inv blake2b p n s \<and> marks_data blake2b" "ring_abs n" "fifo_init n" fifo_step
  for blake2b p n
proof unfold_locales
  show "ring_inv blake2b p n s \<and> marks_data blake2b" if "ring_init blake2b p n s" for s
    using that ring_init_inv by (auto simp: ring_init_def)
  show "ring_inv blake2b p n t \<and> marks_data blake2b"
    if "ring_inv blake2b p n s \<and> marks_data blake2b" "ring_step blake2b p s t" for s t
    using that ring_step_inv by blast
  show "fifo_init n (ring_abs n s)" if "ring_init blake2b p n s" for s
    using that by (auto simp: ring_init_def fifo_init_def ring_abs_def)
  show "ring_abs n t = ring_abs n s \<or> fifo_step (ring_abs n s) (ring_abs n t)"
    if "ring_inv blake2b p n s \<and> marks_data blake2b" "ring_step blake2b p s t" for s t
    using that ring_step_sim by blast
qed

section \<open>Delivery\<close>

text \<open>C4: exactly-once, in-order delivery. In every run of a producer and a consumer on a segment
  with the policy \<open>Sequential\<close> (discarded writes, failed calls and overlapping handles included), the
  payloads the consumer has released are exactly the first committed payloads, in commit order and
  without gap or repetition, and at most the capacity of the ring is committed but not consumed.\<close>

theorem ring_exactly_once:
  assumes "reach (ring_init blake2b p n) (ring_step blake2b p) s"
  shows "rs_popped s = take (length (rs_popped s)) (rs_pushed s)
    \<and> length (rs_pushed s) \<le> length (rs_popped s) + n"
  using ring_invD(13,15) [of blake2b p n s] ring.reach_inv [OF assms] by simp



section \<open>A run\<close>

text \<open>A producer commits a slot and the consumer takes it, from any reachable state with room.\<close>

abbreviation "ring_reach blake2b p n \<equiv> reach (ring_init blake2b p n) (ring_step blake2b p)"

definition demo_env :: ring_env where
  "demo_env = \<lparr>re_step = (\<lambda>_ g. g), re_clock = (\<lambda>_. 0), re_slot = quiet_env,
     re_check = (\<lambda>_ s. s), re_register = (\<lambda>_ s. s)\<rparr>"

lemma demo_env_calm: "calm demo_env"
  by (simp add: calm_def demo_env_def)

lemma push_run:
  assumes r: "ring_reach blake2b p n s" and w: "rs_write s = None"
    and lim: "unat (write_index (seg_header (rs_seg s))) + 2 < 2 ^ 64"
    and room: "length (rs_pushed s) < length (rs_popped s) + n"
  shows "\<exists>t v. ring_reach blake2b p n t \<and> rs_pushed t = rs_pushed s @ [v] \<and> rs_write t = None
    \<and> rs_popped t = rs_popped s \<and> rs_read t = rs_read s"
proof -
  have inv: "ring_inv blake2b p n s"
    using ring.reach_inv [OF r] by simp
  obtain w1 g where a: "acquire_write_slot (Suc 0) demo_env p 0 (rs_seg s) = Some (Some w1, g)"
    using ring_acquire_cases [OF inv w, of 0 demo_env] room by (auto simp: Let_def)
  let ?s1 = "s\<lparr>rs_seg := g, rs_write := Some w1\<rparr>"
  have r1: "ring_reach blake2b p n ?s1"
    by (rule reach_step [OF r rs_acquire [OF w lim a]])
  let ?w2 = "w1\<lparr>wh_bytes_written := 0, wh_committed := True\<rparr>"
  have c: "write_handle_commit 0 w1 = (True, ?w2)"
    by (simp add: write_handle_commit_def)
  let ?s2 = "?s1\<lparr>rs_write := Some ?w2\<rparr>"
  have r2: "ring_reach blake2b p n ?s2"
    using reach_step [OF r1 rs_commit [of ?s1 w1 0 True ?w2]] c by simp
  obtain ok w3 g3 where rel: "release_write_handle blake2b now p ?w2 (rs_seg ?s2) = (ok, w3, g3)"
    by (metis prod_cases3)
  define s3 where "s3 = ?s2\<lparr>rs_seg := g3, rs_write := None,
    rs_pushed := rs_pushed ?s2 @ [seg_buffers (rs_seg ?s2) ! wh_slot_index ?w2]\<rparr>"
  have "ring_step blake2b p ?s2 s3"
    unfolding s3_def using rs_release [where s = ?s2 and w = ?w2 and ok = ok and w' = w3 and g = g3
        and blake2b = blake2b and p = p and now = now] rel by simp
  then have "ring_reach blake2b p n s3"
    by (rule reach_step [OF r2])
  then show ?thesis
    by (intro exI [of _ s3]) (simp add: s3_def)
qed

lemma pop_run:
  assumes r: "ring_reach blake2b p n s" and w: "rs_read s = None"
    and av: "length (rs_popped s) < length (rs_pushed s)"
  shows "\<exists>t v. ring_reach blake2b p n t \<and> rs_popped t = rs_popped s @ [v] \<and> rs_read t = None
    \<and> rs_pushed t = rs_pushed s \<and> rs_write t = rs_write s"
proof -
  have inv: "ring_inv blake2b p n s" and hash: "marks_data blake2b"
    using ring.reach_inv [OF r] by simp_all
  obtain c1 g where a: "acquire_consume_slot (Suc 0) demo_env (rs_consumer s) 0 (rs_seg s) = Some (Some c1, g)"
    using ring_take_cases [OF inv demo_env_calm, of 0] av by (auto simp: Let_def)
  let ?s1 = "s\<lparr>rs_seg := g, rs_read := Some c1\<rparr>"
  have r1: "ring_reach blake2b p n ?s1"
    by (rule reach_step [OF r rs_take [OF w demo_env_calm a]])
  obtain ok c ch g3 where rel: "release_consume_slot blake2b (rs_consumer ?s1) c1 (rs_seg ?s1) = (ok, c, ch, g3)"
    by (metis prod_cases4)
  have "ok"
    using ring_give_inv(1) [of blake2b p n ?s1, OF _ _ hash rel] ring.reach_inv [OF r1] by simp
  define s3 where "s3 = ?s1\<lparr>rs_seg := g3, rs_consumer := c, rs_read := None,
    rs_popped := rs_popped ?s1 @ [seg_buffers (rs_seg ?s1) ! ch_slot_index c1]\<rparr>"
  have "ring_step blake2b p ?s1 s3"
    unfolding s3_def using rs_give [where s = ?s1 and r = c1 and ok = ok and r' = ch and g = g3
        and blake2b = blake2b and p = p and c = c] rel \<open>ok\<close> by simp
  then have "ring_reach blake2b p n s3"
    by (rule reach_step [OF r1])
  then show ?thesis
    by (intro exI [of _ s3]) (simp add: s3_def)
qed

definition demo_producer :: DataBlockProducer where
  "demo_producer = \<lparr>prod_pid = 42, prod_checksum_policy = ChecksumPolicy_Enforced\<rparr>"

definition demo_consumer :: DataBlockConsumer where
  "demo_consumer = \<lparr>con_pid = 43, con_checksum_policy = ChecksumPolicy_Enforced,
     last_consumed_slot_id = INVALID_SLOT_ID, heartbeat_slot = 0, consumer_uid_buf = ''c1'',
     consumer_name_buf = ''scope'', checksum_errors = 0\<rparr>"

lemma demo_ring_init:
  "\<exists>s. ring_reach demo_hash demo_producer 4 s \<and> rs_pushed s = [] \<and> rs_popped s = []
     \<and> rs_write s = None \<and> rs_read s = None \<and> write_index (seg_header (rs_seg s)) = 0"
proof -
  obtain h where h: "create_datablock demo_hash [7] 5 42 demo_config = Inr (demo_layout, h)"
    using demo_create by blast
  define s where "s = \<lparr>rs_seg = fresh_segment demo_layout h, rs_consumer = demo_consumer,
    rs_write = None, rs_read = None, rs_pushed = [], rs_popped = []\<rparr>"
  have "ring_init demo_hash demo_producer 4 s"
    unfolding ring_init_def using demo_hash_marks h demo_config_fits
    by (auto simp: s_def demo_producer_def demo_consumer_def demo_config_def intro!: exI)
  then have "ring_reach demo_hash demo_producer 4 s"
    by (rule reach_init)
  then show ?thesis
    using create_datablock_indices(1) [OF h] by (auto simp: s_def fresh_segment_def)
qed

lemma demo_ring_pushed:
  "\<exists>s v. ring_reach demo_hash demo_producer 4 s \<and> rs_pushed s = [v] \<and> rs_popped s = []
     \<and> rs_write s = None \<and> rs_read s = None"
proof -
  obtain s where "ring_reach demo_hash demo_producer 4 s" "rs_pushed s = []" "rs_popped s = []"
    "rs_write s = None" "rs_read s = None" "write_index (seg_header (rs_seg s)) = 0"
    using demo_ring_init by blast
  then show ?thesis
    using push_run [of demo_hash demo_producer 4 s] by auto
qed

theorem ring_exactly_once_witness:
  "\<exists>s v. ring_reach demo_hash demo_producer 4 s \<and> rs_pushed s = [v] \<and> rs_popped s = [v]
     \<and> rs_popped s = take (length (rs_popped s)) (rs_pushed s)"
proof -
  obtain s v where s: "ring_reach demo_hash demo_producer 4 s" "rs_pushed s = [v]" "rs_popped s = []"
    "rs_read s = None"
    using demo_ring_pushed by blast
  then obtain t u where t: "ring_reach demo_hash demo_producer 4 t" "rs_popped t = [u]"
    "rs_pushed t = [v]"
    using pop_run [of demo_hash demo_producer 4 s] by auto
  with ring_exactly_once [OF t(1)] show ?thesis
    by auto
qed



end
