(* ===== verification/Ring_Policies.thy ===== *)
theory Ring_Policies
  imports Ring_Fifo
begin

text \<open>
  The other consumer policies of the ring buffer and the table of consumers: what
  \<open>Latest_only\<close> and \<open>Sequential_sync\<close> guarantee, where the code departs from the guarantee it
  states, and the accounting of \<open>active_consumer_count\<close>.
\<close>

section \<open>The minimum read position\<close>

lemma fold_min_le:
  fixes f :: "'i \<Rightarrow> u64"
  shows "fold (\<lambda>i m. if P i then (if f i < m then f i else m) else m) xs m0 \<le> m0"
proof (induction xs arbitrary: m0)
  case Nil
  then show ?case by simp
next
  case (Cons i xs)
  have "(if P i then (if f i < m0 then f i else m0) else m0) \<le> m0"
    by auto
  then show ?case
    using Cons.IH [of "if P i then (if f i < m0 then f i else m0) else m0"] by simp
qed

lemma fold_min_le_elem:
  fixes f :: "'i \<Rightarrow> u64"
  assumes "i \<in> set xs" and "P i"
  shows "fold (\<lambda>i m. if P i then (if f i < m then f i else m) else m) xs m0 \<le> f i"
  using assms
proof (induction xs arbitrary: m0)
  case Nil
  then show ?case by simp
next
  case (Cons j xs)
  show ?case
  proof (cases "i = j")
    case True
    have "(if f j < m0 then f j else m0) \<le> f j"
      by auto
    then show ?thesis
      using True Cons.prems fold_min_le [of P f xs "if f j < m0 then f j else m0"]
      by (auto intro: order_trans)
  next
    case False
    then show ?thesis
      using Cons by simp
  qed
qed

lemma fold_min_attained:
  fixes f :: "'i \<Rightarrow> u64"
  shows "fold (\<lambda>i m. if P i then (if f i < m then f i else m) else m) xs m0
    \<in> insert m0 (f ` {i \<in> set xs. P i})"
proof (induction xs arbitrary: m0)
  case Nil
  then show ?case by simp
next
  case (Cons j xs)
  let ?m = "if P j then (if f j < m0 then f j else m0) else m0"
  show ?case
    using Cons.IH [of ?m] by (auto split: if_splits)
qed

text \<open>Under \<open>Sequential_sync\<close> a successful release moves \<open>read_index\<close> to the minimum of the
  read positions: no registered consumer is behind it, and it is the position of the releasing
  consumer or of a registered one, so the writer is held back by the slowest consumer and by nothing
  else.\<close>

theorem sync_read_index_is_minimum:
  assumes "consumer_sync_policy (hconfig h) = Sequential_sync"
    and "0 \<le> ch_heartbeat_slot ch" and "ch_heartbeat_slot ch < 8"
    and "length (consumer_next_read_slot h) = 8"
  defines "h' \<equiv> advance_read_position ch h"
  shows "consumer_next_read_slot h' ! nat (ch_heartbeat_slot ch) = ch_slot_id ch + 1
    \<and> read_index h' \<le> ch_slot_id ch + 1
    \<and> (\<forall>i < 8. consumer_pid (consumer_heartbeats h' ! i) \<noteq> 0 \<longrightarrow>
          read_index h' \<le> consumer_next_read_slot h' ! i)
    \<and> (read_index h' = ch_slot_id ch + 1
        \<or> (\<exists>i < 8. consumer_pid (consumer_heartbeats h' ! i) \<noteq> 0
             \<and> read_index h' = consumer_next_read_slot h' ! i))"
proof -
  define h1 where "h1 = h\<lparr>consumer_next_read_slot :=
    (consumer_next_read_slot h)[nat (ch_heartbeat_slot ch) := ch_slot_id ch + 1]\<rparr>"
  have h': "h' = h1\<lparr>read_index := sync_min_pos (ch_slot_id ch + 1) h1\<rparr>"
    using assms(1-3) by (simp add: h'_def advance_read_position_def h1_def MAX_CONSUMER_HEARTBEATS_def Let_def)
  let ?P = "\<lambda>i. consumer_pid (consumer_heartbeats h1 ! i) \<noteq> 0"
  let ?f = "\<lambda>i. consumer_next_read_slot h1 ! i"
  have m: "sync_min_pos x h1
      = fold (\<lambda>i m. if ?P i then (if ?f i < m then ?f i else m) else m) [0..<8] x" for x
    by (simp only: sync_min_pos_def MAX_CONSUMER_HEARTBEATS_def)
  have "sync_min_pos (ch_slot_id ch + 1) h1 \<le> ch_slot_id ch + 1"
    unfolding m by (rule fold_min_le)
  moreover have "sync_min_pos (ch_slot_id ch + 1) h1 \<le> ?f i" if "i < 8" "?P i" for i
    unfolding m by (rule fold_min_le_elem [where P = ?P]) (use that in auto)
  moreover have "sync_min_pos (ch_slot_id ch + 1) h1
      \<in> insert (ch_slot_id ch + 1) (?f ` {i \<in> set [0..<8]. ?P i})"
    unfolding m by (rule fold_min_attained)
  moreover have "consumer_next_read_slot h1 ! nat (ch_heartbeat_slot ch) = ch_slot_id ch + 1"
    using assms(2-4) by (simp add: h1_def)
  ultimately show ?thesis
    unfolding h' by auto
qed

section \<open>Latest only\<close>

text \<open>A client of the ring buffer with no interference, on a segment whose header is fixed.\<close>

lemma consume_latest_next:
  assumes "consumer_sync_policy (hconfig (seg_header g)) = Latest_only"
  shows "get_next_slot_to_read (seg_header g) l hb =
    (if commit_index (seg_header g) = l then INVALID_SLOT_ID else commit_index (seg_header g))"
  using assms by (simp add: get_next_slot_to_read_def)

lemma release_consume_header:
  assumes "release_consume_handle blake2b c ch g = (ok, c', ch', g')" and "\<not> ch_released ch"
  shows "hconfig (seg_header g') = hconfig (seg_header g)"
    and "commit_index (seg_header g') = commit_index (seg_header g)"
    and "write_index (seg_header g') = write_index (seg_header g)"
    and "\<not> ok \<Longrightarrow> read_index (seg_header g') = read_index (seg_header g)"
    and "\<not> ok \<Longrightarrow> consumer_next_read_slot (seg_header g') = consumer_next_read_slot (seg_header g)"
    and "last_consumed_slot_id c' = (if ch_mark_as_consumed ch then ch_slot_id ch else last_consumed_slot_id c)"
    and "seg_layout g' = seg_layout g"
    and "seg_slots g' = (seg_slots g)[ch_slot_index ch := (seg_slots g ! ch_slot_index ch)
      \<lparr>reader_count := reader_count (seg_slots g ! ch_slot_index ch) - 1\<rparr>]"
proof -
  let ?v = "validate_read_impl (ch_captured_generation ch) (seg_slots g ! ch_slot_index ch) (Some (seg_header g))"
  define g1 where "g1 = put_header (snd ?v) g"
  define vr where "vr = (if fst ?v then release_verify blake2b c ch g1 else (0, g1))"
  have G1: "hdr_same (seg_header g) (seg_header g1)" "seg_slots g1 = seg_slots g" "seg_layout g1 = seg_layout g"
    by (simp_all add: g1_def put_header_def hdr_same_def validate_read_impl_def
        increment_metric_reader_validation_failed_def upd_slot_metrics_def)
  have G2: "hdr_same (seg_header g) (seg_header (snd vr))" "seg_slots (snd vr) = seg_slots g"
    "seg_layout (snd vr) = seg_layout g"
    using G1 release_verify_frame(1,2,5) [of blake2b c ch g1 "fst (release_verify blake2b c ch g1)"
        "snd (release_verify blake2b c ch g1)"] by (auto simp: vr_def hdr_same_def)
  have R: "ok = (fst ?v \<and> fst vr = 0)"
    "last_consumed_slot_id c' = (if ch_mark_as_consumed ch then ch_slot_id ch else last_consumed_slot_id c)"
    "g' = (let s = seg_slots (snd vr) ! ch_slot_index ch;
         g3 = put_header (update_reader_peak_count (reader_count s) (Some (seg_header (snd vr))))
           (put_slot (ch_slot_index ch) (s\<lparr>reader_count := reader_count s - 1\<rparr>) (snd vr))
       in if ok then upd_header (advance_read_position ch) g3 else g3)"
    using assms
    by (auto simp: release_consume_handle_def case_prod_beta Let_def release_read_def vr_def g1_def
        split: if_splits)
  note fields = put_header_def put_slot_def upd_header_def update_reader_peak_count_def
    upd_slot_metrics_def advance_read_position_def hdr_same_def
  show "hconfig (seg_header g') = hconfig (seg_header g)"
    "commit_index (seg_header g') = commit_index (seg_header g)"
    "write_index (seg_header g') = write_index (seg_header g)"
    "seg_layout g' = seg_layout g"
    using G2(1,3) by (simp_all add: R(3) fields Let_def)
  show "last_consumed_slot_id c' = (if ch_mark_as_consumed ch then ch_slot_id ch else last_consumed_slot_id c)"
    by (rule R(2))
  show "\<not> ok \<Longrightarrow> read_index (seg_header g') = read_index (seg_header g)"
    "\<not> ok \<Longrightarrow> consumer_next_read_slot (seg_header g') = consumer_next_read_slot (seg_header g)"
    using G2(1,3) by (simp_all add: R(3) fields Let_def)
  show "seg_slots g' = (seg_slots g)[ch_slot_index ch := (seg_slots g ! ch_slot_index ch)
      \<lparr>reader_count := reader_count (seg_slots g ! ch_slot_index ch) - 1\<rparr>]"
    using G2(2) by (simp add: R(3) fields Let_def)
qed

text \<open>A \<open>Latest_only\<close> consumer sees the newest committed slot and sees it once. Whatever it
  read, after an explicit release of the newest slot it is offered nothing until another commit; a
  handle that is dropped without an explicit release leaves the slot on offer.\<close>

theorem latest_only_once:
  assumes "consumer_sync_policy (hconfig (seg_header g)) = Latest_only"
    and "ch_slot_id ch = commit_index (seg_header g)" and "\<not> ch_released ch"
    and "release_consume_slot blake2b c ch g = (ok, c1, ch1, g1)"
    and "release_consume_handle blake2b c (ch\<lparr>ch_mark_as_consumed := False\<rparr>) g = (ok2, c2, ch2, g2)"
  shows "get_next_slot_to_read (seg_header g1) (last_consumed_slot_id c1) (heartbeat_slot c1)
      = INVALID_SLOT_ID
    \<and> (commit_index h \<noteq> ch_slot_id ch \<longrightarrow> hconfig h = hconfig (seg_header g) \<longrightarrow>
        get_next_slot_to_read h (last_consumed_slot_id c1) (heartbeat_slot c1) = commit_index h)
    \<and> (last_consumed_slot_id c \<noteq> ch_slot_id ch \<longrightarrow>
        get_next_slot_to_read (seg_header g2) (last_consumed_slot_id c2) (heartbeat_slot c2)
          = ch_slot_id ch)"
  using release_consume_header [OF assms(4) [unfolded release_consume_slot_def]]
    release_consume_header [OF assms(5)] assms(1,2,3)
  by (simp add: get_next_slot_to_read_def)

section \<open>Corrupted slots\<close>

lemma release_verify_bad:
  assumes "enforced (con_checksum_policy c) g"
    and "\<not> fst (verify_checksum_slot_impl blake2b (ch_slot_index ch) False g)"
  shows "fst (release_verify blake2b c ch g) \<noteq> 0"
  using assms by (auto simp: release_verify_def enforced_def split: prod.splits)

text \<open>Under the policies \<open>Sequential\<close> and the enforced checksum policy a slot whose bytes do not
  match their checksum stops the stream. Its release fails and does not advance \<open>read_index\<close>, so the
  consumer is offered the same slot again and again, and the writer's view of the ring does not
  change.\<close>

theorem corrupt_slot_blocks_sequential:
  assumes "consumer_sync_policy (hconfig (seg_header g)) = Sequential"
    and "enforced (con_checksum_policy c) g" and "lay_slot_checksum_size (seg_layout g) \<noteq> 0"
    and "ch_slot_index ch < slot_count_value g" and "\<not> ch_released ch"
    and "ch_captured_generation ch = write_generation (seg_slots g ! ch_slot_index ch)"
    and "checksum_bytes (seg_checksums g ! ch_slot_index ch) \<noteq> blake2b (seg_buffers g ! ch_slot_index ch)"
    and "release_consume_slot blake2b c ch g = (ok, c1, ch1, g1)"
  shows "\<not> ok \<and> read_index (seg_header g1) = read_index (seg_header g)
    \<and> get_next_slot_to_read (seg_header g1) l hb = get_next_slot_to_read (seg_header g) l' hb'"
proof -
  let ?ch = "ch\<lparr>ch_mark_as_consumed := True\<rparr>"
  have "fst (release_verify blake2b c ?ch g) \<noteq> 0"
    by (rule release_verify_bad [OF assms(2)])
      (use assms(3,4,7) verify_slot_iff [of "ch_slot_index ch" g blake2b] in simp)
  then have ok: "\<not> ok"
    using assms(5,6,8)
    by (auto simp: release_consume_slot_def release_consume_handle_def validate_read_impl_def
        put_header_same case_prod_beta Let_def)
  note H = release_consume_header [OF assms(8) [unfolded release_consume_slot_def]]
  show ?thesis
    using ok assms(1,5) H(1-4) by (simp add: get_next_slot_to_read_def)
qed

section \<open>Asking for a slot by its id\<close>

lemma wait_for_commit_ready:
  "\<not> commit_index (seg_header g) < slot_id \<Longrightarrow>
   wait_for_commit (Suc f) k e slot_id start t g = Some (True, g)"
  by simp

text \<open>\<open>acquire_consume_slot(slot_id, timeout)\<close> does not wait for the first commit and does not
  check which slot it got. Before the first commit the sentinel in \<open>commit_index\<close> passes the wait and
  the call fails at once, whatever the timeout, infinite included. After a wrap-around a request for an
  overwritten slot id and one for the id that overwrote it both succeed and read the same bytes.\<close>

theorem consume_by_id_unchecked:
  assumes "calm e" and "slot_count_value g \<noteq> 0"
    and "lay_slot_stride_bytes (seg_layout g) \<noteq> 0"
  shows "(commit_index (seg_header g) = INVALID_SLOT_ID \<longrightarrow>
           slot_state (seg_slots g ! (unat i mod slot_count_value g)) = FREE \<longrightarrow>
           acquire_consume_slot_id (Suc f) e c i t g = Some (None, g))
    \<and> (unat i + slot_count_value g \<le> unat (commit_index (seg_header g)) \<longrightarrow>
           slot_state (seg_slots g ! (unat i mod slot_count_value g)) = COMMITTED \<longrightarrow>
           (\<exists>r r' g'. acquire_consume_slot_id (Suc f) e c i t g = Some (Some r, g')
              \<and> acquire_consume_slot_id (Suc f) e c (i + of_nat (slot_count_value g)) t g = Some (Some r', g')
              \<and> ch_slot_id r = i \<and> ch_slot_id r' = i + of_nat (slot_count_value g)
              \<and> ch_slot_index r = ch_slot_index r'))"
proof -
  let ?n = "slot_count_value g"
  have idx: "unat (x mod ucast (lay_slot_count (seg_layout g))) = unat x mod ?n" for x :: u64
    by (simp add: unat_mod slot_count_value_def)
  have empty: "acquire_consume_slot_id (Suc f) e c i t g = Some (None, g)"
    if "commit_index (seg_header g) = INVALID_SLOT_ID"
      "slot_state (seg_slots g ! (unat i mod ?n)) = FREE"
    using that assms(2)
    by (simp add: acquire_consume_slot_id_def linorder_not_less idx acquire_read_def put_header_same
        put_slot_def Let_def)
  have ok: "acquire_consume_slot_id (Suc f) e c x t g
      = Some (Some (make_slot_consume_handle_impl c g x (unat x mod ?n)
            (write_generation (seg_slots g ! (unat x mod ?n)))),
          g\<lparr>seg_slots := (seg_slots g)[unat x mod ?n := (seg_slots g ! (unat x mod ?n))
            \<lparr>reader_count := reader_count (seg_slots g ! (unat x mod ?n)) + 1\<rparr>]\<rparr>)"
    if "\<not> commit_index (seg_header g) < x"
      "slot_state (seg_slots g ! (unat x mod ?n)) = COMMITTED" for x
    using that assms
    by (simp add: acquire_consume_slot_id_def idx acquire_read_def calm_def Let_def put_slot_def
        put_header_def finish_consume_acquire_def make_slot_consume_handle_impl_def)
  have "\<exists>r r' g'. acquire_consume_slot_id (Suc f) e c i t g = Some (Some r, g')
      \<and> acquire_consume_slot_id (Suc f) e c (i + of_nat ?n) t g = Some (Some r', g')
      \<and> ch_slot_id r = i \<and> ch_slot_id r' = i + of_nat ?n \<and> ch_slot_index r = ch_slot_index r'"
    if le: "unat i + ?n \<le> unat (commit_index (seg_header g))"
      and st: "slot_state (seg_slots g ! (unat i mod ?n)) = COMMITTED"
  proof -
    have "unat (commit_index (seg_header g)) < 2 ^ 64"
      using unsigned_less [where 'a = nat, of "commit_index (seg_header g)"] by simp
    then have u: "unat (i + of_nat ?n) = unat i + ?n"
      using le by (simp add: unat_word_ariths unat_of_nat)
    then have m: "unat (i + of_nat ?n) mod ?n = unat i mod ?n"
      by simp
    show ?thesis
      using ok [of i] ok [of "i + of_nat ?n"] st u m le
      by (simp add: word_less_nat_alt linorder_not_less make_slot_consume_handle_impl_def)
  qed
  with empty show ?thesis
    by blast
qed

section \<open>Joining a synchronised ring\<close>

text \<open>A consumer at position \<open>k\<close> of a synchronised ring of one slot gets whatever the slot
  holds.\<close>

lemma sync_single_slot_take:
  assumes "calm e" and "slot_count_value g = 1" and "lay_slot_stride_bytes (seg_layout g) \<noteq> 0"
    and "consumer_sync_policy (hconfig (seg_header g)) = Sequential_sync"
    and "slot_state (seg_slots g ! 0) = COMMITTED"
    and "heartbeat_slot c = int b" and "b < 8" and "consumer_next_read_slot (seg_header g) ! b = k"
    and "k \<noteq> INVALID_SLOT_ID" and "\<not> commit_index (seg_header g) < k"
  shows "\<exists>r g'. acquire_consume_slot (Suc f) e c 0 g = Some (Some r, g') \<and> ch_slot_id r = k
    \<and> ch_slot_index r = 0 \<and> seg_buffers g' = seg_buffers g"
proof -
  have nx: "get_next_slot_to_read (seg_header g) (last_consumed_slot_id c) (heartbeat_slot c) = k"
    using assms by (simp add: get_next_slot_to_read_def MAX_CONSUMER_HEARTBEATS_def Let_def)
  show ?thesis
    using acquire_consume_slot_ok [OF assms(1) _ nx assms(9), of 0 f] assms(2,3,5,6)
    by (simp add: make_slot_consume_handle_impl_def)
qed

text \<open>The write that follows when everybody has read the only slot.\<close>

lemma single_slot_overwrite:
  assumes "segment_wf g" and "slot_count_value g = 1"
    and "consumer_sync_policy (hconfig (seg_header g)) = Sequential_sync"
    and "lay_slot_stride_bytes (seg_layout g) \<noteq> 0" and "lay_slot_checksum_size (seg_layout g) \<noteq> 0"
    and "read_index (seg_header g) = write_index (seg_header g)"
    and "write_lock (seg_slots g ! 0) = 0" and "reader_count (seg_slots g ! 0) = 0"
    and "length v = unat (lay_slot_stride_bytes (seg_layout g))"
  shows "\<exists>w g2 ok w' g4. acquire_write_slot (Suc f) e p 0 g = Some (Some w, g2)
    \<and> wh_slot_id w = write_index (seg_header g)
    \<and> release_write_handle blake2b now p (w\<lparr>wh_committed := True\<rparr>) (g2\<lparr>seg_buffers := [v]\<rparr>) = (ok, w', g4)
    \<and> seg_layout g4 = seg_layout g \<and> seg_buffers g4 = [v] \<and> slot_state (seg_slots g4 ! 0) = COMMITTED
    \<and> hconfig (seg_header g4) = hconfig (seg_header g)
    \<and> commit_index (seg_header g4) = write_index (seg_header g)
    \<and> consumer_next_read_slot (seg_header g4) = consumer_next_read_slot (seg_header g)"
proof -
  have "unat (lay_slot_count (seg_layout g)) = 1"
    using assms(2) by (simp add: slot_count_value_def)
  then have lc: "(ucast (lay_slot_count (seg_layout g)) :: u64) = 1"
    by (simp add: word_unat_eq_iff)
  let ?w = "\<lparr>wh_slot_index = 0, wh_slot_id = write_index (seg_header g),
     wh_buffer_size = lay_slot_stride_bytes (seg_layout g), wh_bytes_written = 0,
     wh_committed = False, wh_released = False\<rparr>"
  let ?g2 = "g\<lparr>seg_header := (seg_header g)\<lparr>write_index := write_index (seg_header g) + 1\<rparr>,
     seg_slots := (seg_slots g)[0 := (seg_slots g ! 0)\<lparr>write_lock := prod_pid p,
          writer_waiting := 0, slot_state := WRITING\<rparr>]\<rparr>"
  have a: "acquire_write_slot (Suc f) e p 0 g = Some (Some ?w, ?g2)"
    using acquire_write_slot_ok [of g 0 f e p] assms lc by simp
  have wf: "segment_wf (?g2\<lparr>seg_buffers := [v]\<rparr>)" and n: "slot_count_value (?g2\<lparr>seg_buffers := [v]\<rparr>) = 1"
    using assms(1,2,9) by (simp_all add: segment_wf_def slot_count_value_def)
  obtain ok w' g4 where r: "release_write_handle blake2b now p (?w\<lparr>wh_committed := True\<rparr>)
      (?g2\<lparr>seg_buffers := [v]\<rparr>) = (ok, w', g4)"
    by (metis prod_cases3)
  note E = release_write_handle_commit [OF r _ _ _ _ wf, simplified]
  have "length (seg_slots g) = 1"
    using assms(1,2) by (simp add: segment_wf_def)
  then have "slot_state (seg_slots g4 ! 0) = COMMITTED"
    using E(10) assms(5) n by simp
  then show ?thesis
    using a r E(2,3,5) assms(5) n by (simp add: hdr_same_def)
qed

text \<open>A consumer that joins a \<open>Sequential_sync\<close> ring is not protected from the start. It joins
  at the last committed slot, but \<open>read_index\<close> may already be past that slot, so the writer may reuse
  it: on a ring of one slot whose content everybody has read, the next write overwrites the slot the new
  consumer is about to read. The consumer then gets the payload of slot id \<open>k + 1\<close> under the id \<open>k\<close>,
  and once its position has advanced it gets the same payload again under its own id.\<close>

theorem sync_join_reads_newer_slot:
  assumes wf: "segment_wf g" and n: "slot_count_value g = 1"
    and pol: "consumer_sync_policy (hconfig (seg_header g)) = Sequential_sync"
    and lay: "lay_slot_stride_bytes (seg_layout g) \<noteq> 0" "lay_slot_checksum_size (seg_layout g) \<noteq> 0"
    and idx: "commit_index (seg_header g) = k" "k \<noteq> INVALID_SLOT_ID" "k + 1 \<noteq> INVALID_SLOT_ID"
      "read_index (seg_header g) = k + 1" "write_index (seg_header g) = k + 1"
    and slot: "write_lock (seg_slots g ! 0) = 0" "reader_count (seg_slots g ! 0) = 0"
    and v: "length v = unat (lay_slot_stride_bytes (seg_layout g))"
    and c: "heartbeat_slot c = int b" "b < 8" and e: "calm e"
  shows "\<exists>w g2 ok w' g4 r g5 r' g6.
      acquire_write_slot (Suc f) e p 0 (upd_header (join_read_position b) g) = Some (Some w, g2)
    \<and> wh_slot_id w = k + 1
    \<and> release_write_handle blake2b now p (w\<lparr>wh_committed := True\<rparr>) (g2\<lparr>seg_buffers := [v]\<rparr>) = (ok, w', g4)
    \<and> acquire_consume_slot (Suc f) e c 0 g4 = Some (Some r, g5)
    \<and> ch_slot_id r = k \<and> seg_buffers g5 ! ch_slot_index r = v
    \<and> acquire_consume_slot (Suc f) e c 0 (upd_header (\<lambda>h. h\<lparr>consumer_next_read_slot :=
          (consumer_next_read_slot h)[b := k + 1]\<rparr>) g4) = Some (Some r', g6)
    \<and> ch_slot_id r' = k + 1 \<and> seg_buffers g6 ! ch_slot_index r' = v"
proof -
  let ?g1 = "upd_header (join_read_position b) g"
  have l8: "length (consumer_next_read_slot (seg_header g)) = 8"
    using wf by (simp add: segment_wf_def MAX_CONSUMER_HEARTBEATS_def)
  have g1: "seg_header ?g1 = (seg_header g)\<lparr>consumer_next_read_slot := (consumer_next_read_slot (seg_header g))[b := k]\<rparr>"
    "seg_slots ?g1 = seg_slots g" "seg_layout ?g1 = seg_layout g" "slot_count_value ?g1 = 1" "segment_wf ?g1"
    using pol idx(1,2) n wf by (simp_all add: upd_header_def join_read_position_def slot_count_value_def segment_wf_def)
  obtain w g2 ok w' g4 where W: "acquire_write_slot (Suc f) e p 0 ?g1 = Some (Some w, g2)"
    "wh_slot_id w = k + 1"
    "release_write_handle blake2b now p (w\<lparr>wh_committed := True\<rparr>) (g2\<lparr>seg_buffers := [v]\<rparr>) = (ok, w', g4)"
    and G: "seg_layout g4 = seg_layout g" "seg_buffers g4 = [v]" "slot_state (seg_slots g4 ! 0) = COMMITTED"
      "hconfig (seg_header g4) = hconfig (seg_header g)" "commit_index (seg_header g4) = k + 1"
      "consumer_next_read_slot (seg_header g4) = (consumer_next_read_slot (seg_header g))[b := k]"
    using single_slot_overwrite [of ?g1 v f e p blake2b now] g1 pol lay idx slot v by auto
  have kk: "\<not> k + 1 < k"
    using unat_inc_valid [OF idx(2)] by (simp add: word_less_nat_alt)
  have n4: "slot_count_value g4 = 1"
    using G(1) n by (simp add: slot_count_value_def)
  let ?g5 = "upd_header (\<lambda>h. h\<lparr>consumer_next_read_slot := (consumer_next_read_slot h)[b := k + 1]\<rparr>) g4"
  have "\<exists>r g5. acquire_consume_slot (Suc f) e c 0 g4 = Some (Some r, g5)
      \<and> ch_slot_id r = k \<and> ch_slot_index r = 0 \<and> seg_buffers g5 = seg_buffers g4"
    by (rule sync_single_slot_take [OF e n4 _ _ G(3) c]) (use G lay(1) pol idx(2) kk l8 c(2) in auto)
  moreover have "\<exists>r g6. acquire_consume_slot (Suc f) e c 0 ?g5 = Some (Some r, g6)
      \<and> ch_slot_id r = k + 1 \<and> ch_slot_index r = 0 \<and> seg_buffers g6 = seg_buffers ?g5"
    by (rule sync_single_slot_take [OF e _ _ _ _ c])
      (use G lay(1) pol idx(3) l8 c(2) n4 in \<open>auto simp: upd_header_def slot_count_value_def\<close>)
  moreover have "seg_buffers ?g5 = [v]"
    using G(2) by (simp add: upd_header_def)
  ultimately show ?thesis
    using W G(2) by fastforce
qed

section \<open>Dead consumers\<close>

lemma check_one_consumer_fields [simp]:
  "read_index (check_one_consumer alive i h) = read_index h"
  "write_index (check_one_consumer alive i h) = write_index h"
  "commit_index (check_one_consumer alive i h) = commit_index h"
  "hconfig (check_one_consumer alive i h) = hconfig h"
  "consumer_next_read_slot (check_one_consumer alive i h) = consumer_next_read_slot h"
  "length (consumer_heartbeats (check_one_consumer alive i h)) = length (consumer_heartbeats h)"
  by (simp_all add: check_one_consumer_def Let_def)

lemma check_consumers_fields [simp]:
  "read_index (fold (check_one_consumer alive) xs h) = read_index h"
  "write_index (fold (check_one_consumer alive) xs h) = write_index h"
  "commit_index (fold (check_one_consumer alive) xs h) = commit_index h"
  "hconfig (fold (check_one_consumer alive) xs h) = hconfig h"
  "consumer_next_read_slot (fold (check_one_consumer alive) xs h) = consumer_next_read_slot h"
  "length (consumer_heartbeats (fold (check_one_consumer alive) xs h)) = length (consumer_heartbeats h)"
  by (induction xs arbitrary: h) auto

lemma check_one_consumer_alive:
  assumes "i < length (consumer_heartbeats h)"
  shows "consumer_pid (consumer_heartbeats (check_one_consumer alive i h) ! j)
    = (if j = i \<and> \<not> alive (consumer_pid (consumer_heartbeats h ! i)) then 0
       else consumer_pid (consumer_heartbeats h ! j))"
  using assms by (auto simp: check_one_consumer_def nth_list_update Let_def)

lemma check_consumers_alive:
  assumes "k \<le> length (consumer_heartbeats h)"
  shows "consumer_pid (consumer_heartbeats (fold (check_one_consumer alive) [0..<k] h) ! j)
    = (if j < k \<and> \<not> alive (consumer_pid (consumer_heartbeats h ! j)) then 0
       else consumer_pid (consumer_heartbeats h ! j))"
  using assms
proof (induction k arbitrary: j)
  case 0
  then show ?case by simp
next
  case (Suc k)
  then show ?case
    by (auto simp: check_one_consumer_alive less_Suc_eq)
qed


section \<open>Accounting of the consumer table\<close>

definition registered_consumers :: "SharedMemoryHeader \<Rightarrow> nat" where
  "registered_consumers h = length (filter (\<lambda>b. consumer_pid b \<noteq> 0) (consumer_heartbeats h))"

definition consumer_table_ok :: "SharedMemoryHeader \<Rightarrow> bool" where
  "consumer_table_ok h \<longleftrightarrow> length (consumer_heartbeats h) = MAX_CONSUMER_HEARTBEATS
     \<and> unat (active_consumer_count h) = registered_consumers h"

lemma registered_consumers_le: "consumer_table_ok h \<Longrightarrow> registered_consumers h \<le> 8"
  by (auto simp: consumer_table_ok_def registered_consumers_def MAX_CONSUMER_HEARTBEATS_def
      intro: order_trans [OF length_filter_le])

lemma first_free_heartbeat_Some:
  "first_free_heartbeat k bs = Some i \<Longrightarrow> k \<le> i \<and> i - k < length bs \<and> consumer_pid (bs ! (i - k)) = 0"
proof (induction bs arbitrary: k)
  case Nil
  then show ?case by simp
next
  case (Cons b bs)
  show ?case
  proof (cases "consumer_pid b = 0")
    case True
    then show ?thesis
      using Cons.prems by simp
  next
    case False
    then have "Suc k \<le> i \<and> i - Suc k < length bs \<and> consumer_pid (bs ! (i - Suc k)) = 0"
      using Cons by simp
    then show ?thesis
      by (auto simp: nth_Cons' Suc_diff_Suc)
  qed
qed

lemma first_free_heartbeat_None:
  "first_free_heartbeat k bs = None \<longleftrightarrow> length (filter (\<lambda>b. consumer_pid b \<noteq> 0) bs) = length bs"
proof (induction bs arbitrary: k)
  case Nil
  then show ?case by simp
next
  case (Cons b bs)
  have "length (filter (\<lambda>b. consumer_pid b \<noteq> 0) bs) \<noteq> Suc (length bs)"
    using length_filter_le [of "\<lambda>b. consumer_pid b \<noteq> 0" bs] by linarith
  then show ?case
    using Cons by simp
qed

lemma table_update_ok:
  assumes "consumer_table_ok h" and "i < 8" and "consumer_pid (consumer_heartbeats h ! i) = 0"
    and "consumer_pid b \<noteq> 0"
  shows "consumer_table_ok (h\<lparr>consumer_heartbeats := (consumer_heartbeats h)[i := b],
    active_consumer_count := active_consumer_count h + 1\<rparr>)"
proof -
  have u: "length (filter (\<lambda>b. consumer_pid b \<noteq> 0) ((consumer_heartbeats h)[i := b]))
      = registered_consumers h + 1"
    using length_filter_update [of i "consumer_heartbeats h" "\<lambda>b. consumer_pid b \<noteq> 0" b] assms
    by (simp add: registered_consumers_def consumer_table_ok_def MAX_CONSUMER_HEARTBEATS_def)
  then show ?thesis
    using assms(1) registered_consumers_le [OF assms(1)]
    by (simp add: consumer_table_ok_def registered_consumers_def unat_word_ariths)
qed

lemma table_clear_ok:
  assumes "consumer_table_ok h" and "i < 8" and "consumer_pid (consumer_heartbeats h ! i) \<noteq> 0"
    and "consumer_pid b = 0"
  shows "consumer_table_ok (h\<lparr>consumer_heartbeats := (consumer_heartbeats h)[i := b],
    active_consumer_count := active_consumer_count h - 1\<rparr>)"
proof -
  have u: "length (filter (\<lambda>b. consumer_pid b \<noteq> 0) ((consumer_heartbeats h)[i := b])) + 1
      = registered_consumers h"
    using length_filter_update [of i "consumer_heartbeats h" "\<lambda>b. consumer_pid b \<noteq> 0" b] assms
    by (simp add: registered_consumers_def consumer_table_ok_def MAX_CONSUMER_HEARTBEATS_def)
  then have "(1::u32) \<le> active_consumer_count h"
    using assms(1) by (simp add: consumer_table_ok_def word_le_nat_alt)
  then have "unat (active_consumer_count h - 1) = registered_consumers h - 1"
    using assms(1) by (simp add: consumer_table_ok_def unat_sub)
  then show ?thesis
    using assms(1) u by (simp add: consumer_table_ok_def registered_consumers_def)
qed

lemma check_health_ok:
  assumes "consumer_table_ok h" and "\<forall>i \<in> set xs. i < 8"
  shows "consumer_table_ok (fold (check_one_consumer alive) xs h)"
  using assms
proof (induction xs arbitrary: h)
  case Nil
  then show ?case by simp
next
  case (Cons i xs)
  have "consumer_table_ok (check_one_consumer alive i h)"
    using Cons.prems table_clear_ok [of h i] by (simp add: check_one_consumer_def Let_def)
  then show ?case
    using Cons by simp
qed

text \<open>C39: the table of consumers counts right. Registration succeeds exactly when one of the eight
  entries is free and takes a free entry for the caller; registering and unregistering restores who is
  registered; and registration, deregistration and the health check keep
  \<open>active_consumer_count\<close> equal to the number of taken entries.\<close>

theorem consumer_table_accounting:
  assumes "consumer_table_ok h" and "con_pid c \<noteq> 0"
    and "register_heartbeat now c h = (r, c', h')"
  shows "consumer_table_ok h' \<and> (r = - 1 \<longleftrightarrow> registered_consumers h = 8)
    \<and> (r \<noteq> - 1 \<longrightarrow> 0 \<le> r \<and> r < 8 \<and> heartbeat_slot c' = r
         \<and> consumer_pid (consumer_heartbeats h ! nat r) = 0
         \<and> consumer_pid (consumer_heartbeats h' ! nat r) = con_pid c
         \<and> (case unregister_heartbeat r c' h' of (c2, h2) \<Rightarrow> consumer_table_ok h2 \<and> heartbeat_slot c2 = - 1
              \<and> map consumer_pid (consumer_heartbeats h2) = map consumer_pid (consumer_heartbeats h)))
    \<and> consumer_table_ok (check_consumer_health alive h)"
proof -
  have len: "length (consumer_heartbeats h) = 8"
    using assms(1) by (simp add: consumer_table_ok_def MAX_CONSUMER_HEARTBEATS_def)
  have health: "consumer_table_ok (check_consumer_health alive h)"
    unfolding check_consumer_health_def
    by (rule check_health_ok [OF assms(1)]) (simp add: MAX_CONSUMER_HEARTBEATS_def)
  show ?thesis
  proof (cases "first_free_heartbeat 0 (consumer_heartbeats h)")
    case None
    then show ?thesis
      using assms(1,3) health first_free_heartbeat_None [of 0 "consumer_heartbeats h"] len
      by (auto simp: register_heartbeat_def registered_consumers_def)
  next
    case (Some i)
    then have i: "i < 8" "consumer_pid (consumer_heartbeats h ! i) = 0"
      using first_free_heartbeat_Some [OF Some] len by simp_all
    have nf: "registered_consumers h \<noteq> 8"
      using Some first_free_heartbeat_None [of 0 "consumer_heartbeats h"] len
      by (auto simp: registered_consumers_def)
    let ?b = "\<lparr>consumer_pid = con_pid c, last_heartbeat_ns = now,
                consumer_uid = consumer_uid_buf c, consumer_name = consumer_name_buf c\<rparr>"
    have R: "r = int i" "c' = c\<lparr>heartbeat_slot := int i\<rparr>"
      "h' = h\<lparr>consumer_heartbeats := (consumer_heartbeats h)[i := ?b],
           active_consumer_count := active_consumer_count h + 1\<rparr>"
      using assms(3) Some by (auto simp: register_heartbeat_def)
    have ok: "consumer_table_ok h'"
      unfolding R by (rule table_update_ok [OF assms(1) i]) (simp add: assms(2))
    have un: "unregister_heartbeat r c' h' = (c'\<lparr>heartbeat_slot := - 1\<rparr>,
        h'\<lparr>consumer_heartbeats := (consumer_heartbeats h')[i :=
             ?b\<lparr>consumer_pid := 0, consumer_uid := [], consumer_name := []\<rparr>],
          active_consumer_count := active_consumer_count h' - 1\<rparr>)"
      using i len by (simp add: unregister_heartbeat_def R MAX_CONSUMER_HEARTBEATS_def Let_def)
    have pid: "consumer_pid (consumer_heartbeats h' ! i) = con_pid c"
      using i len by (simp add: R)
    have "map consumer_pid ((consumer_heartbeats h')[i :=
             ?b\<lparr>consumer_pid := 0, consumer_uid := [], consumer_name := []\<rparr>])
        = map consumer_pid (consumer_heartbeats h)"
      using i by (simp add: R map_update list_update_same_conv len)
    then show ?thesis
      using table_clear_ok [OF ok i(1), of "?b\<lparr>consumer_pid := 0, consumer_uid := [], consumer_name := []\<rparr>"]
        ok i nf un pid health assms(2) R(1,2) by simp
  qed
qed

section \<open>Witnesses\<close>

definition demo_header :: "ConsumerSyncPolicy \<Rightarrow> SharedMemoryHeader" where
  "demo_header pol = (header_before_magic 0 demo_config demo_layout)
     \<lparr>hconfig := (header_config_of demo_config demo_layout)\<lparr>consumer_sync_policy := pol\<rparr>\<rparr>"

definition one_slot_segment :: "SharedMemoryHeader \<Rightarrow> segment" where
  "one_slot_segment h = \<lparr>seg_layout = empty_layout\<lparr>lay_slot_count := 1, lay_slot_checksum_size := 33,
       lay_slot_stride_bytes := 3\<rparr>, seg_header = h,
     seg_slots = [free_slot\<lparr>slot_state := COMMITTED, write_generation := 1\<rparr>],
     seg_checksums = [\<lparr>checksum_bytes = zero_hash, cks_is_valid = 0\<rparr>],
     seg_buffers = [[1, 2, 3]], seg_flex = []\<rparr>"

definition demo_handle :: "u64 \<Rightarrow> int \<Rightarrow> SlotConsumeHandle" where
  "demo_handle slot_id hb = \<lparr>ch_slot_index = 0, ch_slot_id = slot_id, ch_buffer_size = 3,
     ch_released = False, ch_mark_as_consumed = False, ch_captured_generation = 1,
     ch_heartbeat_slot = hb\<rparr>"

lemmas demo_simps = demo_header_def header_before_magic_def one_slot_segment_def demo_handle_def
  empty_layout_def slot_count_value_def free_slot_def

theorem sync_read_index_is_minimum_witness:
  "read_index (advance_read_position (demo_handle 5 2) (demo_header Sequential_sync)) \<le> 6
   \<and> consumer_next_read_slot (advance_read_position (demo_handle 5 2) (demo_header Sequential_sync)) ! 2 = 6"
proof -
  have "length (consumer_next_read_slot (demo_header Sequential_sync)) = 8"
    by (simp add: demo_simps MAX_CONSUMER_HEARTBEATS_def)
  then show ?thesis
    using sync_read_index_is_minimum [of "demo_header Sequential_sync" "demo_handle 5 2"]
    by (simp add: demo_handle_def demo_header_def)
qed

theorem latest_only_once_witness:
  "\<exists>ok c1 ch1 g1. release_consume_slot demo_hash demo_consumer (demo_handle 3 (- 1))
       (one_slot_segment ((demo_header Latest_only)\<lparr>commit_index := 3\<rparr>)) = (ok, c1, ch1, g1)
     \<and> get_next_slot_to_read (seg_header g1) (last_consumed_slot_id c1) (heartbeat_slot c1) = INVALID_SLOT_ID"
proof -
  let ?g = "one_slot_segment ((demo_header Latest_only)\<lparr>commit_index := 3\<rparr>)"
  obtain ok c1 ch1 g1 where r:
    "release_consume_slot demo_hash demo_consumer (demo_handle 3 (- 1)) ?g = (ok, c1, ch1, g1)"
    by (metis prod_cases4)
  obtain ok2 c2 ch2 g2 where r2: "release_consume_handle demo_hash demo_consumer
      ((demo_handle 3 (- 1))\<lparr>ch_mark_as_consumed := False\<rparr>) ?g = (ok2, c2, ch2, g2)"
    by (metis prod_cases4)
  have "get_next_slot_to_read (seg_header g1) (last_consumed_slot_id c1) (heartbeat_slot c1) = INVALID_SLOT_ID"
    using latest_only_once [OF _ _ _ r r2] by (simp add: demo_simps)
  with r show ?thesis
    by blast
qed

theorem corrupt_slot_blocks_sequential_witness:
  "\<exists>c1 ch1 g1. release_consume_slot demo_hash demo_consumer (demo_handle 0 (- 1))
       (one_slot_segment ((demo_header Sequential)\<lparr>commit_index := 0\<rparr>)) = (False, c1, ch1, g1)
     \<and> read_index (seg_header g1) = 0"
proof -
  let ?g = "one_slot_segment ((demo_header Sequential)\<lparr>commit_index := 0\<rparr>)"
  obtain ok c1 ch1 g1 where r:
    "release_consume_slot demo_hash demo_consumer (demo_handle 0 (- 1)) ?g = (ok, c1, ch1, g1)"
    by (metis prod_cases4)
  have enf: "enforced (con_checksum_policy demo_consumer) ?g"
    by (simp add: enforced_def demo_consumer_def demo_simps header_config_of_def demo_config_def
        checksum_type_u8_def)
  have "zero_hash \<noteq> demo_hash [1, 2, 3]"
    by (simp add: zero_hash_def demo_hash_def numeral_eq_Suc)
  then have "\<not> ok \<and> read_index (seg_header g1) = read_index (seg_header ?g)"
    using corrupt_slot_blocks_sequential [OF _ enf _ _ _ _ _ r] by (simp add: demo_simps)
  with r show ?thesis
    by (auto simp: demo_simps)
qed

theorem consume_by_id_unchecked_witness:
  "acquire_consume_slot_id (Suc 0) demo_env demo_consumer 0 (- 1) demo_segment = Some (None, demo_segment)"
  using consume_by_id_unchecked [OF demo_env_calm, of demo_segment 0 0 demo_consumer "- 1"]
  by (simp add: demo_segment_simps free_slot_def header_before_magic_def)

theorem sync_join_reads_newer_slot_witness:
  "\<exists>w g2 ok w' g4 r g5. acquire_write_slot (Suc 0) demo_env demo_producer 0
        (upd_header (join_read_position 0) (one_slot_segment ((demo_header Sequential_sync)
           \<lparr>commit_index := 0, read_index := 1, write_index := 1\<rparr>))) = Some (Some w, g2)
     \<and> release_write_handle demo_hash 9 demo_producer (w\<lparr>wh_committed := True\<rparr>)
          (g2\<lparr>seg_buffers := [[7, 7, 7]]\<rparr>) = (ok, w', g4)
     \<and> acquire_consume_slot (Suc 0) demo_env demo_consumer 0 g4 = Some (Some r, g5)
     \<and> wh_slot_id w = 1 \<and> ch_slot_id r = 0 \<and> seg_buffers g5 ! ch_slot_index r = [7, 7, 7]"
proof -
  let ?g = "one_slot_segment ((demo_header Sequential_sync)\<lparr>commit_index := 0, read_index := 1, write_index := 1\<rparr>)"
  have wf: "segment_wf ?g"
    by (simp add: segment_wf_def demo_simps MAX_CONSUMER_HEARTBEATS_def MAX_SHARED_SPINLOCKS_def
        MAX_FLEXIBLE_ZONE_CHECKSUMS_def)
  have "(0::u64) \<noteq> INVALID_SLOT_ID" "(1::u64) \<noteq> INVALID_SLOT_ID"
    by (simp_all add: INVALID_SLOT_ID_def)
  then show ?thesis
    using sync_join_reads_newer_slot [OF wf, of 0 "[7, 7, 7]" demo_consumer 0 demo_env 0 demo_producer demo_hash 9]
      demo_env_calm
    by (simp add: demo_simps demo_consumer_def) blast
qed


theorem consumer_table_accounting_witness:
  "\<exists>c' h'. register_heartbeat 9 demo_consumer (demo_header Sequential) = (0, c', h')
     \<and> consumer_table_ok h' \<and> active_consumer_count h' = 1"
proof -
  have ok: "consumer_table_ok (demo_header Sequential)"
    by (simp add: consumer_table_ok_def registered_consumers_def demo_simps free_consumer_heartbeat_def)
  have "\<exists>c' h'. register_heartbeat 9 demo_consumer (demo_header Sequential) = (0, c', h')
      \<and> active_consumer_count h' = 1"
    by (simp add: register_heartbeat_def demo_simps MAX_CONSUMER_HEARTBEATS_def numeral_eq_Suc
        free_consumer_heartbeat_def)
  then obtain c' h' where r: "register_heartbeat 9 demo_consumer (demo_header Sequential) = (0, c', h')"
    "active_consumer_count h' = 1"
    by blast
  have "con_pid demo_consumer \<noteq> 0"
    by (simp add: demo_consumer_def)
  from consumer_table_accounting [OF ok this r(1)] r show ?thesis
    by blast
qed

end
