(* ===== verification/Shm_Attach.thy ===== *)
theory Shm_Attach
  imports Ring_Buffer
begin

text \<open>
  Creating, finding and destroying data blocks: the factory functions at the end of
  \<open>data_block.cpp\<close>, the name space of shared-memory objects behind \<open>shm_create\<close>,
  \<open>shm_attach\<close> and \<open>shm_unlink\<close> of \<open>platform.cpp\<close>, and the packed schema version of
  \<open>schema_blds.hpp\<close>. Object identities matter: a process that has mapped an object keeps it after
  the name has been unlinked or bound to another object.
\<close>

section \<open>Schema version\<close>

record SchemaVersion =
  sv_major :: u16
  sv_minor :: u16
  sv_patch :: u16

definition pack :: "SchemaVersion \<Rightarrow> u32" where
  "pack v = (push_bit 22 (ucast (sv_major v AND 0x3FF)) OR push_bit 12 (ucast (sv_minor v AND 0x3FF)))
     OR ucast (sv_patch v AND 0xFFF)"

definition unpack :: "u32 \<Rightarrow> SchemaVersion" where
  "unpack packed = \<lparr>sv_major = ucast (drop_bit 22 packed AND 0x3FF),
     sv_minor = ucast (drop_bit 12 packed AND 0x3FF), sv_patch = ucast (packed AND 0xFFF)\<rparr>"

text \<open>Of \<open>SchemaInfo\<close> the factories use the hash and the version.\<close>

record SchemaInfo =
  sch_hash :: bytes
  sch_version :: SchemaVersion

section \<open>Name space\<close>

text \<open>An object is fresh zeroed memory of some size, or an initialised segment.\<close>

datatype shm_object = Raw u64 | Seg segment

record shm_ns =
  ns_names :: "string \<Rightarrow> nat option"
  ns_objs :: "shm_object list"

definition shm_unlink :: "string \<Rightarrow> shm_ns \<Rightarrow> shm_ns" where
  "shm_unlink name ns = ns\<lparr>ns_names := (ns_names ns)(name := None)\<rparr>"

text \<open>\<open>shm_create\<close> with \<open>SHM_CREATE_UNLINK_FIRST\<close>; \<open>os_ok\<close> says whether the system calls succeed.\<close>

definition shm_create :: "bool \<Rightarrow> string \<Rightarrow> u64 \<Rightarrow> shm_ns \<Rightarrow> nat option \<times> shm_ns" where
  "shm_create os_ok name sz ns =
     (if sz = 0 then (None, ns)
      else (let ns1 = shm_unlink name ns in
            if \<not> os_ok then (None, ns1)
            else (Some (length (ns_objs ns1)),
                  ns1\<lparr>ns_names := (ns_names ns1)(name \<mapsto> length (ns_objs ns1)),
                      ns_objs := ns_objs ns1 @ [Raw sz]\<rparr>)))"

definition shm_attach :: "string \<Rightarrow> shm_ns \<Rightarrow> nat option" where
  "shm_attach name ns = ns_names ns name"

definition put_seg :: "nat \<Rightarrow> segment \<Rightarrow> shm_ns \<Rightarrow> shm_ns" where
  "put_seg i g ns = ns\<lparr>ns_objs := (ns_objs ns)[i := Seg g]\<rparr>"

definition seg_of :: "shm_ns \<Rightarrow> nat \<Rightarrow> segment option" where
  "seg_of ns i = (if i < length (ns_objs ns)
     then (case ns_objs ns ! i of Seg g \<Rightarrow> Some g | Raw _ \<Rightarrow> None) else None)"

section \<open>Creation\<close>

text \<open>The constructor \<open>DataBlock(name, config)\<close>. The guard on the slot size comes after the object
  exists, and the name stays bound when it fails.\<close>

definition datablock_create ::
  "(bytes \<Rightarrow> bytes) \<Rightarrow> bytes \<Rightarrow> bool \<Rightarrow> u64 \<Rightarrow> pid \<Rightarrow> string \<Rightarrow> DataBlockConfig \<Rightarrow> shm_ns
   \<Rightarrow> (shm_error + nat) \<times> shm_ns" where
  "datablock_create blake2b abi os_ok now me name c ns =
     (case check_config c of
        Some e \<Rightarrow> (Inl e, ns)
      | None \<Rightarrow> (case from_config c of
          Inl e \<Rightarrow> (Inl e, ns)
        | Inr l \<Rightarrow> (case shm_create os_ok name (lay_total_size l) ns of
            (None, ns1) \<Rightarrow> (Inl Shm_map_failed, ns1)
          | (Some i, ns1) \<Rightarrow> (case init_producer_state blake2b abi now me c l of
              Inl e \<Rightarrow> (Inl e, ns1)
            | Inr hs \<Rightarrow> (Inr i, put_seg i (fresh_segment l (last hs)) ns1)))))"

text \<open>\<open>write_id_str\<close>: a string cut to the size of its char array less the terminator.\<close>

definition write_id_str :: "nat \<Rightarrow> string \<Rightarrow> string" where
  "write_id_str n s = (if length s < n then s else take (n - 1) s)"

text \<open>What the producer factories store after construction.\<close>

definition store_schemas ::
  "DataBlockConfig \<Rightarrow> SchemaInfo option \<Rightarrow> SchemaInfo option \<Rightarrow> SharedMemoryHeader
   \<Rightarrow> SharedMemoryHeader" where
  "store_schemas c fz db h =
     h\<lparr>flexzone_schema_hash := (case fz of Some s \<Rightarrow> sch_hash s | None \<Rightarrow> zero_hash),
       datablock_schema_hash := (case db of Some s \<Rightarrow> sch_hash s | None \<Rightarrow> zero_hash),
       schema_version := (case db of Some s \<Rightarrow> pack (sch_version s) | None \<Rightarrow> 0),
       hub_uid := write_id_str 40 (cfg_hub_uid c), hub_name := write_id_str 64 (cfg_hub_name c),
       producer_uid := write_id_str 40 (cfg_producer_uid c),
       producer_name := write_id_str 64 (cfg_producer_name c)\<rparr>"

definition create_datablock_producer_impl ::
  "bool \<Rightarrow> (bytes \<Rightarrow> bytes) \<Rightarrow> bytes \<Rightarrow> bool \<Rightarrow> u64 \<Rightarrow> pid \<Rightarrow> string \<Rightarrow> DataBlockConfig
   \<Rightarrow> SchemaInfo option \<Rightarrow> SchemaInfo option \<Rightarrow> shm_ns
   \<Rightarrow> (shm_error + (DataBlockProducer \<times> nat)) \<times> shm_ns" where
  "create_datablock_producer_impl ready blake2b abi os_ok now me name c fz db ns =
     (if \<not> ready then (Inl Module_not_initialized, ns)
      else (case datablock_create blake2b abi os_ok now me name c ns of
          (Inl e, ns1) \<Rightarrow> (Inl e, ns1)
        | (Inr i, ns1) \<Rightarrow>
           (Inr (\<lparr>prod_pid = me, prod_checksum_policy = cfg_checksum_policy c\<rparr>, i),
            (case seg_of ns1 i of
               Some g \<Rightarrow> put_seg i (upd_header (store_schemas c fz db) g) ns1
             | None \<Rightarrow> ns1))))"

text \<open>The variant on a borrowed descriptor: the memory behind it is freshly sized to \<open>raw_size\<close>
  bytes; there is no name.\<close>

definition create_datablock_producer_from_fd_impl ::
  "bool \<Rightarrow> (bytes \<Rightarrow> bytes) \<Rightarrow> bytes \<Rightarrow> u64 \<Rightarrow> pid \<Rightarrow> u64 \<Rightarrow> DataBlockConfig
   \<Rightarrow> SchemaInfo option \<Rightarrow> SchemaInfo option \<Rightarrow> shm_error + (DataBlockProducer \<times> segment)" where
  "create_datablock_producer_from_fd_impl ready blake2b abi now me raw_size c fz db =
     (if \<not> ready then Inl Module_not_initialized
      else (case check_config c of
         Some e \<Rightarrow> Inl e
       | None \<Rightarrow> (case from_config c of
           Inl e \<Rightarrow> Inl e
         | Inr l \<Rightarrow>
            if lay_total_size l \<noteq> 0 \<and> raw_size \<noteq> lay_total_size l then Inl Source_fd_size_mismatch
            else (case init_producer_state blake2b abi now me c l of
                Inl e \<Rightarrow> Inl e
              | Inr hs \<Rightarrow> Inr (\<lparr>prod_pid = me, prod_checksum_policy = cfg_checksum_policy c\<rparr>,
                   fresh_segment l (store_schemas c fz db (last hs)))))))"

text \<open>The destructor of a \<open>DataBlock\<close> in mode \<open>Create\<close> unlinks its name, whatever the name is bound
  to by then.\<close>

definition destroy_producer :: "string \<Rightarrow> shm_ns \<Rightarrow> shm_ns" where
  "destroy_producer name ns = shm_unlink name ns"

section \<open>Attachment\<close>

text \<open>\<open>wait_for_header_magic_valid\<close>, with the magic number read in the \<open>k\<close>-th iteration.\<close>

fun wait_for_header_magic_valid ::
  "nat \<Rightarrow> nat \<Rightarrow> (nat \<Rightarrow> u64) \<Rightarrow> (nat \<Rightarrow> u32) \<Rightarrow> u64 \<Rightarrow> int \<Rightarrow> bool option" where
  "wait_for_header_magic_valid 0 k clock magic start timeout_ms = None"
| "wait_for_header_magic_valid (Suc fuel) k clock magic start timeout_ms =
     (if is_header_magic_valid (Some (magic k)) DATABLOCK_MAGIC_NUMBER then Some True
      else if spin_elapsed_ms_exceeded (clock k) start timeout_ms then Some False
      else wait_for_header_magic_valid fuel (Suc k) clock magic start timeout_ms)"

text \<open>The attaching constructors on an object nobody else is initialising: the wait for the magic
  number ends with what the header holds.\<close>

definition datablock_attach :: "shm_object \<Rightarrow> shm_error + DataBlockLayout" where
  "datablock_attach ob = (case ob of
       Raw _ \<Rightarrow> Inl Attach_init_timeout
     | Seg g \<Rightarrow> attach_consumer_state (lay_total_size (seg_layout g))
         (if is_header_magic_valid (Some (magic_number (seg_header g))) DATABLOCK_MAGIC_NUMBER
          then Some (seg_header g) else None))"

definition count_mismatch :: "SharedMemoryHeader \<Rightarrow> SharedMemoryHeader" where
  "count_mismatch h = h\<lparr>error_metrics := (error_metrics h)\<lparr>schema_mismatch_count :=
     schema_mismatch_count (error_metrics h) + 1\<rparr>\<rparr>"

text \<open>One schema comparison: nothing expected, or a stored hash that is not all zero and equal.\<close>

definition schema_matches :: "SchemaInfo option \<Rightarrow> bytes \<Rightarrow> bool" where
  "schema_matches expected stored = (case expected of None \<Rightarrow> True
     | Some s \<Rightarrow> list_ex (\<lambda>b. b \<noteq> 0) stored \<and> stored = sch_hash s)"

text \<open>The validation all attaching factories share, in the order of the code; only mismatches of
  the ABI and of the schemas are counted.\<close>

definition attach_checks ::
  "(bytes \<Rightarrow> bytes) \<Rightarrow> bytes \<Rightarrow> DataBlockConfig option \<Rightarrow> SchemaInfo option \<Rightarrow> SchemaInfo option
   \<Rightarrow> SharedMemoryHeader \<Rightarrow> bool \<times> SharedMemoryHeader" where
  "attach_checks blake2b abi expected fz db h =
     (case validate_header_layout_hash abi h of
        Inl _ \<Rightarrow> (False, count_mismatch h)
      | Inr _ \<Rightarrow>
         if \<not> validate_attach_layout_and_config blake2b h expected then (False, h)
         else if \<not> schema_matches fz (flexzone_schema_hash h) then (False, count_mismatch h)
         else if \<not> schema_matches db (datablock_schema_hash h) then (False, count_mismatch h)
         else (case db of None \<Rightarrow> (True, h)
           | Some s \<Rightarrow> if sv_major (unpack (schema_version h)) \<noteq> sv_major (sch_version s)
                      then (False, count_mismatch h) else (True, h)))"

text \<open>The rest of the consumer factories: the identity is cut to its buffers, the heartbeat
  registered and the join position set.\<close>

definition new_consumer ::
  "pid \<Rightarrow> string option \<Rightarrow> string option \<Rightarrow> SharedMemoryHeader \<Rightarrow> DataBlockConsumer" where
  "new_consumer me uid nm h = \<lparr>con_pid = me, con_checksum_policy = checksum_policy (hconfig h),
     last_consumed_slot_id = INVALID_SLOT_ID, heartbeat_slot = -1,
     consumer_uid_buf = (case uid of None \<Rightarrow> '''' | Some u \<Rightarrow> take 39 u),
     consumer_name_buf = (case nm of None \<Rightarrow> '''' | Some n \<Rightarrow> take 31 n), checksum_errors = 0\<rparr>"

definition join_consumer ::
  "u64 \<Rightarrow> pid \<Rightarrow> string option \<Rightarrow> string option \<Rightarrow> SharedMemoryHeader
   \<Rightarrow> DataBlockConsumer \<times> SharedMemoryHeader" where
  "join_consumer now me uid nm h =
     (case register_heartbeat now (new_consumer me uid nm h) h of
        (slot, con, h1) \<Rightarrow> (con, if slot < 0 then h1 else join_read_position (nat slot) h1))"

text \<open>The factories on a mapped object. \<open>None\<close>: the header makes the attacher compute another
  layout than the creator's, so it would address the same bytes differently; the segment record does
  not describe that.\<close>

definition find_consumer_on ::
  "(bytes \<Rightarrow> bytes) \<Rightarrow> bytes \<Rightarrow> u64 \<Rightarrow> pid \<Rightarrow> DataBlockConfig option \<Rightarrow> SchemaInfo option
   \<Rightarrow> SchemaInfo option \<Rightarrow> string option \<Rightarrow> string option \<Rightarrow> shm_object
   \<Rightarrow> ((shm_error + DataBlockConsumer option) \<times> shm_object) option" where
  "find_consumer_on blake2b abi now me expected fz db uid nm ob =
     (case (datablock_attach ob, ob) of
        (Inl e, _) \<Rightarrow> Some (Inl e, ob)
      | (Inr l, Raw _) \<Rightarrow> None
      | (Inr l, Seg g) \<Rightarrow>
         if l \<noteq> seg_layout g then None
         else (case attach_checks blake2b abi expected fz db (seg_header g) of
             (False, h) \<Rightarrow> Some (Inr None, Seg (g\<lparr>seg_header := h\<rparr>))
           | (True, h) \<Rightarrow> (case join_consumer now me uid nm h of
               (con, h1) \<Rightarrow> Some (Inr (Some con), Seg (g\<lparr>seg_header := h1\<rparr>)))))"

definition find_datablock_consumer_impl ::
  "bool \<Rightarrow> (bytes \<Rightarrow> bytes) \<Rightarrow> bytes \<Rightarrow> u64 \<Rightarrow> pid \<Rightarrow> string \<Rightarrow> DataBlockConfig option
   \<Rightarrow> SchemaInfo option \<Rightarrow> SchemaInfo option \<Rightarrow> string option \<Rightarrow> string option \<Rightarrow> shm_ns
   \<Rightarrow> ((shm_error + (DataBlockConsumer \<times> nat) option) \<times> shm_ns) option" where
  "find_datablock_consumer_impl ready blake2b abi now me name expected fz db uid nm ns =
     (if \<not> ready then Some (Inl Module_not_initialized, ns)
      else (case shm_attach name ns of
          None \<Rightarrow> Some (Inl Shm_map_failed, ns)
        | Some i \<Rightarrow>
           (case find_consumer_on blake2b abi now me expected fz db uid nm (ns_objs ns ! i) of
              None \<Rightarrow> None
            | Some (Inl e, ob) \<Rightarrow> Some (Inl e, ns)
            | Some (Inr r, ob) \<Rightarrow>
                Some (Inr (map_option (\<lambda>con. (con, i)) r), ns\<lparr>ns_objs := (ns_objs ns)[i := ob]\<rparr>))))"

definition find_datablock_consumer_from_fd_impl ::
  "bool \<Rightarrow> (bytes \<Rightarrow> bytes) \<Rightarrow> bytes \<Rightarrow> u64 \<Rightarrow> pid \<Rightarrow> DataBlockConfig option \<Rightarrow> SchemaInfo option
   \<Rightarrow> SchemaInfo option \<Rightarrow> string option \<Rightarrow> string option \<Rightarrow> shm_object
   \<Rightarrow> ((shm_error + DataBlockConsumer option) \<times> shm_object) option" where
  "find_datablock_consumer_from_fd_impl ready blake2b abi now me expected fz db uid nm ob =
     (if \<not> ready then Some (Inl Module_not_initialized, ob)
      else find_consumer_on blake2b abi now me expected fz db uid nm ob)"

definition attach_datablock_as_writer_impl ::
  "bool \<Rightarrow> (bytes \<Rightarrow> bytes) \<Rightarrow> bytes \<Rightarrow> pid \<Rightarrow> string \<Rightarrow> DataBlockConfig option
   \<Rightarrow> SchemaInfo option \<Rightarrow> SchemaInfo option \<Rightarrow> shm_ns
   \<Rightarrow> ((shm_error + (DataBlockProducer \<times> nat) option) \<times> shm_ns) option" where
  "attach_datablock_as_writer_impl ready blake2b abi me name expected fz db ns =
     (if \<not> ready then Some (Inl Module_not_initialized, ns)
      else (case shm_attach name ns of
          None \<Rightarrow> Some (Inl Shm_map_failed, ns)
        | Some i \<Rightarrow>
           (case (datablock_attach (ns_objs ns ! i), ns_objs ns ! i) of
              (Inl e, _) \<Rightarrow> Some (Inl e, ns)
            | (Inr l, Raw _) \<Rightarrow> None
            | (Inr l, Seg g) \<Rightarrow>
               if l \<noteq> seg_layout g then None
               else (case attach_checks blake2b abi expected fz db (seg_header g) of
                   (ok, h) \<Rightarrow> Some (Inr (if ok then Some (\<lparr>prod_pid = me,
                          prod_checksum_policy = checksum_policy (hconfig h)\<rparr>, i) else None),
                        put_seg i (g\<lparr>seg_header := h\<rparr>) ns)))))"

text \<open>\<open>~DataBlockConsumerImpl\<close>.\<close>

definition destroy_consumer :: "DataBlockConsumer \<Rightarrow> SharedMemoryHeader \<Rightarrow> SharedMemoryHeader" where
  "destroy_consumer con h =
     (if 0 \<le> heartbeat_slot con \<and> heartbeat_slot con < int MAX_CONSUMER_HEARTBEATS
      then (let i = nat (heartbeat_slot con); b = consumer_heartbeats h ! i in
            if consumer_pid b = con_pid con
            then h\<lparr>consumer_heartbeats := (consumer_heartbeats h)[i :=
                     b\<lparr>consumer_pid := 0, consumer_uid := '''', consumer_name := ''''\<rparr>],
                   active_consumer_count := active_consumer_count h - 1\<rparr>
            else h)
      else h)"

section \<open>Version round trip\<close>

lemma mask10: "(0x3FF::'a::len word) = mask 10" and mask12: "(0xFFF::'a::len word) = mask 12"
  by (simp_all add: mask_eq_exp_minus_1)

lemma unpack_pack:
  "unpack (pack v) = \<lparr>sv_major = sv_major v AND 0x3FF, sv_minor = sv_minor v AND 0x3FF,
     sv_patch = sv_patch v AND 0xFFF\<rparr>"
proof -
  have "sv_major (unpack (pack v)) = sv_major v AND 0x3FF"
    by (rule bit_word_eqI) (auto simp: unpack_def pack_def mask10 mask12 bit_simps)
  moreover have "sv_minor (unpack (pack v)) = sv_minor v AND 0x3FF"
    by (rule bit_word_eqI) (auto simp: unpack_def pack_def mask10 mask12 bit_simps)
  moreover have "sv_patch (unpack (pack v)) = sv_patch v AND 0xFFF"
    by (rule bit_word_eqI) (auto simp: unpack_def pack_def mask10 mask12 bit_simps)
  ultimately show ?thesis by simp
qed

lemma and_mask_id_iff: "w AND mask n = w \<longleftrightarrow> unat w < 2 ^ n" for w :: "'a::len word"
  by (metis and.commute linorder_not_less mod_less take_bit_eq_mask take_bit_nat_eq_self_iff
      unsigned_take_bit_eq word_unat_eq_iff take_bit_eq_mod)

text \<open>A schema version survives the packing into the header exactly when its parts fit their
  bit fields (major and minor below 1024, patch below 4096); the code does not check that they do.\<close>

theorem schema_version_roundtrip:
  "unpack (pack v) = v \<longleftrightarrow>
     unat (sv_major v) < 1024 \<and> unat (sv_minor v) < 1024 \<and> unat (sv_patch v) < 4096"
proof -
  have "unpack (pack v) = v \<longleftrightarrow> sv_major v AND mask 10 = sv_major v
     \<and> sv_minor v AND mask 10 = sv_minor v \<and> sv_patch v AND mask 12 = sv_patch v"
    unfolding unpack_pack mask10 mask12 by (cases v) simp
  then show ?thesis by (simp add: and_mask_id_iff)
qed

section \<open>Creator and consumers\<close>

text \<open>On an object nobody is initialising the wait ends with the verdict of one look at the magic
  number, at the latest when the clock passes the timeout.\<close>

lemma wait_magic_constant:
  assumes "spin_elapsed_ms_exceeded (clock (k + n)) start timeout_ms"
  shows "wait_for_header_magic_valid (Suc n) k clock (\<lambda>_. m) start timeout_ms
    = Some (is_header_magic_valid (Some m) DATABLOCK_MAGIC_NUMBER)"
  using assms
proof (induction n arbitrary: k)
  case (Suc n)
  then have "wait_for_header_magic_valid (Suc n) (Suc k) clock (\<lambda>_. m) start timeout_ms
      = Some (is_header_magic_valid (Some m) DATABLOCK_MAGIC_NUMBER)"
    by simp
  then show ?case
    by (subst wait_for_header_magic_valid.simps) (auto split: if_splits)
qed simp

lemma datablock_create_InrD:
  assumes "datablock_create blake2b abi os now me name c ns = (Inr i, ns1)"
  obtains l h where "create_datablock blake2b abi now me c = Inr (l, h)"
    and "i = length (ns_objs ns)"
    and "ns1 = \<lparr>ns_names = (ns_names ns)(name \<mapsto> i), ns_objs = ns_objs ns @ [Seg (fresh_segment l h)]\<rparr>"
  using assms
  by (auto simp: datablock_create_def create_datablock_def shm_create_def shm_unlink_def put_seg_def Let_def
      split: option.splits sum.splits if_splits prod.splits)

lemma create_producer_InrD:
  assumes "create_datablock_producer_impl ready blake2b abi os now me name c fz db ns = (Inr (p, i), ns1)"
  obtains l h where "create_datablock blake2b abi now me c = Inr (l, h)"
    and "i = length (ns_objs ns)"
    and "ns1 = \<lparr>ns_names = (ns_names ns)(name \<mapsto> i),
           ns_objs = ns_objs ns @ [Seg (fresh_segment l (store_schemas c fz db h))]\<rparr>"
proof -
  from assms obtain ns0 where d: "datablock_create blake2b abi os now me name c ns = (Inr i, ns0)"
    and n1: "ns1 = (case seg_of ns0 i of
               Some g \<Rightarrow> put_seg i (upd_header (store_schemas c fz db) g) ns0 | None \<Rightarrow> ns0)"
    by (auto simp: create_datablock_producer_impl_def split: if_splits sum.splits prod.splits)
  from d obtain l h where "create_datablock blake2b abi now me c = Inr (l, h)"
    and i: "i = length (ns_objs ns)"
    and "ns0 = \<lparr>ns_names = (ns_names ns)(name \<mapsto> i), ns_objs = ns_objs ns @ [Seg (fresh_segment l h)]\<rparr>"
    by (rule datablock_create_InrD)
  then show ?thesis
    using n1 by (intro that [of l h]) (simp_all add: seg_of_def put_seg_def upd_header_def fresh_segment_def)
qed

lemma zero_hash_zero: "\<not> list_ex (\<lambda>b. b \<noteq> 0) zero_hash"
  by (simp add: zero_hash_def list_ex_iff)

lemma schema_matches_stored:
  "schema_matches expected (case s of Some x \<Rightarrow> sch_hash x | None \<Rightarrow> zero_hash)
     \<longleftrightarrow> (\<forall>e. expected = Some e \<longrightarrow>
           (\<exists>x. s = Some x \<and> sch_hash x = sch_hash e \<and> list_ex (\<lambda>b. b \<noteq> 0) (sch_hash x)))"
  by (cases expected; cases s) (auto simp: schema_matches_def zero_hash_zero)

lemma store_schemas_simps [simp]:
  "hconfig (store_schemas c fz db h) = hconfig h"
  "header_layout_hash (store_schemas c fz db h) = header_layout_hash h"
  "layout_checksum (store_schemas c fz db h) = layout_checksum h"
  "magic_number (store_schemas c fz db h) = magic_number h"
  "consumer_heartbeats (store_schemas c fz db h) = consumer_heartbeats h"
  "flexzone_schema_hash (store_schemas c fz db h) = (case fz of Some s \<Rightarrow> sch_hash s | None \<Rightarrow> zero_hash)"
  "datablock_schema_hash (store_schemas c fz db h) = (case db of Some s \<Rightarrow> sch_hash s | None \<Rightarrow> zero_hash)"
  "schema_version (store_schemas c fz db h) = (case db of Some s \<Rightarrow> pack (sch_version s) | None \<Rightarrow> 0)"
  by (simp_all add: store_schemas_def)

text \<open>What an attacher of a fresh block is told, and the conditions on its schemas.\<close>

definition schemas_compatible ::
  "SchemaInfo option \<Rightarrow> SchemaInfo option \<Rightarrow> SchemaInfo option \<Rightarrow> SchemaInfo option \<Rightarrow> bool" where
  "schemas_compatible fz db fz' db' \<longleftrightarrow>
     (\<forall>e. fz' = Some e \<longrightarrow> (\<exists>x. fz = Some x \<and> sch_hash x = sch_hash e \<and> list_ex (\<lambda>b. b \<noteq> 0) (sch_hash x)))
   \<and> (\<forall>e. db' = Some e \<longrightarrow> (\<exists>x. db = Some x \<and> sch_hash x = sch_hash e \<and> list_ex (\<lambda>b. b \<noteq> 0) (sch_hash x)
        \<and> unat (sv_major (sch_version e)) = unat (sv_major (sch_version x)) mod 1024))"

lemma major_eq_iff:
  "sv_major (unpack (pack v)) = m \<longleftrightarrow> unat m = unat (sv_major v) mod 1024"
proof -
  have "unat (sv_major v AND mask 10) = unat (sv_major v) mod 1024"
    using unsigned_take_bit_eq [where 'a = nat, of 10 "sv_major v"]
    by (simp add: take_bit_eq_mask [where a = "sv_major v"] take_bit_eq_mod [where a = "unat (sv_major v)"])
  then show ?thesis
    by (auto simp: unpack_pack mask10 word_unat_eq_iff)
qed

lemma attach_checks_created:
  assumes "create_datablock blake2b abi now me c = Inr (l, h)"
    and "config_fits c" and "unat (page_up (cfg_flex_zone_size c)) < 2 ^ 32"
  shows "fst (attach_checks blake2b abi (Some c) fz' db' (store_schemas c fz db h))
           = schemas_compatible fz db fz' db'"
    and "snd (attach_checks blake2b abi (Some c) fz' db' (store_schemas c fz db h))
           = (if schemas_compatible fz db fz' db' then store_schemas c fz db h
              else count_mismatch (store_schemas c fz db h))"
proof -
  let ?h = "store_schemas c fz db h"
  note C = create_datablock_InrD [OF assms(1)]
  note A = header_attaches [where h = ?h and blake2b = blake2b and abi = abi, OF C(1,2,3)]
  have v: "validate_header_layout_hash abi ?h = Inr ()" "validate_attach_layout_and_config blake2b ?h (Some c)"
    using A(2,3) C(4-6) assms(2,3) by simp_all
  have "attach_checks blake2b abi (Some c) fz' db' ?h
      = (if schemas_compatible fz db fz' db' then (True, ?h) else (False, count_mismatch ?h))"
    unfolding attach_checks_def v(1) eqTrueI [OF v(2)] sum.case store_schemas_simps
      schema_matches_stored schemas_compatible_def
    by (cases db'; cases db) (auto simp: major_eq_iff)
  then show "fst (attach_checks blake2b abi (Some c) fz' db' ?h) = schemas_compatible fz db fz' db'"
    "snd (attach_checks blake2b abi (Some c) fz' db' ?h)
       = (if schemas_compatible fz db fz' db' then ?h else count_mismatch ?h)"
    by simp_all
qed

lemma create_heartbeats:
  assumes "create_datablock blake2b abi now me c = Inr (l, h)"
  shows "consumer_heartbeats h = replicate 8 free_consumer_heartbeat"
  by (simp add: create_datablock_header [OF assms] header_before_magic_def
      update_producer_heartbeat_impl_def store_layout_checksum_def MAX_CONSUMER_HEARTBEATS_def)

lemma join_first_slot:
  assumes "consumer_heartbeats h = replicate 8 free_consumer_heartbeat"
  shows "heartbeat_slot (fst (join_consumer now me uid nm h)) = 0"
    and "con_pid (fst (join_consumer now me uid nm h)) = me"
    and "consumer_pid (consumer_heartbeats (snd (join_consumer now me uid nm h)) ! 0) = me"
  using assms
  by (simp_all add: join_consumer_def register_heartbeat_def new_consumer_def free_consumer_heartbeat_def
      numeral_eq_Suc join_read_position_def)


lemma create_producer_ok:
  assumes "create_datablock blake2b abi now me c = Inr (l, h)" and "lay_total_size l \<noteq> 0"
  shows "create_datablock_producer_impl True blake2b abi True now me name c fz db ns
    = (Inr (\<lparr>prod_pid = me, prod_checksum_policy = cfg_checksum_policy c\<rparr>, length (ns_objs ns)),
       \<lparr>ns_names = (ns_names ns)(name \<mapsto> length (ns_objs ns)),
        ns_objs = ns_objs ns @ [Seg (fresh_segment l (store_schemas c fz db h))]\<rparr>)"
proof -
  have "datablock_create blake2b abi True now me name c ns
      = (Inr (length (ns_objs ns)), \<lparr>ns_names = (ns_names ns)(name \<mapsto> length (ns_objs ns)),
           ns_objs = ns_objs ns @ [Seg (fresh_segment l h)]\<rparr>)"
    using assms
    by (auto simp: datablock_create_def create_datablock_def shm_create_def shm_unlink_def put_seg_def
        Let_def split: option.splits sum.splits)
  then show ?thesis
    by (simp add: create_datablock_producer_impl_def seg_of_def put_seg_def upd_header_def fresh_segment_def)
qed

text \<open>A producer's destructor unlinks its name even when the name belongs to a newer block.
  When a second producer re-creates a block under the same name, the first block is left to those who
  have it mapped and lookups find the second one; but the destruction of the first producer then
  unlinks the name, and the second block, still in use, cannot be found any more.\<close>

theorem stale_destructor_unlinks:
  assumes "create_datablock_producer_impl ready blake2b abi os now me name c fz db ns = (Inr (p, i), ns1)"
    and "create_datablock_producer_impl ready' blake2b abi os' now' me' name c' fz' db' ns1 = (Inr (q, j), ns2)"
  shows "i \<noteq> j \<and> seg_of ns2 i = seg_of ns1 i \<and> shm_attach name ns2 = Some j
    \<and> (let ns3 = destroy_producer name ns2 in
        seg_of ns3 j = seg_of ns2 j \<and> seg_of ns2 j \<noteq> None
        \<and> find_datablock_consumer_impl True blake2b abi now'' me'' name expected fz'' db'' uid nm ns3
            = Some (Inl Shm_map_failed, ns3))"
proof -
  from assms(1) obtain g where 1: "i = length (ns_objs ns)"
    "ns1 = \<lparr>ns_names = (ns_names ns)(name \<mapsto> i), ns_objs = ns_objs ns @ [Seg g]\<rparr>"
    by (rule create_producer_InrD) blast
  from assms(2) obtain g' where 2: "j = length (ns_objs ns1)"
    "ns2 = \<lparr>ns_names = (ns_names ns1)(name \<mapsto> j), ns_objs = ns_objs ns1 @ [Seg g']\<rparr>"
    by (rule create_producer_InrD) blast
  show ?thesis
    unfolding 2 unfolding 1
    by (simp add: seg_of_def shm_attach_def destroy_producer_def shm_unlink_def nth_append
        find_datablock_consumer_impl_def)
qed

section \<open>A concrete block\<close>

definition demo_schema :: SchemaInfo where
  "demo_schema = \<lparr>sch_hash = replicate 31 0 @ [9], sch_version = \<lparr>sv_major = 2, sv_minor = 1, sv_patch = 0\<rparr>\<rparr>"

definition empty_ns :: shm_ns where
  "empty_ns = \<lparr>ns_names = (\<lambda>_. None), ns_objs = []\<rparr>"

lemma demo_total_size: "lay_total_size demo_layout \<noteq> 0"
proof -
  have "unat (lay_structured_buffer_size demo_layout) = 512"
    using from_config_fields(3) [OF demo_layout] config_buffer_unat [OF demo_config_fits] demo_stride
    by (simp add: config_slots_def) (simp add: demo_config_def)
  then show ?thesis
    using from_config_unat(7) [OF demo_layout demo_config_fits] by (auto simp: unat_eq_0)
qed

lemma demo_flex_small: "unat (page_up (cfg_flex_zone_size demo_config)) < 2 ^ 32"
  by (simp add: demo_config_def page_up_def PAGE_ALIGNMENT_def)

lemma demo_producer_created:
  obtains p i ns1 where
    "create_datablock_producer_impl True blake2b abi True now me name demo_config fz db ns = (Inr (p, i), ns1)"
  using demo_create [of blake2b abi now me] create_producer_ok [OF _ demo_total_size] by metis


theorem stale_destructor_unlinks_witness:
  "\<exists>p i ns1 q j ns2. create_datablock_producer_impl True demo_hash [7] True 5 42 ''b'' demo_config None None
        empty_ns = (Inr (p, i), ns1)
    \<and> create_datablock_producer_impl True demo_hash [7] True 8 43 ''b'' demo_config None None ns1
        = (Inr (q, j), ns2)
    \<and> find_datablock_consumer_impl True demo_hash [7] 9 44 ''b'' None None None None None
        (destroy_producer ''b'' ns2) = Some (Inl Shm_map_failed, destroy_producer ''b'' ns2)"
proof -
  obtain p i ns1 where 1: "create_datablock_producer_impl True demo_hash [7] True 5 42 ''b'' demo_config None
        None empty_ns = (Inr (p, i), ns1)"
    by (rule demo_producer_created)
  obtain q j ns2 where 2: "create_datablock_producer_impl True demo_hash [7] True 8 43 ''b'' demo_config None
        None ns1 = (Inr (q, j), ns2)"
    by (rule demo_producer_created)
  from stale_destructor_unlinks [OF 1 2, of 9 44 None None None None None] 1 2 show ?thesis
    unfolding Let_def by blast
qed

end
