(* ===== verification/Shm_Recovery.thy ===== *)
theory Shm_Recovery
  imports Shm_Attach
begin

text \<open>
  \<open>data_block_recovery.cpp\<close>: the C functions that diagnose, reset and validate a block by name.
  Every function opens the object again by its name, so the state is the name space of
  \<open>Shm_Attach\<close>. \<open>alive\<close> is \<open>is_process_alive\<close> of the operating system, \<open>now\<close> the monotonic clock.
  The catch clauses of the C functions turn exceptions into error codes; the only calls inside that
  can throw are the factories of the integrity check.
\<close>

section \<open>Opening\<close>

datatype RecoveryResult =
  RECOVERY_SUCCESS | RECOVERY_FAILED | RECOVERY_UNSAFE | RECOVERY_NOT_STUCK | RECOVERY_INVALID_SLOT

datatype DiagnoseError =
    DIAGNOSE_OK | DIAGNOSE_INVALID_ARGS | DIAGNOSE_INTERNAL_ERR | DIAGNOSE_INVALID_INDEX
  | DIAGNOSE_RUNTIME_ERR | DIAGNOSE_UNEXPECTED

record SlotDiagnostic =
  diag_slot_id :: u64
  diag_slot_index :: u32
  diag_slot_state :: u8
  diag_write_lock :: pid
  diag_reader_count :: u32
  diag_write_generation :: u64
  diag_writer_waiting :: u8
  diag_is_stuck :: bool
  diag_stuck_duration_ms :: u64

definition map_slot_state :: "SlotState \<Rightarrow> u8" where
  "map_slot_state s = (case s of FREE \<Rightarrow> 0 | WRITING \<Rightarrow> 1 | COMMITTED \<Rightarrow> 2 | DRAINING \<Rightarrow> 3)"

text \<open>\<open>open_for_recovery\<close> over \<open>open_datablock_for_diagnostic\<close>: the object and its segment. The
  slots are located by the layout that the header describes, which for a block of this library is
  the creator's (\<open>header_attaches\<close>).\<close>

definition open_for_recovery :: "string option \<Rightarrow> shm_ns \<Rightarrow> (nat \<times> segment) option" where
  "open_for_recovery name ns = (case name of None \<Rightarrow> None
     | Some nm \<Rightarrow> (case shm_attach nm ns of None \<Rightarrow> None
         | Some i \<Rightarrow> (case seg_of ns i of None \<Rightarrow> None
             | Some g \<Rightarrow>
                if \<not> is_header_magic_valid (Some (magic_number (seg_header g))) DATABLOCK_MAGIC_NUMBER
                then None
                else (case from_header (Some (seg_header g)) of Inl _ \<Rightarrow> None | Inr _ \<Rightarrow> Some (i, g)))))"

definition set_recovery_timestamp :: "u64 \<Rightarrow> SharedMemoryHeader \<Rightarrow> SharedMemoryHeader" where
  "set_recovery_timestamp now h =
     h\<lparr>error_metrics := (error_metrics h)\<lparr>last_error_timestamp_ns := now\<rparr>\<rparr>"

definition count_recovery :: "u64 \<Rightarrow> u64 \<Rightarrow> SharedMemoryHeader \<Rightarrow> SharedMemoryHeader" where
  "count_recovery now n h = set_recovery_timestamp now
     (h\<lparr>error_metrics := (error_metrics h)\<lparr>recovery_actions_count :=
          recovery_actions_count (error_metrics h) + n\<rparr>\<rparr>)"

section \<open>Diagnosis\<close>

definition diagnose :: "(pid \<Rightarrow> bool) \<Rightarrow> u64 \<Rightarrow> SharedMemoryHeader \<Rightarrow> u32 \<Rightarrow> SlotRWState \<Rightarrow> SlotDiagnostic" where
  "diagnose alive now h i s = \<lparr>diag_slot_id = write_generation s, diag_slot_index = i,
     diag_slot_state = map_slot_state (slot_state s), diag_write_lock = write_lock s,
     diag_reader_count = reader_count s, diag_write_generation = write_generation s,
     diag_writer_waiting = writer_waiting s,
     diag_is_stuck = (write_lock s \<noteq> 0 \<and> \<not> is_writer_alive_impl alive now (Some h) (write_lock s)),
     diag_stuck_duration_ms = 0\<rparr>"

definition datablock_diagnose_slot ::
  "(pid \<Rightarrow> bool) \<Rightarrow> u64 \<Rightarrow> string option \<Rightarrow> u32 \<Rightarrow> shm_ns \<Rightarrow> DiagnoseError \<times> SlotDiagnostic option" where
  "datablock_diagnose_slot alive now name slot_index ns =
     (case open_for_recovery name ns of
        None \<Rightarrow> (DIAGNOSE_INTERNAL_ERR, None)
      | Some (_, g) \<Rightarrow>
         if slot_index \<ge> get_slot_count (Some (seg_header g)) then (DIAGNOSE_INVALID_INDEX, None)
         else (case slot_rw_state g (unat slot_index) of
             None \<Rightarrow> (DIAGNOSE_INTERNAL_ERR, None)
           | Some s \<Rightarrow> (DIAGNOSE_OK, Some (diagnose alive now (seg_header g) slot_index s))))"

text \<open>The loop of \<open>datablock_diagnose_all_slots\<close> from slot \<open>i\<close>, with the array filled so far.\<close>

function diagnose_loop ::
  "(pid \<Rightarrow> bool) \<Rightarrow> u64 \<Rightarrow> string option \<Rightarrow> nat \<Rightarrow> nat \<Rightarrow> nat \<Rightarrow> shm_ns \<Rightarrow> SlotDiagnostic list
   \<Rightarrow> SlotDiagnostic list" where
  "diagnose_loop alive now name i n array_capacity ns out =
     (if i \<ge> n then out
      else if length out < array_capacity
        then diagnose_loop alive now name (Suc i) n array_capacity ns
          (case datablock_diagnose_slot alive now name (of_nat i) ns of
             (DIAGNOSE_OK, Some d) \<Rightarrow> out @ [d] | _ \<Rightarrow> out)
      else out)"
  by pat_completeness auto

termination
  by (relation "measure (\<lambda>(alive, now, name, i, n, cap, ns, out). n - i)") auto

definition datablock_diagnose_all_slots ::
  "(pid \<Rightarrow> bool) \<Rightarrow> u64 \<Rightarrow> string option \<Rightarrow> nat \<Rightarrow> shm_ns \<Rightarrow> DiagnoseError \<times> SlotDiagnostic list" where
  "datablock_diagnose_all_slots alive now name array_capacity ns =
     (case open_for_recovery name ns of
        None \<Rightarrow> (DIAGNOSE_INTERNAL_ERR, [])
      | Some (_, g) \<Rightarrow> (DIAGNOSE_OK,
          diagnose_loop alive now name 0 (unat (get_slot_count (Some (seg_header g)))) array_capacity ns []))"

section \<open>Slot recovery\<close>

text \<open>The frame of the three functions that repair one slot: open, check the index, look at the
  slot, then the decision \<open>f\<close>, which gives the result code and, when it acts, the new slot.\<close>

definition recover_slot ::
  "u64 \<Rightarrow> (SharedMemoryHeader \<Rightarrow> SlotRWState \<Rightarrow> RecoveryResult \<times> SlotRWState option)
   \<Rightarrow> string option \<Rightarrow> u32 \<Rightarrow> shm_ns \<Rightarrow> RecoveryResult \<times> shm_ns" where
  "recover_slot now f name slot_index ns =
     (case open_for_recovery name ns of
        None \<Rightarrow> (RECOVERY_FAILED, ns)
      | Some (i, g) \<Rightarrow>
         if slot_index \<ge> get_slot_count (Some (seg_header g)) then (RECOVERY_INVALID_SLOT, ns)
         else (case slot_rw_state g (unat slot_index) of
             None \<Rightarrow> (RECOVERY_FAILED, ns)
           | Some s \<Rightarrow> (case f (seg_header g) s of
               (r, None) \<Rightarrow> (r, ns)
             | (r, Some s') \<Rightarrow> (r, put_seg i (upd_header (count_recovery now 1)
                  (put_slot (unat slot_index) s' g)) ns))))"

definition force_reset ::
  "(pid \<Rightarrow> bool) \<Rightarrow> u64 \<Rightarrow> bool \<Rightarrow> SharedMemoryHeader \<Rightarrow> SlotRWState \<Rightarrow> RecoveryResult \<times> SlotRWState option" where
  "force_reset alive now force h s =
     (if write_lock s \<noteq> 0 \<and> is_writer_alive_impl alive now (Some h) (write_lock s) \<and> \<not> force
      then (RECOVERY_UNSAFE, None)
      else if reader_count s > 0 \<and> \<not> force then (RECOVERY_UNSAFE, None)
      else (RECOVERY_SUCCESS,
            Some (s\<lparr>write_lock := 0, reader_count := 0, slot_state := FREE, writer_waiting := 0\<rparr>)))"

definition datablock_force_reset_slot ::
  "(pid \<Rightarrow> bool) \<Rightarrow> u64 \<Rightarrow> string option \<Rightarrow> u32 \<Rightarrow> bool \<Rightarrow> shm_ns \<Rightarrow> RecoveryResult \<times> shm_ns" where
  "datablock_force_reset_slot alive now name slot_index force ns =
     recover_slot now (force_reset alive now force) name slot_index ns"

definition datablock_force_reset_all_slots ::
  "(pid \<Rightarrow> bool) \<Rightarrow> u64 \<Rightarrow> string option \<Rightarrow> bool \<Rightarrow> shm_ns \<Rightarrow> RecoveryResult \<times> shm_ns" where
  "datablock_force_reset_all_slots alive now name force ns =
     (case open_for_recovery name ns of
        None \<Rightarrow> (RECOVERY_FAILED, ns)
      | Some (_, g) \<Rightarrow>
         fold (\<lambda>i (overall, ns'). case datablock_force_reset_slot alive now name (of_nat i) force ns' of
             (r, ns'') \<Rightarrow> (if r \<noteq> RECOVERY_SUCCESS \<and> overall = RECOVERY_SUCCESS then r else overall, ns''))
           [0..<unat (get_slot_count (Some (seg_header g)))] (RECOVERY_SUCCESS, ns))"

definition release_readers ::
  "(pid \<Rightarrow> bool) \<Rightarrow> u64 \<Rightarrow> bool \<Rightarrow> SharedMemoryHeader \<Rightarrow> SlotRWState \<Rightarrow> RecoveryResult \<times> SlotRWState option" where
  "release_readers alive now force h s =
     (if reader_count s = 0 then (RECOVERY_NOT_STUCK, None)
      else if \<not> force \<and> write_lock s \<noteq> 0 \<and> is_writer_alive_impl alive now (Some h) (write_lock s)
        then (RECOVERY_UNSAFE, None)
      else (RECOVERY_SUCCESS, Some (s\<lparr>reader_count := 0,
              slot_state := (if slot_state s = DRAINING then COMMITTED else slot_state s)\<rparr>)))"

definition datablock_release_zombie_readers ::
  "(pid \<Rightarrow> bool) \<Rightarrow> u64 \<Rightarrow> string option \<Rightarrow> u32 \<Rightarrow> bool \<Rightarrow> shm_ns \<Rightarrow> RecoveryResult \<times> shm_ns" where
  "datablock_release_zombie_readers alive now name slot_index force ns =
     recover_slot now (release_readers alive now force) name slot_index ns"

definition release_writer ::
  "(pid \<Rightarrow> bool) \<Rightarrow> u64 \<Rightarrow> SharedMemoryHeader \<Rightarrow> SlotRWState \<Rightarrow> RecoveryResult \<times> SlotRWState option" where
  "release_writer alive now h s =
     (if write_lock s = 0 then (RECOVERY_NOT_STUCK, None)
      else if is_writer_alive_impl alive now (Some h) (write_lock s) then (RECOVERY_UNSAFE, None)
      else (RECOVERY_SUCCESS, Some (s\<lparr>slot_state := (if slot_state s \<noteq> COMMITTED then FREE else COMMITTED),
              write_lock := 0, writer_waiting := 0\<rparr>)))"

definition datablock_release_zombie_writer ::
  "(pid \<Rightarrow> bool) \<Rightarrow> u64 \<Rightarrow> string option \<Rightarrow> u32 \<Rightarrow> shm_ns \<Rightarrow> RecoveryResult \<times> shm_ns" where
  "datablock_release_zombie_writer alive now name slot_index ns =
     recover_slot now (release_writer alive now) name slot_index ns"

section \<open>Consumer table\<close>

text \<open>One entry of the loop of \<open>datablock_cleanup_dead_consumers\<close>, with the count of cleaned
  entries.\<close>

definition clean_one ::
  "(pid \<Rightarrow> bool) \<Rightarrow> nat \<Rightarrow> u64 \<times> SharedMemoryHeader \<Rightarrow> u64 \<times> SharedMemoryHeader" where
  "clean_one alive i st = (case st of (n, h) \<Rightarrow>
     (let b = consumer_heartbeats h ! i in
      if consumer_pid b \<noteq> 0 \<and> \<not> alive (consumer_pid b)
      then (n + 1, h\<lparr>consumer_heartbeats := (consumer_heartbeats h)[i := b\<lparr>consumer_pid := 0\<rparr>],
             active_consumer_count := (if active_consumer_count h = 0 then 0
                                       else active_consumer_count h - 1)\<rparr>)
      else (n, h)))"

definition datablock_cleanup_dead_consumers ::
  "(pid \<Rightarrow> bool) \<Rightarrow> u64 \<Rightarrow> string option \<Rightarrow> shm_ns \<Rightarrow> RecoveryResult \<times> shm_ns" where
  "datablock_cleanup_dead_consumers alive now name ns =
     (case open_for_recovery name ns of
        None \<Rightarrow> (RECOVERY_FAILED, ns)
      | Some (i, g) \<Rightarrow>
         (case fold (clean_one alive) [0..<MAX_CONSUMER_HEARTBEATS] (0, seg_header g) of
            (n, h) \<Rightarrow> (RECOVERY_SUCCESS,
              put_seg i (g\<lparr>seg_header := (if n > 0 then count_recovery now n h else h)\<rparr>) ns)))"

section \<open>Integrity check\<close>

text \<open>The configuration the check builds from the header, whose checksum type holds one of its two
  values. The flexible-zone size stays at the default 0.\<close>

definition expected_config :: "string \<Rightarrow> SharedMemoryHeader \<Rightarrow> DataBlockConfig" where
  "expected_config name h = (let k = hconfig h in
     \<lparr>cfg_name = name,
      cfg_physical_page_size =
        (if physical_page_size k = 16777216 then Size16M
         else if physical_page_size k = 4194304 then Size4M else Size4K),
      cfg_logical_unit_size = (if logical_unit_size k \<noteq> 0 then ucast (logical_unit_size k)
                               else ucast (physical_page_size k)),
      cfg_ring_buffer_capacity = ring_buffer_capacity k, cfg_policy = policy k,
      cfg_consumer_sync_policy = consumer_sync_policy k,
      cfg_checksum_type = (if checksum_type k = checksum_type_u8 ChecksumType_Unset
                           then ChecksumType_Unset else BLAKE2b),
      cfg_checksum_policy = checksum_policy k, cfg_flex_zone_size = 0,
      cfg_hub_uid = '''', cfg_hub_name = '''', cfg_producer_uid = '''', cfg_producer_name = ''''\<rparr>)"

text \<open>One verification with its repair. The consumer and the diagnostic handle keep the object
  \<open>obj\<close> mapped; a repair creates a producer under the same name, which works on another object, and
  destroys it again. \<open>Inl\<close> is an exception, with the name space at that point.\<close>

definition verify_or_repair ::
  "bool \<Rightarrow> (bytes \<Rightarrow> bytes) \<Rightarrow> bytes \<Rightarrow> bool \<Rightarrow> u64 \<Rightarrow> pid \<Rightarrow> string \<Rightarrow> DataBlockConfig \<Rightarrow> bool \<Rightarrow> nat
   \<Rightarrow> (segment \<Rightarrow> bool \<times> segment) \<Rightarrow> (segment \<Rightarrow> bool \<times> segment)
   \<Rightarrow> RecoveryResult \<times> shm_ns \<Rightarrow> shm_ns + (RecoveryResult \<times> shm_ns)" where
  "verify_or_repair ready blake2b abi os_ok now me name c repair obj verify update st =
     (case st of (overall, ns) \<Rightarrow>
     (case seg_of ns obj of None \<Rightarrow> Inl ns
      | Some g \<Rightarrow> (case verify g of
          (True, g1) \<Rightarrow> Inr (overall, put_seg obj g1 ns)
        | (False, g1) \<Rightarrow>
           (let ns1 = put_seg obj g1 ns in
            if \<not> repair then Inr (RECOVERY_FAILED, ns1)
            else (case create_datablock_producer_impl ready blake2b abi os_ok now me name c None None ns1 of
                (Inl e, ns2) \<Rightarrow> Inl ns2
              | (Inr (p, j), ns2) \<Rightarrow>
                 (case seg_of ns2 j of None \<Rightarrow> Inl ns2
                  | Some g2 \<Rightarrow> (case update g2 of
                      (ok, g3) \<Rightarrow> Inr (if ok then overall else RECOVERY_FAILED,
                                     destroy_producer name (put_seg j g3 ns2)))))))))"

fun check_slots ::
  "(nat \<Rightarrow> RecoveryResult \<times> shm_ns \<Rightarrow> shm_ns + (RecoveryResult \<times> shm_ns)) \<Rightarrow> nat list
   \<Rightarrow> RecoveryResult \<times> shm_ns \<Rightarrow> shm_ns + (RecoveryResult \<times> shm_ns)" where
  "check_slots check [] st = Inr st"
| "check_slots check (i # idxs) st =
     (case check i st of Inl ns \<Rightarrow> Inl ns | Inr st' \<Rightarrow> check_slots check idxs st')"

text \<open>Which slots are verified: all after a wrap-around, else those up to the last commit.\<close>

definition slots_to_verify :: "SharedMemoryHeader \<Rightarrow> nat list" where
  "slots_to_verify h =
     (let total = slot_rw_get_total_slots_written (Some h); n = slot_rw_get_slot_count (Some h) in
      if total > 0
      then filter (\<lambda>i. total \<ge> ucast n \<or> i \<le> unat (slot_rw_get_commit_index (Some h) mod ucast n))
             [0..<unat n]
      else [])"

definition header_intact :: "(bytes \<Rightarrow> bytes) \<Rightarrow> SharedMemoryHeader \<Rightarrow> bool" where
  "header_intact blake2b h \<longleftrightarrow>
     is_header_magic_valid (Some (magic_number h)) DATABLOCK_MAGIC_NUMBER
     \<and> \<not> (version_major (hconfig h) \<noteq> HEADER_VERSION_MAJOR \<or> version_minor (hconfig h) > HEADER_VERSION_MINOR)
     \<and> validate_layout_checksum blake2b h"

text \<open>\<open>None\<close> is the case the consumer factory leaves open (\<open>Shm_Attach\<close>).\<close>

definition datablock_validate_integrity ::
  "bool \<Rightarrow> (bytes \<Rightarrow> bytes) \<Rightarrow> bytes \<Rightarrow> bool \<Rightarrow> u64 \<Rightarrow> pid \<Rightarrow> string \<Rightarrow> bool \<Rightarrow> shm_ns
   \<Rightarrow> (RecoveryResult \<times> shm_ns) option" where
  "datablock_validate_integrity ready blake2b abi os_ok now me name repair ns =
     (case open_for_recovery (Some name) ns of
        None \<Rightarrow> Some (RECOVERY_FAILED, ns)
      | Some (obj, g) \<Rightarrow>
         (let h = seg_header g; c = expected_config name h;
              overall = (if header_intact blake2b h then RECOVERY_SUCCESS else RECOVERY_FAILED);
              check = verify_or_repair ready blake2b abi os_ok now me name c repair obj
          in if checksum_type (hconfig h) = checksum_type_u8 ChecksumType_Unset then Some (overall, ns)
             else (case find_datablock_consumer_impl ready blake2b abi now me name (Some c) None None None None ns of
                 None \<Rightarrow> None
               | Some (Inl e, ns1) \<Rightarrow> Some (RECOVERY_FAILED, ns1)
               | Some (Inr None, ns1) \<Rightarrow> Some (RECOVERY_FAILED, ns1)
               | Some (Inr (Some (con, j)), ns1) \<Rightarrow>
                  (let flex = (if cfg_flex_zone_size c > 0
                         then check (verify_checksum_flexible_zone_impl blake2b True)
                                (update_checksum_flexible_zone_impl blake2b True) (overall, ns1)
                         else Inr (overall, ns1));
                       res = (case flex of Inl ns2 \<Rightarrow> Inl ns2
                         | Inr st \<Rightarrow> check_slots (\<lambda>i. check (verify_checksum_slot_impl blake2b i True)
                               (update_checksum_slot_impl blake2b i True)) (slots_to_verify h) st);
                       leave = (\<lambda>ns2. case seg_of ns2 j of None \<Rightarrow> ns2
                         | Some g2 \<Rightarrow> put_seg j (upd_header (destroy_consumer con) g2) ns2)
                   in case res of Inl ns2 \<Rightarrow> Some (RECOVERY_FAILED, leave ns2)
                      | Inr (r, ns2) \<Rightarrow> Some (r, leave ns2)))))"

section \<open>Metrics and identities by name\<close>

definition datablock_reset_metrics :: "string option \<Rightarrow> shm_ns \<Rightarrow> int \<times> shm_ns" where
  "datablock_reset_metrics name ns = (case open_for_recovery name ns of
       None \<Rightarrow> (-1, ns)
     | Some (i, g) \<Rightarrow> (case slot_rw_reset_metrics (Some (seg_header g)) of
         (r, h) \<Rightarrow> (r, put_seg i (put_header h g) ns)))"

record ConsumerIdentity =
  ci_pid :: pid
  ci_last_heartbeat_ns :: u64
  ci_slot_index :: nat
  ci_uid :: string
  ci_name :: string

definition slot_rw_list_consumers :: "SharedMemoryHeader \<Rightarrow> nat \<Rightarrow> ConsumerIdentity list" where
  "slot_rw_list_consumers h array_capacity = take array_capacity (map
     (\<lambda>i. let b = consumer_heartbeats h ! i in
        \<lparr>ci_pid = consumer_pid b, ci_last_heartbeat_ns = last_heartbeat_ns b, ci_slot_index = i,
         ci_uid = consumer_uid b, ci_name = consumer_name b\<rparr>)
     (filter (\<lambda>i. consumer_pid (consumer_heartbeats h ! i) \<noteq> 0) [0..<MAX_CONSUMER_HEARTBEATS]))"

definition datablock_list_consumers ::
  "string option \<Rightarrow> int \<Rightarrow> shm_ns \<Rightarrow> int \<times> ConsumerIdentity list" where
  "datablock_list_consumers name array_capacity ns =
     (if name = None \<or> array_capacity \<le> 0 then (-1, [])
      else (case open_for_recovery name ns of
          None \<Rightarrow> (-1, [])
        | Some (_, g) \<Rightarrow> (0, slot_rw_list_consumers (seg_header g) (nat array_capacity))))"

section \<open>What the slot recovery does\<close>

lemma recover_slot_cases:
  assumes "open_for_recovery name ns = Some (i, g)" and "segment_wf g"
    and "unat (get_slot_count (Some (seg_header g))) = slot_count_value g"
  shows "recover_slot now f name k ns =
    (if slot_count_value g \<le> unat k then (RECOVERY_INVALID_SLOT, ns)
     else (case f (seg_header g) (seg_slots g ! unat k) of
         (r, None) \<Rightarrow> (r, ns)
       | (r, Some s') \<Rightarrow> (r, put_seg i (upd_header (count_recovery now 1) (put_slot (unat k) s' g)) ns)))"
  using assms by (auto simp: recover_slot_def word_le_nat_alt slot_rw_state_def split: prod.splits option.splits)

lemma open_for_recovery_seg:
  assumes "open_for_recovery name ns = Some (i, g)"
  shows "seg_of ns i = Some g" and "i < length (ns_objs ns)"
  using assms by (auto simp: open_for_recovery_def seg_of_def split: option.splits if_splits sum.splits shm_object.splits)


text \<open>C35: releasing a zombie writer frees the lock exactly when its holder is dead. A payload the
  writer had committed stays readable; but a writer that died while it was still draining readers had
  not touched the payload of the slot, and the release makes that payload unreadable too.\<close>

theorem release_zombie_writer_outcome:
  assumes "open_for_recovery name ns = Some (i, g)" and "segment_wf g"
    and "unat (get_slot_count (Some (seg_header g))) = slot_count_value g"
    and "unat k < slot_count_value g"
    and "datablock_release_zombie_writer alive now name k ns = (r, ns')"
  defines "s \<equiv> seg_slots g ! unat k"
  shows "(r = RECOVERY_SUCCESS \<longleftrightarrow> write_lock s \<noteq> 0
            \<and> \<not> is_writer_alive_impl alive now (Some (seg_header g)) (write_lock s))
    \<and> (r \<noteq> RECOVERY_SUCCESS \<longrightarrow> ns' = ns)
    \<and> (r = RECOVERY_SUCCESS \<longrightarrow> (\<exists>g'. seg_of ns' i = Some g' \<and> seg_buffers g' = seg_buffers g
         \<and> write_lock (seg_slots g' ! unat k) = 0
         \<and> (slot_state s = COMMITTED \<longleftrightarrow>
             fst (acquire_read (\<lambda>x. x) (\<lambda>x. x) (seg_slots g' ! unat k) h) = SLOT_ACQUIRE_OK)))"
proof -
  have l: "unat k < length (seg_slots g)"
    using assms(2,4) by (simp add: segment_wf_def)
  have "seg_of (put_seg i x ns) i = Some x" for x
    using open_for_recovery_seg(2) [OF assms(1)] by (simp add: put_seg_def seg_of_def)
  moreover have "recover_slot now (release_writer alive now) name k ns = (r, ns')"
    using assms(5) by (simp add: datablock_release_zombie_writer_def)
  moreover have "fst (acquire_read (\<lambda>x. x) (\<lambda>x. x) x h) = SLOT_ACQUIRE_OK \<longleftrightarrow> slot_state x = COMMITTED" for x
    by (simp add: acquire_read_def Let_def)
  ultimately show ?thesis
    unfolding recover_slot_cases [OF assms(1-3)] using assms(4) l
    by (auto simp: release_writer_def upd_header_def put_slot_def simp flip: s_def split: if_splits)
qed

text \<open>C38: releasing "zombie" readers needs no force and no dead reader. The readers of a slot are not
  known, so on a committed slot with a free lock the call succeeds while a reader is still reading. When
  that reader releases, the counter wraps below zero, and from then on a writer that waits for the
  readers of this slot waits for ever.\<close>

theorem zombie_reader_release_wedges_slot:
  assumes "open_for_recovery name ns = Some (i, g)" and "segment_wf g"
    and "unat (get_slot_count (Some (seg_header g))) = slot_count_value g"
    and "unat k < slot_count_value g" and "write_lock (seg_slots g ! unat k) = 0"
    and "reader_count (seg_slots g ! unat k) \<noteq> 0"
  shows "\<exists>ns' g'. datablock_release_zombie_readers alive now name k False ns = (RECOVERY_SUCCESS, ns')
    \<and> seg_of ns' i = Some g'
    \<and> (case release_read (seg_slots g' ! unat k) h of (s, h') \<Rightarrow>
         unat (reader_count s) = 2 ^ 32 - 1 \<and> (\<forall>fuel. acquire_write fuel quiet_env me t True s h' = None))"
proof -
  let ?s = "seg_slots g ! unat k"
  let ?s1 = "?s\<lparr>reader_count := 0, slot_state := (if slot_state ?s = DRAINING then COMMITTED else slot_state ?s)\<rparr>"
  let ?g1 = "upd_header (count_recovery now 1) (put_slot (unat k) ?s1 g)"
  have "datablock_release_zombie_readers alive now name k False ns = (RECOVERY_SUCCESS, put_seg i ?g1 ns)"
    unfolding datablock_release_zombie_readers_def recover_slot_cases [OF assms(1-3)]
    using assms(4-6) by (simp add: release_readers_def)
  moreover have "seg_of (put_seg i ?g1 ns) i = Some ?g1"
    using open_for_recovery_seg(2) [OF assms(1)] by (simp add: put_seg_def seg_of_def)
  moreover have "seg_slots ?g1 ! unat k = ?s1"
    using assms(2,4) by (simp add: segment_wf_def upd_header_def put_slot_def)
  moreover have "acquire_write fuel quiet_env me t True s h = None"
    if "write_lock s = 0" "reader_count s \<noteq> 0" for fuel s h
    using drain_hold_stuck [OF that] by simp
  ultimately show ?thesis
    using assms(5)
    by (intro exI conjI) (auto simp: release_read_def unsigned_minus_1_eq_mask mask_eq_exp_minus_1)
qed

section \<open>A concrete block\<close>

definition plain_config :: DataBlockConfig where
  "plain_config = demo_config\<lparr>cfg_flex_zone_size := 0\<rparr>"

definition plain_layout :: DataBlockLayout where
  "plain_layout = (case from_config plain_config of Inr l \<Rightarrow> l | Inl _ \<Rightarrow> empty_layout)"

definition plain_header :: SharedMemoryHeader where
  "plain_header = (case create_datablock demo_hash [7] 5 42 plain_config of Inr (l, h) \<Rightarrow> h
     | Inl _ \<Rightarrow> header_before_magic 0 plain_config plain_layout)"

text \<open>A block with the state \<open>s\<close> in its first slot, alone in the name space.\<close>

definition plain_block :: "SlotRWState \<Rightarrow> segment" where
  "plain_block s = put_slot 0 s (fresh_segment plain_layout plain_header)"

definition demo_ns :: "segment \<Rightarrow> shm_ns" where
  "demo_ns g = \<lparr>ns_names = [''b'' \<mapsto> 0], ns_objs = [Seg g]\<rparr>"

lemma plain_config_facts:
  "check_config plain_config = None" "config_fits plain_config"
  "effective_logical_unit_size plain_config = 128" "cfg_flex_zone_size plain_config = 0"
  "from_config plain_config = Inr plain_layout"
proof -
  show "check_config plain_config = None"
    by (simp add: check_config_def plain_config_def demo_config_def)
  show e: "effective_logical_unit_size plain_config = 128" "cfg_flex_zone_size plain_config = 0"
    by (simp_all add: effective_logical_unit_size_def plain_config_def demo_config_def cache_line_up_def)
  have "config_slots plain_config = config_slots demo_config"
    by (simp add: config_slots_def plain_config_def)
  then show "config_fits plain_config"
    using demo_config_fits e demo_stride by (simp add: config_fits_def) (simp add: plain_config_def)
  obtain l where "from_config plain_config = Inr l"
    by (rule from_config_total)
  then show "from_config plain_config = Inr plain_layout"
    by (simp add: plain_layout_def)
qed

lemma plain_created: "create_datablock demo_hash [7] 5 42 plain_config = Inr (plain_layout, plain_header)"
  by (simp add: plain_header_def create_datablock_def plain_config_facts init_producer_state_def Let_def)

lemma plain_heartbeat: "producer_heartbeat_id plain_header = 42"
  by (simp add: create_datablock_header [OF plain_created] update_producer_heartbeat_impl_def)

lemma plain_slot_count: "lay_slot_count plain_layout = 4" "lay_slot_stride_bytes plain_layout = 128"
  using from_config_fields(1,2) [OF plain_config_facts(5)] plain_config_facts(3)
  by (simp_all add: config_slots_def plain_config_def demo_config_def)

lemma plain_block_facts:
  "segment_wf (plain_block s)" "slot_count_value (plain_block s) = 4"
  "unat (get_slot_count (Some (seg_header (plain_block s)))) = slot_count_value (plain_block s)"
  "seg_slots (plain_block s) ! 0 = s" "seg_header (plain_block s) = plain_header"
proof -
  have a: "length (consumer_heartbeats plain_header) = 8" "length (consumer_next_read_slot plain_header) = 8"
    "length (spinlock_states plain_header) = 8" "length (flexible_zone_checksums plain_header) = 8"
    by (simp_all add: create_datablock_header [OF plain_created] header_before_magic_def
        update_producer_heartbeat_impl_def store_layout_checksum_def MAX_CONSUMER_HEARTBEATS_def
        MAX_SHARED_SPINLOCKS_def MAX_FLEXIBLE_ZONE_CHECKSUMS_def)
  show "segment_wf (plain_block s)"
    by (simp add: segment_wf_def plain_block_def put_slot_def fresh_segment_def slot_count_value_def
        plain_slot_count a MAX_CONSUMER_HEARTBEATS_def MAX_SHARED_SPINLOCKS_def MAX_FLEXIBLE_ZONE_CHECKSUMS_def)
  show h: "seg_header (plain_block s) = plain_header" and c: "slot_count_value (plain_block s) = 4"
    by (simp_all add: plain_block_def put_slot_def fresh_segment_def slot_count_value_def plain_slot_count)
  show "seg_slots (plain_block s) ! 0 = s"
    by (simp add: plain_block_def put_slot_def fresh_segment_def plain_slot_count)
  have "hconfig plain_header = header_config_of plain_config plain_layout"
    by (rule create_datablock_InrD(4) [OF plain_created])
  then show "unat (get_slot_count (Some (seg_header (plain_block s)))) = slot_count_value (plain_block s)"
    unfolding h c by (simp add: get_slot_count_def header_config_of_def plain_config_def demo_config_def)
qed

lemma demo_ns_opens:
  assumes "magic_number (seg_header g) = DATABLOCK_MAGIC_NUMBER"
    and "hconfig (seg_header g) = header_config_of plain_config plain_layout"
  shows "open_for_recovery (Some ''b'') (demo_ns g) = Some (0, g)"
proof -
  have "unat (flexible_zone_size (hconfig (seg_header g))) = 0"
    using from_config_fields(4) [OF plain_config_facts(5)] plain_config_facts(4)
    by (simp add: assms(2) header_config_of_def page_up_def PAGE_ALIGNMENT_def)
  then have z: "flexible_zone_size (hconfig (seg_header g)) = 0"
    by (simp add: unat_eq_0)
  have "\<exists>l. from_header (Some (seg_header g)) = Inr l"
    unfolding from_header_def Let_def option.case z by (rule layout_of_never_throws) simp
  then show ?thesis
    using assms(1) by (auto simp: open_for_recovery_def shm_attach_def seg_of_def demo_ns_def is_header_magic_valid_def)
qed

lemma plain_opens: "open_for_recovery (Some ''b'') (demo_ns (plain_block s)) = Some (0, plain_block s)"
  using create_datablock_InrD(4,7) [OF plain_created] by (intro demo_ns_opens) (simp_all add: plain_block_facts)


theorem release_zombie_writer_outcome_witness:
  "\<exists>ns' g'. datablock_release_zombie_writer (\<lambda>_. False) 9 (Some ''b'') 0
      (demo_ns (plain_block (free_slot\<lparr>write_lock := 7, slot_state := DRAINING\<rparr>))) = (RECOVERY_SUCCESS, ns')
    \<and> seg_of ns' 0 = Some g'
    \<and> fst (acquire_read (\<lambda>x. x) (\<lambda>x. x) (seg_slots g' ! 0) None) \<noteq> SLOT_ACQUIRE_OK"
proof -
  let ?s = "free_slot\<lparr>write_lock := 7, slot_state := DRAINING\<rparr>"
  have w: "\<not> is_writer_alive_impl (\<lambda>_. False) 9 (Some plain_header) 7"
    by (simp add: is_writer_alive_impl_def is_producer_heartbeat_fresh_def plain_heartbeat)
  obtain r ns' where r: "datablock_release_zombie_writer (\<lambda>_. False) 9 (Some ''b'') 0 (demo_ns (plain_block ?s)) = (r, ns')"
    by fastforce
  from release_zombie_writer_outcome [OF plain_opens plain_block_facts(1,3) _ r, of None] w r show ?thesis
    by (auto simp: plain_block_facts free_slot_def)
qed

theorem zombie_reader_release_wedges_slot_witness:
  "\<exists>ns' g'. datablock_release_zombie_readers (\<lambda>_. True) 9 (Some ''b'') 0 False
      (demo_ns (plain_block (free_slot\<lparr>slot_state := COMMITTED, reader_count := 1\<rparr>))) = (RECOVERY_SUCCESS, ns')
    \<and> seg_of ns' 0 = Some g'
    \<and> (\<forall>fuel. acquire_write fuel quiet_env 42 100 True (fst (release_read (seg_slots g' ! 0) None))
          (snd (release_read (seg_slots g' ! 0) None)) = None)"
proof -
  have "unat (0::u32) < slot_count_value (plain_block (free_slot\<lparr>slot_state := COMMITTED, reader_count := 1\<rparr>))"
    by (simp add: plain_block_facts)
  from zombie_reader_release_wedges_slot [OF plain_opens plain_block_facts(1,3) this,
      where alive = "\<lambda>_. True" and now = 9 and h = None and me = 42 and t = 100]
  show ?thesis
    by (simp add: plain_block_facts free_slot_def case_prod_beta) blast
qed

end
