(* ===== verification/Shm_Integrity.thy ===== *)
theory Shm_Integrity
  imports Shm_Recovery
begin

text \<open>
  What the integrity check of \<open>data_block_recovery.cpp\<close> says about a healthy block and what its
  repair mode does to a damaged one.
\<close>

section \<open>The configuration the check expects\<close>

lemma expected_of_created:
  fixes name :: string
  assumes "check_config c = None" and "config_fits c"
    and "unat (effective_logical_unit_size c) < 2 ^ 32" and "hconfig h = header_config_of c l"
  defines "e \<equiv> expected_config name h"
  shows "effective_logical_unit_size e = effective_logical_unit_size c"
    and "cfg_physical_page_size e = cfg_physical_page_size c"
    and "cfg_ring_buffer_capacity e = cfg_ring_buffer_capacity c"
    and "cfg_checksum_type e = cfg_checksum_type c"
    and "cfg_flex_zone_size e = 0" and "check_config e = None" and "config_fits e"
proof -
  have pg: "cfg_physical_page_size c \<noteq> PageSize_Unset"
    and ct: "cfg_checksum_type c = BLAKE2b"
    using assms(1) by (auto simp: check_config_def split: if_splits) (metis ChecksumType.exhaust)
  note S = stride_pos [OF pg assms(2)]
  have r: "(ucast (ucast (effective_logical_unit_size c) :: u32) :: u64) = effective_logical_unit_size c"
    using assms(3) by (rule ucast_u64_u32_u64)
  have lu: "cfg_logical_unit_size e = effective_logical_unit_size c"
    using S(2) r by (auto simp: e_def expected_config_def Let_def assms(4) header_config_of_def unat_gt_0)
  have "cache_line_up (effective_logical_unit_size c) = effective_logical_unit_size c"
    using S(1) assms(3) by (intro line.up_fix) simp_all
  then show eff: "effective_logical_unit_size e = effective_logical_unit_size c"
    using S(2) by (auto simp: effective_logical_unit_size_def [of e] lu unat_gt_0)
  show pe: "cfg_physical_page_size e = cfg_physical_page_size c"
    using pg by (cases "cfg_physical_page_size c")
      (simp_all add: e_def expected_config_def Let_def assms(4) header_config_of_def to_bytes_def)
  show cap: "cfg_ring_buffer_capacity e = cfg_ring_buffer_capacity c"
    and fz: "cfg_flex_zone_size e = 0"
    by (simp_all add: e_def expected_config_def Let_def assms(4) header_config_of_def)
  show ct': "cfg_checksum_type e = cfg_checksum_type c"
    by (simp add: e_def expected_config_def Let_def assms(4) header_config_of_def ct checksum_type_u8_def)
  show "check_config e = None"
    using assms(1) pe cap ct'
    by (simp add: check_config_def e_def expected_config_def Let_def assms(4) header_config_of_def split: if_splits)
  have "config_slots e = config_slots c"
    by (simp add: config_slots_def cap)
  then show "config_fits e"
    using assms(2,3) by (simp add: config_fits_def eff lu fz)
qed

lemma flex_zero_iff:
  assumes "config_fits c"
  shows "page_up (cfg_flex_zone_size c) = 0 \<longleftrightarrow> cfg_flex_zone_size c = 0"
proof -
  have "unat (cfg_flex_zone_size c) + 4096 \<le> 2 ^ 64"
    using assms by (simp add: config_fits_def)
  then have "unat (cfg_flex_zone_size c) \<le> unat (page_up (cfg_flex_zone_size c))"
    by (rule page.up_ge)
  moreover have "page_up 0 = 0"
    by (simp add: page_up_def PAGE_ALIGNMENT_def)
  ultimately show ?thesis
    by (metis le_zero_eq unat_eq_0)
qed

lemma validate_expected_iff:
  assumes "check_config c = None" and "from_config c = Inr l"
    and "unat (effective_logical_unit_size c) < 2 ^ 32"
    and "hconfig h = header_config_of c l"
    and "layout_checksum h = blake2b (layout_checksum_fill (header_config_of c l))"
    and "config_fits c" and "unat (page_up (cfg_flex_zone_size c)) < 2 ^ 32"
  shows "validate_attach_layout_and_config blake2b h (Some (expected_config name h))
    \<longleftrightarrow> cfg_flex_zone_size c = 0"
proof -
  note E = expected_of_created [OF assms(1,6,3,4), of name]
  have v: "validate_attach_layout_and_config blake2b h (Some c)"
    using header_attaches(3) [where blake2b = blake2b, OF assms(1-4) refl assms(5-7)] .
  have "page_up 0 = 0"
    by (simp add: page_up_def PAGE_ALIGNMENT_def)
  then show ?thesis
    using v E flex_zero_iff [OF assms(6)]
    by (auto simp: validate_attach_layout_and_config_def)
qed

section \<open>A healthy block\<close>

lemma created_block_opens:
  assumes "create_datablock_producer_impl ready blake2b abi os now me name c fz db ns = (Inr (p, i), ns1)"
    and "config_fits c" and "unat (page_up (cfg_flex_zone_size c)) < 2 ^ 32"
  obtains l h where "create_datablock blake2b abi now me c = Inr (l, h)"
    and "open_for_recovery (Some name) ns1 = Some (i, fresh_segment l (store_schemas c fz db h))"
    and "ns_names ns1 name = Some i"
    and "ns_objs ns1 ! i = Seg (fresh_segment l (store_schemas c fz db h))"
    and "i < length (ns_objs ns1)"
proof -
  from assms(1) obtain l h where cr: "create_datablock blake2b abi now me c = Inr (l, h)"
    and i: "i = length (ns_objs ns)"
    and ns1: "ns1 = \<lparr>ns_names = (ns_names ns)(name \<mapsto> i),
           ns_objs = ns_objs ns @ [Seg (fresh_segment l (store_schemas c fz db h))]\<rparr>"
    by (rule create_producer_InrD)
  let ?h = "store_schemas c fz db h"
  note C = create_datablock_InrD [OF cr]
  have "attach_consumer_state (lay_total_size l) (Some ?h) = Inr l"
    using header_attaches(1) [where h = ?h and blake2b = blake2b, OF C(1,2,3)] C assms(2,3) by simp
  then have "from_header (Some ?h) = Inr l"
    by (simp add: attach_consumer_state_def split: if_splits)
  then have "open_for_recovery (Some name) ns1 = Some (i, fresh_segment l ?h)"
    using C(7) by (simp add: open_for_recovery_def shm_attach_def ns1 i seg_of_def fresh_segment_def
        is_header_magic_valid_def)
  with cr that [of l h] show ?thesis
    by (simp add: ns1 i)
qed

lemma created_header_intact:
  assumes "create_datablock blake2b abi now me c = Inr (l, h)"
  shows "header_intact blake2b (store_schemas c fz db h)"
    and "checksum_type (hconfig (store_schemas c fz db h)) \<noteq> checksum_type_u8 ChecksumType_Unset"
    and "slots_to_verify (store_schemas c fz db h) = []"
proof -
  note C = create_datablock_InrD [OF assms]
  show "header_intact blake2b (store_schemas c fz db h)"
    by (simp add: header_intact_def C is_header_magic_valid_def header_config_of_def validate_layout_checksum_def)
  have "cfg_checksum_type c = BLAKE2b"
    using C(1) by (auto simp: check_config_def split: if_splits) (metis ChecksumType.exhaust)
  then show "checksum_type (hconfig (store_schemas c fz db h)) \<noteq> checksum_type_u8 ChecksumType_Unset"
    by (simp add: C header_config_of_def checksum_type_u8_def)
  have "total_slots_written (perf_metrics h) = 0"
    by (simp add: create_datablock_header [OF assms] header_before_magic_def zero_perf_metrics_def
        update_producer_heartbeat_impl_def store_layout_checksum_def)
  then show "slots_to_verify (store_schemas c fz db h) = []"
    by (simp add: slots_to_verify_def slot_rw_get_total_slots_written_def store_schemas_def)
qed

text \<open>C36: the integrity check passes a block that was just created exactly when it has no flexible
  zone. For a block with a flexible zone it builds an expected configuration without one, so its own
  consumer is refused and every healthy block is reported as damaged.\<close>

theorem integrity_passes_iff_no_flexzone:
  assumes "create_datablock_producer_impl ready blake2b abi os now me name c fz db ns = (Inr (p, i), ns1)"
    and "config_fits c" and "unat (page_up (cfg_flex_zone_size c)) < 2 ^ 32"
  shows "\<exists>r ns2. datablock_validate_integrity True blake2b abi os' now' me' name repair ns1 = Some (r, ns2)
    \<and> (r = RECOVERY_SUCCESS \<longleftrightarrow> cfg_flex_zone_size c = 0)"
proof -
  obtain l h where cr: "create_datablock blake2b abi now me c = Inr (l, h)"
    and op: "open_for_recovery (Some name) ns1 = Some (i, fresh_segment l (store_schemas c fz db h))"
    and at: "ns_names ns1 name = Some i"
    and ob: "ns_objs ns1 ! i = Seg (fresh_segment l (store_schemas c fz db h))" and il: "i < length (ns_objs ns1)"
    by (rule created_block_opens [OF assms])
  let ?h = "store_schemas c fz db h"
  let ?e = "expected_config name ?h"
  note C = create_datablock_InrD [OF cr]
  note I = created_header_intact [OF cr, of fz db]
  have att: "datablock_attach (Seg (fresh_segment l ?h)) = Inr l"
    and abi: "validate_header_layout_hash abi ?h = Inr ()"
    using header_attaches(1,2) [where h = ?h and blake2b = blake2b and abi = abi, OF C(1,2,3)] C assms(2,3)
    by (simp_all add: datablock_attach_def fresh_segment_def is_header_magic_valid_def)
  have v: "validate_attach_layout_and_config blake2b ?h (Some ?e) \<longleftrightarrow> cfg_flex_zone_size c = 0"
    using validate_expected_iff [where h = ?h and blake2b = blake2b, OF C(1,2,3)] C assms(2,3) by simp
  have ck: "attach_checks blake2b abi (Some ?e) None None ?h = (cfg_flex_zone_size c = 0, ?h)"
    by (simp add: attach_checks_def abi v schema_matches_def)
  obtain con h1 where j: "join_consumer now' me' None None ?h = (con, h1)"
    by fastforce
  have "find_consumer_on blake2b abi now' me' (Some ?e) None None None None (Seg (fresh_segment l ?h))
      = Some (if cfg_flex_zone_size c = 0
          then (Inr (Some con), Seg ((fresh_segment l ?h)\<lparr>seg_header := h1\<rparr>))
          else (Inr None, Seg (fresh_segment l ?h)))"
    unfolding find_consumer_on_def att by (simp add: ck j) (simp add: fresh_segment_def ck j)
  then have f: "\<exists>ns2. find_datablock_consumer_impl True blake2b abi now' me' name (Some ?e) None None None None ns1
      = Some (Inr (if cfg_flex_zone_size c = 0 then Some (con, i) else None), ns2)"
    by (simp add: find_datablock_consumer_impl_def shm_attach_def at ob)
  have hd: "seg_header (fresh_segment l ?h) = ?h"
    by (simp add: fresh_segment_def)
  have e0: "cfg_flex_zone_size ?e = 0"
    by (simp add: expected_config_def Let_def)
  from f obtain ns2 where f: "find_datablock_consumer_impl True blake2b abi now' me' name (Some ?e)
      None None None None ns1 = Some (Inr (if cfg_flex_zone_size c = 0 then Some (con, i) else None), ns2)" ..
  show ?thesis
    unfolding datablock_validate_integrity_def op
    by (cases "cfg_flex_zone_size c = 0") (simp_all add: hd f I [simplified] e0 Let_def)
qed

section \<open>Repair\<close>

text \<open>A block without flexible zone whose header is what the creator of the configuration \<open>c\<close>
  wrote.\<close>

definition healthy_block :: "(bytes \<Rightarrow> bytes) \<Rightarrow> bytes \<Rightarrow> DataBlockConfig \<Rightarrow> segment \<Rightarrow> bool" where
  "healthy_block blake2b abi c g \<longleftrightarrow> check_config c = None \<and> from_config c = Inr (seg_layout g)
     \<and> unat (effective_logical_unit_size c) < 2 ^ 32 \<and> config_fits c \<and> cfg_flex_zone_size c = 0
     \<and> hconfig (seg_header g) = header_config_of c (seg_layout g)
     \<and> header_layout_hash (seg_header g) = abi
     \<and> layout_checksum (seg_header g) = blake2b (layout_checksum_fill (header_config_of c (seg_layout g)))
     \<and> magic_number (seg_header g) = DATABLOCK_MAGIC_NUMBER \<and> segment_wf g"

lemma healthy_blockD:
  assumes "healthy_block blake2b abi c g"
  shows "check_config c = None" "from_config c = Inr (seg_layout g)"
    "unat (effective_logical_unit_size c) < 2 ^ 32" "config_fits c" "cfg_flex_zone_size c = 0"
    "hconfig (seg_header g) = header_config_of c (seg_layout g)"
    "header_layout_hash (seg_header g) = abi"
    "layout_checksum (seg_header g) = blake2b (layout_checksum_fill (header_config_of c (seg_layout g)))"
    "magic_number (seg_header g) = DATABLOCK_MAGIC_NUMBER" "segment_wf g"
  using assms by (simp_all add: healthy_block_def)

lemma page_up_0 [simp]: "page_up 0 = 0"
  by (simp add: page_up_def PAGE_ALIGNMENT_def)

lemma config_total_size:
  assumes "from_config c = Inr l" and "config_fits c" and "check_config c = None"
  shows "lay_total_size l \<noteq> 0" and "lay_slot_checksum_size l \<noteq> 0"
proof -
  have pg: "cfg_physical_page_size c \<noteq> PageSize_Unset" and ct: "cfg_checksum_type c \<noteq> ChecksumType_Unset"
    using assms(3) by (auto simp: check_config_def split: if_splits)
  have "0 < unat (config_structured_buffer_size c)"
    using config_buffer_unat [OF assms(2)] config_slots_pos [of c] stride_pos(2) [OF pg assms(2)] by simp
  then show "lay_total_size l \<noteq> 0"
    using from_config_unat(7) [OF assms(1,2)] from_config_fields(3) [OF assms(1)] by (auto simp: unat_eq_0)
  show "lay_slot_checksum_size l \<noteq> 0"
    using from_config_unat(3) [OF assms(1,2)] ct config_slots_pos [of c] by (auto simp: unat_eq_0)
qed

lemma expected_creates:
  fixes name :: string
  assumes "healthy_block blake2b abi c g"
  defines "e \<equiv> expected_config name (seg_header g)"
  obtains l h where "create_datablock blake2b abi now me e = Inr (l, h)" and "lay_total_size l \<noteq> 0"
    and "lay_slot_checksum_size l \<noteq> 0" and "unat (lay_slot_count l) = slot_count_value g"
proof -
  note H = healthy_blockD [OF assms(1)]
  note E = expected_of_created [OF H(1,4,3,6), of name, folded e_def]
  obtain l where l: "from_config e = Inr l"
    by (rule from_config_total)
  have "\<not> effective_logical_unit_size e > 0xFFFFFFFF"
    using H(3) E(1) by (simp add: word_less_nat_alt)
  then obtain h where "create_datablock blake2b abi now me e = Inr (l, h)"
    by (simp add: create_datablock_def E l init_producer_state_def Let_def)
  moreover have "unat (lay_slot_count l) = slot_count_value g"
    using from_config_fields(1) [OF l] from_config_fields(1) [OF H(2)] E(3)
    by (simp add: slot_count_value_def config_slots_def)
  ultimately show ?thesis
    using that config_total_size [OF l E(7,6)] by blast
qed

lemma repair_step:
  assumes "healthy_block blake2b abi c g0" and "seg_of ns obj = Some g" and "i < slot_count_value g0"
  defines "v \<equiv> verify_checksum_slot_impl blake2b i True g"
  shows "\<exists>ns'. verify_or_repair True blake2b abi True now me name (expected_config name (seg_header g0)) True obj
      (verify_checksum_slot_impl blake2b i True) (update_checksum_slot_impl blake2b i True) (r, ns)
      = Inr (r, ns')
    \<and> seg_of ns' obj = Some (snd v) \<and> ns_names ns' name = (if fst v then ns_names ns name else None)"
proof -
  obtain l h where L: "create_datablock blake2b abi now me (expected_config name (seg_header g0)) = Inr (l, h)"
    "lay_total_size l \<noteq> 0" "lay_slot_checksum_size l \<noteq> 0" "unat (lay_slot_count l) = slot_count_value g0"
    by (rule expected_creates [OF assms(1)])
  have ob: "obj < length (ns_objs ns)"
    using assms(2) by (simp add: seg_of_def split: if_splits)
  obtain ok g1 where v: "v = (ok, g1)"
    by fastforce
  show ?thesis
  proof (cases ok)
    case True
    then show ?thesis
      using v ob assms(2) unfolding v_def
      by (simp add: verify_or_repair_def seg_of_def [of "put_seg obj g1 ns"]) (simp add: put_seg_def)
  next
    case False
    let ?ns1 = "put_seg obj g1 ns"
    let ?g2 = "fresh_segment l (store_schemas (expected_config name (seg_header g0)) None None h)"
    have u: "\<exists>g3. update_checksum_slot_impl blake2b i True ?g2 = (True, g3)"
      using L(3,4) assms(3) by (simp add: update_checksum_slot_impl_def fresh_segment_def slot_count_value_def)
    then obtain g3 where u: "update_checksum_slot_impl blake2b i True ?g2 = (True, g3)" ..
    have len: "length (ns_objs ?ns1) = length (ns_objs ns)" and nn: "ns_names ?ns1 = ns_names ns"
      by (simp_all add: put_seg_def)
    show ?thesis
      using v False ob assms(2) unfolding v_def
      by (simp add: verify_or_repair_def Let_def create_producer_ok [OF L(1,2)])
        (simp add: seg_of_def put_seg_def u destroy_producer_def shm_unlink_def nth_append)
  qed
qed

lemma verify_slot_frame:
  assumes "verify_checksum_slot_impl blake2b i b g = (ok, g')"
  shows "seg_layout g' = seg_layout g" and "seg_buffers g' = seg_buffers g" and "seg_header g' = seg_header g"
    and "map checksum_bytes (seg_checksums g') = map checksum_bytes (seg_checksums g)"
    and "k \<noteq> i \<Longrightarrow> seg_checksums g' ! k = seg_checksums g ! k"
  using assms
  by (auto simp: verify_checksum_slot_impl_def Let_def map_update list_update_id [of _ i, simplified]
      split: if_splits)
     (metis list_update_id map_update)+

lemma verify_slot_cong:
  assumes "seg_layout g' = seg_layout g" and "seg_buffers g' = seg_buffers g"
    and "seg_checksums g' ! i = seg_checksums g ! i"
  shows "fst (verify_checksum_slot_impl blake2b i b g') = fst (verify_checksum_slot_impl blake2b i b g)"
  using assms by (simp add: verify_checksum_slot_impl_def slot_count_value_def Let_def)

lemma repair_loop:
  assumes "healthy_block blake2b abi c g0" and "seg_of ns obj = Some g"
    and "\<And>i. i \<in> set idxs \<Longrightarrow> i < slot_count_value g0" and "distinct idxs"
  shows "\<exists>ns' g'. check_slots (\<lambda>i. verify_or_repair True blake2b abi True now me name
        (expected_config name (seg_header g0)) True obj
        (verify_checksum_slot_impl blake2b i True) (update_checksum_slot_impl blake2b i True)) idxs (r, ns)
      = Inr (r, ns')
    \<and> seg_of ns' obj = Some g' \<and> seg_buffers g' = seg_buffers g
    \<and> map checksum_bytes (seg_checksums g') = map checksum_bytes (seg_checksums g)
    \<and> (ns_names ns name = None \<longrightarrow> ns_names ns' name = None)
    \<and> ((\<exists>i \<in> set idxs. \<not> fst (verify_checksum_slot_impl blake2b i True g)) \<longrightarrow> ns_names ns' name = None)"
  using assms(2-4)
proof (induction idxs arbitrary: ns g)
  case (Cons i idxs)
  obtain ok g1 where v: "verify_checksum_slot_impl blake2b i True g = (ok, g1)"
    by fastforce
  note F = verify_slot_frame [OF v]
  obtain ns1 where s: "verify_or_repair True blake2b abi True now me name (expected_config name (seg_header g0))
      True obj (verify_checksum_slot_impl blake2b i True) (update_checksum_slot_impl blake2b i True) (r, ns)
      = Inr (r, ns1)"
    and g1: "seg_of ns1 obj = Some g1" and nm: "ns_names ns1 name = (if ok then ns_names ns name else None)"
    using repair_step [OF assms(1) Cons.prems(1), of i now me name r] Cons.prems(2) v by auto
  have same: "fst (verify_checksum_slot_impl blake2b k True g1) = fst (verify_checksum_slot_impl blake2b k True g)"
    if "k \<in> set idxs" for k
  proof -
    have "k \<noteq> i"
      using that Cons.prems(3) by auto
    then show ?thesis
      by (intro verify_slot_cong F)
  qed
  from Cons.IH [OF g1] Cons.prems(2,3) obtain ns' g' where
    "check_slots (\<lambda>i. verify_or_repair True blake2b abi True now me name
        (expected_config name (seg_header g0)) True obj
        (verify_checksum_slot_impl blake2b i True) (update_checksum_slot_impl blake2b i True)) idxs (r, ns1)
      = Inr (r, ns')"
    "seg_of ns' obj = Some g'" "seg_buffers g' = seg_buffers g"
    "map checksum_bytes (seg_checksums g') = map checksum_bytes (seg_checksums g)"
    "ns_names ns1 name = None \<longrightarrow> ns_names ns' name = None"
    "(\<exists>i \<in> set idxs. \<not> fst (verify_checksum_slot_impl blake2b i True g1)) \<longrightarrow> ns_names ns' name = None"
    using F(2,4) by auto
  then show ?case
    using s nm v same by (intro exI [of _ ns'] exI [of _ g']) auto
qed simp

lemma slots_to_verify_distinct: "distinct (slots_to_verify h)"
  and slots_to_verify_less: "i \<in> set (slots_to_verify h) \<Longrightarrow> i < unat (get_slot_count (Some h))"
  by (auto simp: slots_to_verify_def Let_def slot_rw_get_slot_count_def split: if_splits)

lemma healthy_consumer:
  fixes name :: string
  assumes "healthy_block blake2b abi c g" and "open_for_recovery (Some name) ns = Some (obj, g)"
  obtains con h1 where "find_datablock_consumer_impl True blake2b abi now me name
      (Some (expected_config name (seg_header g))) None None None None ns
    = Some (Inr (Some (con, obj)), put_seg obj (g\<lparr>seg_header := h1\<rparr>) ns)"
proof -
  note H = healthy_blockD [OF assms(1)]
  let ?h = "seg_header g"
  have ns: "ns_names ns name = Some obj" and ob: "ns_objs ns ! obj = Seg g"
    using assms(2) by (auto simp: open_for_recovery_def shm_attach_def seg_of_def
        split: option.splits if_splits sum.splits shm_object.splits)
  note A = header_attaches [where h = ?h and blake2b = blake2b and abi = abi, OF H(1-3,6-8,4)]
  have att: "datablock_attach (Seg g) = Inr (seg_layout g)"
    using A(1) H(5,9) by (simp add: datablock_attach_def is_header_magic_valid_def)
  have "validate_attach_layout_and_config blake2b ?h (Some (expected_config name ?h))"
    using validate_expected_iff [where h = ?h and blake2b = blake2b, OF H(1-3,6,8,4)] H(5) by simp
  then have ck: "attach_checks blake2b abi (Some (expected_config name ?h)) None None ?h = (True, ?h)"
    using A(2) H(5) by (simp add: attach_checks_def schema_matches_def)
  obtain con h1 where "join_consumer now me None None ?h = (con, h1)"
    by fastforce
  then have "find_consumer_on blake2b abi now me (Some (expected_config name ?h)) None None None None (Seg g)
      = Some (Inr (Some con), Seg (g\<lparr>seg_header := h1\<rparr>))"
    unfolding find_consumer_on_def att by (simp add: ck)
  then have "find_datablock_consumer_impl True blake2b abi now me name
      (Some (expected_config name ?h)) None None None None ns
    = Some (Inr (Some (con, obj)), put_seg obj (g\<lparr>seg_header := h1\<rparr>) ns)"
    by (simp add: find_datablock_consumer_impl_def shm_attach_def ns ob put_seg_def)
  then show ?thesis
    by (rule that)
qed

text \<open>C37: the repair mode of the integrity check removes the block it is asked to repair. When the
  checksum of a committed slot is wrong, the check creates a new block under the same name, recomputes
  the checksum there and destroys it again: it reports success, the name is gone, and the mapped block
  keeps its payloads with the wrong checksums.\<close>

theorem integrity_repair_removes_block:
  assumes "healthy_block blake2b abi c g" and "open_for_recovery (Some name) ns = Some (obj, g)"
    and "i \<in> set (slots_to_verify (seg_header g))" and "\<not> fst (verify_checksum_slot_impl blake2b i True g)"
  shows "\<exists>ns' g'. datablock_validate_integrity True blake2b abi True now me name True ns
        = Some (RECOVERY_SUCCESS, ns')
    \<and> shm_attach name ns' = None
    \<and> seg_of ns' obj = Some g' \<and> seg_buffers g' = seg_buffers g
    \<and> map checksum_bytes (seg_checksums g') = map checksum_bytes (seg_checksums g)"
proof -
  note H = healthy_blockD [OF assms(1)]
  let ?h = "seg_header g" and ?e = "expected_config name (seg_header g)"
  have cnt: "unat (get_slot_count (Some ?h)) = slot_count_value g"
    using from_config_fields(1) [OF H(2)]
    by (simp add: get_slot_count_def H(6) header_config_of_def slot_count_value_def config_slots_def)
  obtain con h1 where f: "find_datablock_consumer_impl True blake2b abi now me name (Some ?e) None None None None ns
    = Some (Inr (Some (con, obj)), put_seg obj (g\<lparr>seg_header := h1\<rparr>) ns)"
    by (rule healthy_consumer [OF assms(1,2)])
  let ?ns1 = "put_seg obj (g\<lparr>seg_header := h1\<rparr>) ns"
  have g1: "seg_of ?ns1 obj = Some (g\<lparr>seg_header := h1\<rparr>)"
    using open_for_recovery_seg(2) [OF assms(2)] by (simp add: put_seg_def seg_of_def)
  have bad: "\<exists>i \<in> set (slots_to_verify ?h). \<not> fst (verify_checksum_slot_impl blake2b i True (g\<lparr>seg_header := h1\<rparr>))"
    using assms(3,4) verify_slot_cong [of "g\<lparr>seg_header := h1\<rparr>" g i blake2b True] by auto
  have lt: "\<And>i. i \<in> set (slots_to_verify ?h) \<Longrightarrow> i < slot_count_value g"
    using slots_to_verify_less [of _ ?h] cnt by simp
  from repair_loop [where idxs = "slots_to_verify ?h" and now = now and me = me and name = name
      and r = RECOVERY_SUCCESS, OF assms(1) g1 lt slots_to_verify_distinct] bad
  obtain ns2 g2 where L: "check_slots (\<lambda>i. verify_or_repair True blake2b abi True now me name ?e True obj
        (verify_checksum_slot_impl blake2b i True) (update_checksum_slot_impl blake2b i True))
        (slots_to_verify ?h) (RECOVERY_SUCCESS, ?ns1) = Inr (RECOVERY_SUCCESS, ns2)"
    "seg_of ns2 obj = Some g2" "seg_buffers g2 = seg_buffers g"
    "map checksum_bytes (seg_checksums g2) = map checksum_bytes (seg_checksums g)" "ns_names ns2 name = None"
    by auto
  let ?ns3 = "put_seg obj (upd_header (destroy_consumer con) g2) ns2"
  have "cfg_checksum_type c = BLAKE2b"
    using H(1) by (auto simp: check_config_def split: if_splits) (metis ChecksumType.exhaust)
  then have "checksum_type (hconfig ?h) \<noteq> checksum_type_u8 ChecksumType_Unset" "header_intact blake2b ?h"
    by (simp_all add: H header_config_of_def checksum_type_u8_def header_intact_def is_header_magic_valid_def
        validate_layout_checksum_def)
  moreover have "cfg_flex_zone_size ?e = 0"
    by (simp add: expected_config_def Let_def)
  ultimately have "datablock_validate_integrity True blake2b abi True now me name True ns = Some (RECOVERY_SUCCESS, ?ns3)"
    unfolding datablock_validate_integrity_def assms(2) by (simp add: f L Let_def)
  moreover have "obj < length (ns_objs ns2)"
    using L(2) by (simp add: seg_of_def split: if_splits)
  ultimately show ?thesis
    using L(3-5) by (intro exI [of _ ?ns3] exI [of _ "upd_header (destroy_consumer con) g2"])
      (simp add: shm_attach_def put_seg_def seg_of_def upd_header_def)
qed

section \<open>Witnesses\<close>

theorem integrity_passes_iff_no_flexzone_witness:
  "\<exists>p i ns1 ns2 r. create_datablock_producer_impl True demo_hash [7] True 5 42 ''b'' demo_config None None
      empty_ns = (Inr (p, i), ns1)
    \<and> datablock_validate_integrity True demo_hash [7] True 6 43 ''b'' False ns1 = Some (r, ns2)
    \<and> r \<noteq> RECOVERY_SUCCESS"
proof -
  obtain p i ns1 where c: "create_datablock_producer_impl True demo_hash [7] True 5 42 ''b'' demo_config None
        None empty_ns = (Inr (p, i), ns1)"
    by (rule demo_producer_created)
  have "cfg_flex_zone_size demo_config \<noteq> 0"
    by (simp add: demo_config_def)
  with integrity_passes_iff_no_flexzone [OF c demo_config_fits demo_flex_small, of True 6 43 False] c
  show ?thesis by blast
qed

text \<open>One committed slot whose stored checksum is not the hash of its payload.\<close>

definition damaged_block :: segment where
  "damaged_block = (plain_block free_slot)
     \<lparr>seg_header := plain_header\<lparr>commit_index := 0,
        perf_metrics := zero_perf_metrics\<lparr>total_slots_written := 1\<rparr>\<rparr>,
      seg_checksums := \<lparr>checksum_bytes = [1], cks_is_valid = 0\<rparr>
        # replicate 3 \<lparr>checksum_bytes = zero_hash, cks_is_valid = 0\<rparr>\<rparr>"

lemma damaged_block_healthy: "healthy_block demo_hash [7] plain_config damaged_block"
proof -
  note C = create_datablock_InrD [OF plain_created]
  have l: "seg_layout damaged_block = plain_layout"
    by (simp add: damaged_block_def plain_block_def put_slot_def fresh_segment_def)
  have "segment_wf damaged_block"
    using plain_block_facts(1,2,5) [of free_slot]
    by (simp add: segment_wf_def damaged_block_def slot_count_value_def)
  then show ?thesis
    using C plain_config_facts
    by (simp add: healthy_block_def l) (simp add: damaged_block_def)
qed

theorem integrity_repair_removes_block_witness:
  "\<exists>ns'. datablock_validate_integrity True demo_hash [7] True 6 43 ''b'' True (demo_ns damaged_block)
       = Some (RECOVERY_SUCCESS, ns')
     \<and> shm_attach ''b'' ns' = None"
proof -
  note H = healthy_blockD [OF damaged_block_healthy]
  have op: "open_for_recovery (Some ''b'') (demo_ns damaged_block) = Some (0, damaged_block)"
    using H(6,9) create_datablock_InrD(4,7) [OF plain_created]
    by (intro demo_ns_opens) (simp_all add: damaged_block_def)
  have "get_slot_count (Some (seg_header damaged_block)) = 4"
    using create_datablock_InrD(4) [OF plain_created]
    by (simp add: get_slot_count_def damaged_block_def header_config_of_def plain_config_def demo_config_def)
  then have s: "0 \<in> set (slots_to_verify (seg_header damaged_block))"
    by (simp add: slots_to_verify_def Let_def slot_rw_get_slot_count_def slot_rw_get_total_slots_written_def
        slot_rw_get_commit_index_def) (simp add: damaged_block_def)
  have "seg_buffers damaged_block ! 0 = replicate 128 0"
    by (simp add: damaged_block_def plain_block_def put_slot_def fresh_segment_def plain_slot_count)
  then have "\<not> fst (verify_checksum_slot_impl demo_hash 0 True damaged_block)"
    by (simp add: verify_checksum_slot_impl_def Let_def demo_hash_def) (simp add: damaged_block_def)
  from integrity_repair_removes_block [OF damaged_block_healthy op s this, of 6 43] show ?thesis
    by blast
qed

end
