(* ===== verification/Shm_Spinlock.thy ===== *)
theory Shm_Spinlock
  imports Slot_Ops
begin

text \<open>
  The cross-process recursive spin lock of \<open>shared_memory_spinlock.cpp\<close>. First the operations as
  functions of the lock word, with an environment for what other processes do in between; then the
  same operations as single atomic accesses of any number of threads, with processes that may die at
  any point.
\<close>

section \<open>Operations\<close>

text \<open>\<open>se_step k\<close> is what others do during the \<open>k\<close>-th back-off, \<open>se_race k\<close> what they do between
  the liveness check and the reclaiming compare-and-swap, \<open>se_spurious k\<close> whether the weak
  compare-and-swap fails spuriously, \<open>se_alive k\<close> the liveness of processes.\<close>

record spin_env =
  se_step :: "nat \<Rightarrow> SharedSpinLockState \<Rightarrow> SharedSpinLockState"
  se_race :: "nat \<Rightarrow> SharedSpinLockState \<Rightarrow> SharedSpinLockState"
  se_spurious :: "nat \<Rightarrow> bool"
  se_alive :: "nat \<Rightarrow> pid \<Rightarrow> bool"
  se_clock :: "nat \<Rightarrow> u64"

definition spin_gives_up :: "spin_env \<Rightarrow> nat \<Rightarrow> u64 \<Rightarrow> int \<Rightarrow> bool" where
  "spin_gives_up e k start timeout_ms \<longleftrightarrow> timeout_ms = 0
     \<or> timeout_ms > 0 \<and> elapsed_time_ns (se_clock e k) start div 1000000 \<ge> of_int timeout_ms"

fun spin_loop ::
  "nat \<Rightarrow> nat \<Rightarrow> spin_env \<Rightarrow> pid \<Rightarrow> u64 \<Rightarrow> u64 \<Rightarrow> int \<Rightarrow> SharedSpinLockState
   \<Rightarrow> (bool \<times> SharedSpinLockState) option" where
  "spin_loop 0 k e my_pid my_tid start timeout_ms s = None"
| "spin_loop (Suc fuel) k e my_pid my_tid start timeout_ms s =
     (let again = (\<lambda>s'. if spin_gives_up e k start timeout_ms then Some (False, s')
            else spin_loop fuel (Suc k) e my_pid my_tid start timeout_ms (se_step e k s'))
      in if owner_pid s = 0 \<and> \<not> se_spurious e k
         then Some (True, s\<lparr>owner_pid := my_pid, owner_tid := my_tid, recursion_count := 1\<rparr>)
         else if owner_pid s \<noteq> 0 \<and> \<not> se_alive e k (owner_pid s)
         then (let s' = se_race e k s in
               if owner_pid s' = owner_pid s
               then Some (True, s'\<lparr>owner_pid := my_pid, owner_tid := my_tid, recursion_count := 1,
                                   generation := generation s' + 1\<rparr>)
               else again s')
         else again s)"

definition try_lock_for ::
  "nat \<Rightarrow> spin_env \<Rightarrow> pid \<Rightarrow> u64 \<Rightarrow> int \<Rightarrow> SharedSpinLockState \<Rightarrow> (bool \<times> SharedSpinLockState) option" where
  "try_lock_for fuel e my_pid my_tid timeout_ms s =
     (if owner_pid s = my_pid \<and> owner_tid s = my_tid
      then Some (True, s\<lparr>recursion_count := recursion_count s + 1\<rparr>)
      else spin_loop fuel 0 e my_pid my_tid (se_clock e 0) timeout_ms s)"

text \<open>\<open>Inl\<close>: the \<open>runtime_error\<close> for an unlock by somebody who is not the owner.\<close>

definition unlock :: "pid \<Rightarrow> u64 \<Rightarrow> SharedSpinLockState \<Rightarrow> unit + SharedSpinLockState" where
  "unlock my_pid my_tid s =
     (if owner_pid s \<noteq> my_pid \<or> owner_tid s \<noteq> my_tid then Inl ()
      else if recursion_count s > 1 then Inr (s\<lparr>recursion_count := recursion_count s - 1\<rparr>)
      else Inr (s\<lparr>recursion_count := 0, generation := generation s + 1, owner_tid := 0, owner_pid := 0\<rparr>))"

definition is_locked_by_current_process :: "pid \<Rightarrow> u64 \<Rightarrow> SharedSpinLockState \<Rightarrow> bool" where
  "is_locked_by_current_process my_pid my_tid s \<longleftrightarrow> owner_pid s = my_pid \<and> owner_tid s = my_tid"

section \<open>Single accesses\<close>

text \<open>Where a thread is. The number is how often it holds the lock: \<open>S_Run 0\<close> is outside. \<open>S_Chk1\<close>
  to \<open>S_Chk3\<close> are the loads of the recursion check after the generation \<open>g\<close> was read, \<open>S_Spin\<close> the
  compare-and-swap loop, \<open>S_Got\<close> and \<open>S_Tid\<close> the stores after a successful compare-and-swap (with
  the flag of a reclaimed lock), \<open>S_Rec\<close> the last store of a reclaim, \<open>S_Unl1\<close> to \<open>S_Unl3\<close> the
  stores of the final unlock.\<close>

datatype spc = S_Run nat | S_Chk1 nat u64 | S_Chk2 nat u64 | S_Chk3 nat u64 | S_Spin nat
  | S_Got bool | S_Tid bool | S_Rec | S_Unl1 | S_Unl2 | S_Unl3

record spin_sys =
  sp_lock :: SharedSpinLockState
  sp_pc :: "u64 \<Rightarrow> spc"
  sp_dead :: "pid set"

text \<open>A thread is named by its thread identifier; \<open>pid_of\<close> is its process.\<close>

definition put_pc :: "u64 \<Rightarrow> spc \<Rightarrow> SharedSpinLockState \<Rightarrow> spin_sys \<Rightarrow> spin_sys" where
  [spin_defs]: "put_pc t pc l s = s\<lparr>sp_lock := l, sp_pc := (sp_pc s)(t := pc)\<rparr>"

inductive spin_step :: "(u64 \<Rightarrow> pid) \<Rightarrow> u64 \<Rightarrow> spin_sys \<Rightarrow> spin_sys \<Rightarrow> bool"
  for pid_of :: "u64 \<Rightarrow> pid" and t :: u64 where
  sp_try: "sp_pc s t = S_Run n \<Longrightarrow>
     spin_step pid_of t s (put_pc t (S_Chk1 n (generation (sp_lock s))) (sp_lock s) s)"
| sp_chk_pid: "sp_pc s t = S_Chk1 n g \<Longrightarrow>
     spin_step pid_of t s (put_pc t (if owner_pid (sp_lock s) = pid_of t then S_Chk2 n g else S_Spin n) (sp_lock s) s)"
| sp_chk_tid: "sp_pc s t = S_Chk2 n g \<Longrightarrow>
     spin_step pid_of t s (put_pc t (if owner_tid (sp_lock s) = t then S_Chk3 n g else S_Spin n) (sp_lock s) s)"
| sp_chk_gen: "sp_pc s t = S_Chk3 n g \<Longrightarrow> generation (sp_lock s) \<noteq> g \<Longrightarrow>
     spin_step pid_of t s (put_pc t (S_Spin n) (sp_lock s) s)"
| sp_recurse: "sp_pc s t = S_Chk3 n g \<Longrightarrow> generation (sp_lock s) = g \<Longrightarrow> n + 1 < 2 ^ 32 \<Longrightarrow>
     spin_step pid_of t s (put_pc t (S_Run (Suc n))
       ((sp_lock s)\<lparr>recursion_count := recursion_count (sp_lock s) + 1\<rparr>) s)"
| sp_cas: "sp_pc s t = S_Spin n \<Longrightarrow> owner_pid (sp_lock s) = 0 \<Longrightarrow>
     spin_step pid_of t s (put_pc t (S_Got False) ((sp_lock s)\<lparr>owner_pid := pid_of t\<rparr>) s)"
| sp_reclaim: "sp_pc s t = S_Spin n \<Longrightarrow> owner_pid (sp_lock s) \<in> sp_dead s \<Longrightarrow>
     spin_step pid_of t s (put_pc t (S_Got True) ((sp_lock s)\<lparr>owner_pid := pid_of t\<rparr>) s)"
| sp_give_up: "sp_pc s t = S_Spin n \<Longrightarrow> spin_step pid_of t s (put_pc t (S_Run n) (sp_lock s) s)"
| sp_store_tid: "sp_pc s t = S_Got z \<Longrightarrow>
     spin_step pid_of t s (put_pc t (S_Tid z) ((sp_lock s)\<lparr>owner_tid := t\<rparr>) s)"
| sp_store_rec: "sp_pc s t = S_Tid z \<Longrightarrow>
     spin_step pid_of t s (put_pc t (if z then S_Rec else S_Run 1) ((sp_lock s)\<lparr>recursion_count := 1\<rparr>) s)"
| sp_store_gen: "sp_pc s t = S_Rec \<Longrightarrow>
     spin_step pid_of t s (put_pc t (S_Run 1) ((sp_lock s)\<lparr>generation := generation (sp_lock s) + 1\<rparr>) s)"
| sp_unlock_inner: "sp_pc s t = S_Run n \<Longrightarrow> owner_pid (sp_lock s) = pid_of t \<Longrightarrow> owner_tid (sp_lock s) = t \<Longrightarrow>
     recursion_count (sp_lock s) > 1 \<Longrightarrow>
     spin_step pid_of t s (put_pc t (S_Run (n - 1))
       ((sp_lock s)\<lparr>recursion_count := recursion_count (sp_lock s) - 1\<rparr>) s)"
| sp_unlock_last: "sp_pc s t = S_Run n \<Longrightarrow> owner_pid (sp_lock s) = pid_of t \<Longrightarrow> owner_tid (sp_lock s) = t \<Longrightarrow>
     \<not> recursion_count (sp_lock s) > 1 \<Longrightarrow>
     spin_step pid_of t s (put_pc t S_Unl1 ((sp_lock s)\<lparr>recursion_count := 0\<rparr>) s)"
| sp_unlock_gen: "sp_pc s t = S_Unl1 \<Longrightarrow>
     spin_step pid_of t s (put_pc t S_Unl2 ((sp_lock s)\<lparr>generation := generation (sp_lock s) + 1\<rparr>) s)"
| sp_unlock_tid: "sp_pc s t = S_Unl2 \<Longrightarrow>
     spin_step pid_of t s (put_pc t S_Unl3 ((sp_lock s)\<lparr>owner_tid := 0\<rparr>) s)"
| sp_unlock_pid: "sp_pc s t = S_Unl3 \<Longrightarrow>
     spin_step pid_of t s (put_pc t (S_Run 0) ((sp_lock s)\<lparr>owner_pid := 0\<rparr>) s)"

text \<open>Threads of live processes take steps; a process may die at any time, with all its threads.\<close>

inductive spin_sys_step :: "(u64 \<Rightarrow> pid) \<Rightarrow> spin_sys \<Rightarrow> spin_sys \<Rightarrow> bool" for pid_of :: "u64 \<Rightarrow> pid" where
  sys_thread: "spin_step pid_of t s s' \<Longrightarrow> t \<noteq> 0 \<Longrightarrow> pid_of t \<noteq> 0 \<Longrightarrow> pid_of t \<notin> sp_dead s \<Longrightarrow> spin_sys_step pid_of s s'"
| sys_die: "p \<noteq> 0 \<Longrightarrow> spin_sys_step pid_of s (s\<lparr>sp_dead := insert p (sp_dead s)\<rparr>)"

definition spin_init :: "spin_sys \<Rightarrow> bool" where
  "spin_init s \<longleftrightarrow> sp_lock s = init_spinlock_state \<and> (\<forall>t. sp_pc s t = S_Run 0) \<and> sp_dead s = {}"

text \<open>Whether a thread has a claim on the lock, from the compare-and-swap on \<open>owner_pid\<close> to the store
  that clears it.\<close>

fun spin_holds :: "spc \<Rightarrow> bool" where
  "spin_holds (S_Run n) = (n > 0)"
| "spin_holds (S_Chk1 n g) = (n > 0)"
| "spin_holds (S_Chk2 n g) = (n > 0)"
| "spin_holds (S_Chk3 n g) = (n > 0)"
| "spin_holds (S_Spin n) = (n > 0)"
| "spin_holds pc = True"

definition live :: "(u64 \<Rightarrow> pid) \<Rightarrow> spin_sys \<Rightarrow> u64 \<Rightarrow> bool" where
  [spin_defs]: "live pid_of s t \<longleftrightarrow> t \<noteq> 0 \<and> pid_of t \<noteq> 0 \<and> pid_of t \<notin> sp_dead s"

section \<open>Mutual exclusion\<close>

text \<open>What the lock word says about a live thread: at depth \<open>n > 0\<close> it is the owner and the
  recursion count is its depth; without a claim it is not the owner.\<close>

definition spin_at_depth :: "pid \<Rightarrow> u64 \<Rightarrow> SharedSpinLockState \<Rightarrow> nat \<Rightarrow> bool" where
  [spin_defs]: "spin_at_depth p t l n \<longleftrightarrow> (if n = 0 then owner_tid l \<noteq> t
     else owner_pid l = p \<and> owner_tid l = t \<and> recursion_count l = of_nat n \<and> n < 2 ^ 32)"

fun pc_ok :: "pid \<Rightarrow> u64 \<Rightarrow> SharedSpinLockState \<Rightarrow> spc \<Rightarrow> bool" where
  "pc_ok p t l (S_Run n) = spin_at_depth p t l n"
| "pc_ok p t l (S_Chk1 n g) = (spin_at_depth p t l n \<and> (n > 0 \<longrightarrow> generation l = g))"
| "pc_ok p t l (S_Chk2 n g) = (spin_at_depth p t l n \<and> (n > 0 \<longrightarrow> generation l = g))"
| "pc_ok p t l (S_Chk3 n g) = (spin_at_depth p t l n \<and> n > 0 \<and> generation l = g)"
| "pc_ok p t l (S_Spin n) = (n = 0 \<and> owner_tid l \<noteq> t)"
| "pc_ok p t l (S_Got z) = (owner_pid l = p \<and> owner_tid l \<noteq> t)"
| "pc_ok p t l (S_Tid z) = (owner_pid l = p \<and> owner_tid l = t)"
| "pc_ok p t l S_Rec = (owner_pid l = p \<and> owner_tid l = t \<and> recursion_count l = 1)"
| "pc_ok p t l S_Unl1 = (owner_pid l = p \<and> owner_tid l = t)"
| "pc_ok p t l S_Unl2 = (owner_pid l = p \<and> owner_tid l = t)"
| "pc_ok p t l S_Unl3 = (owner_pid l = p \<and> owner_tid l \<noteq> t)"

definition spin_inv :: "(u64 \<Rightarrow> pid) \<Rightarrow> spin_sys \<Rightarrow> bool" where
  "spin_inv pid_of s \<longleftrightarrow> (\<forall>t. live pid_of s t \<longrightarrow> pc_ok (pid_of t) t (sp_lock s) (sp_pc s t))
     \<and> (\<forall>t u. live pid_of s t \<longrightarrow> live pid_of s u \<longrightarrow> spin_holds (sp_pc s t) \<longrightarrow> spin_holds (sp_pc s u) \<longrightarrow> t = u)"

lemma live_put_pc [simp]: "live pid_of (put_pc t pc l s) u = live pid_of s u"
  by (simp add: spin_defs)

lemma put_pc_sel [simp]:
  "sp_lock (put_pc t pc l s) = l" "sp_dead (put_pc t pc l s) = sp_dead s"
  "sp_pc (put_pc t pc l s) u = (if u = t then pc else sp_pc s u)"
  by (simp_all add: put_pc_def)

lemma spin_invD:
  assumes "spin_inv pid_of s" and "live pid_of s t"
  shows "pc_ok (pid_of t) t (sp_lock s) (sp_pc s t)"
    and "live pid_of s u \<Longrightarrow> spin_holds (sp_pc s t) \<Longrightarrow> spin_holds (sp_pc s u) \<Longrightarrow> u = t"
  using assms by (auto simp: spin_inv_def)

lemma pc_ok_holds: "pc_ok p t l pc \<Longrightarrow> spin_holds pc \<Longrightarrow> owner_pid l = p"
  by (cases pc) (auto simp: spin_at_depth_def)

lemma pc_ok_out: "pc_ok p t l pc \<Longrightarrow> \<not> spin_holds pc \<Longrightarrow> owner_tid l \<noteq> t \<and> (owner_tid l' \<noteq> t \<longrightarrow> pc_ok p t l' pc)"
  by (cases pc) (auto simp: spin_at_depth_def)

text \<open>When a thread may write the lock word, no other live thread has a claim.\<close>

definition may_write :: "spin_sys \<Rightarrow> u64 \<Rightarrow> bool" where
  "may_write s t \<longleftrightarrow> spin_holds (sp_pc s t) \<or> owner_pid (sp_lock s) = 0 \<or> owner_pid (sp_lock s) \<in> sp_dead s"

lemma others_out:
  assumes "spin_inv pid_of s" and "live pid_of s t" and "live pid_of s u" and "u \<noteq> t" and "may_write s t"
  shows "\<not> spin_holds (sp_pc s u)"
proof
  assume h: "spin_holds (sp_pc s u)"
  have "owner_pid (sp_lock s) = pid_of u"
    by (rule pc_ok_holds [OF spin_invD(1) [OF assms(1,3)] h])
  then have "spin_holds (sp_pc s t)"
    using assms(3,5) by (auto simp: may_write_def live_def)
  then show False
    using spin_invD(2) [OF assms(1,2,3) _ h] assms(4) by simp
qed

text \<open>The step of one thread keeps the invariant when its own state stays right and it writes only
  when it may.\<close>

lemma spin_inv_put:
  assumes inv: "spin_inv pid_of s" and lt: "live pid_of s t" and ok: "pc_ok (pid_of t) t l pc"
    and w: "l = sp_lock s \<and> (spin_holds pc \<longrightarrow> spin_holds (sp_pc s t))
            \<or> may_write s t \<and> owner_tid l \<in> {owner_tid (sp_lock s), t, 0}"
  shows "spin_inv pid_of (put_pc t pc l s)"
proof -
  have out: "\<not> spin_holds (sp_pc s u)" if "live pid_of s u" "u \<noteq> t" "may_write s t" for u
    using others_out [OF inv lt that] .
  have other: "pc_ok (pid_of u) u l (sp_pc s u)" if u: "live pid_of s u" "u \<noteq> t" for u
  proof (cases "l = sp_lock s")
    case True
    then show ?thesis
      using spin_invD(1) [OF inv u(1)] by simp
  next
    case False
    then have n: "may_write s t" "owner_tid l \<in> {owner_tid (sp_lock s), t, 0}"
      using w by auto
    have "u \<noteq> 0"
      using u(1) by (simp add: live_def)
    then show ?thesis
      using n(2) u(2) pc_ok_out [OF spin_invD(1) [OF inv u(1)] out [OF u n(1)], of l] by auto
  qed
  have claim: "u = t" if "live pid_of s u" "spin_holds pc" "spin_holds (sp_pc s u)" for u
    using that w out spin_invD(2) [OF inv lt that(1)] by blast
  show ?thesis
    unfolding spin_inv_def live_put_pc put_pc_sel
  proof (intro conjI allI impI)
    show "pc_ok (pid_of u) u l (if u = t then pc else sp_pc s u)" if "live pid_of s u" for u
      using ok other [OF that] by simp
    show "u = v" if "live pid_of s u" "live pid_of s v" "spin_holds (if u = t then pc else sp_pc s u)"
      "spin_holds (if v = t then pc else sp_pc s v)" for u v
      using that claim [of u] claim [of v] spin_invD(2) [OF inv that(2,1)] by (simp split: if_splits)
  qed
qed

lemmas spin_cases = spin_at_depth_def may_write_def word_of_nat_less_iff

lemma recursion_more:
  assumes "(1 :: u32) < of_nat n" and "n < 2 ^ 32"
  shows "1 < n" and "(of_nat n :: u32) - 1 = of_nat (n - 1)"
proof -
  have "1 < unat (of_nat n :: u32)"
    using assms(1) by (simp add: word_less_nat_alt)
  then show n: "1 < n"
    using assms(2) by (simp add: unat_of_nat)
  then show "(of_nat n :: u32) - 1 = of_nat (n - 1)"
    by (simp add: of_nat_diff)
qed

lemma spin_step_local:
  assumes "pc_ok (pid_of t) t (sp_lock s) (sp_pc s t)" and "t \<noteq> 0" and "spin_step pid_of t s s'"
  shows "\<exists>pc l. s' = put_pc t pc l s \<and> pc_ok (pid_of t) t l pc
     \<and> (l = sp_lock s \<and> (spin_holds pc \<longrightarrow> spin_holds (sp_pc s t))
        \<or> may_write s t \<and> owner_tid l \<in> {owner_tid (sp_lock s), t, 0})"
  using assms(3,1,2)
proof cases
  case (sp_unlock_inner n)
  then have n: "spin_at_depth (pid_of t) t (sp_lock s) n" "n \<noteq> 0"
    using assms(1) by (auto simp: spin_at_depth_def split: if_splits)
  then have r: "1 < n" "recursion_count (sp_lock s) - 1 = of_nat (n - 1)" "n - 1 < 2 ^ 32"
    using recursion_more [of n] sp_unlock_inner(5) by (auto simp: spin_at_depth_def)
  show ?thesis
    unfolding sp_unlock_inner(1)
    by (rule exI, rule exI, rule conjI [OF refl]) (use sp_unlock_inner(2-4) n r in \<open>auto simp: spin_cases\<close>)
qed (rule exI, rule exI, rule conjI, assumption, simp add: spin_cases split: if_splits; auto)+

lemma spin_inv_step:
  assumes "spin_inv pid_of s" and "live pid_of s t" and "spin_step pid_of t s s'"
  shows "spin_inv pid_of s'"
proof -
  have "t \<noteq> 0"
    using assms(2) by (simp add: live_def)
  from spin_step_local [OF spin_invD(1) [OF assms(1,2)] this assms(3)] show ?thesis
    using spin_inv_put [OF assms(1,2)] by blast
qed

text \<open>The owner recorded in the lock word is the process of a thread with a claim.\<close>

definition owner_claims :: "(u64 \<Rightarrow> pid) \<Rightarrow> spin_sys \<Rightarrow> bool" where
  "owner_claims pid_of s \<longleftrightarrow> owner_pid (sp_lock s) = 0
     \<or> (\<exists>t. t \<noteq> 0 \<and> pid_of t = owner_pid (sp_lock s) \<and> spin_holds (sp_pc s t))"

lemma spin_step_owner:
  assumes "pc_ok (pid_of t) t (sp_lock s) (sp_pc s t)" and "spin_step pid_of t s s'"
  shows "\<exists>pc l. s' = put_pc t pc l s \<and> (spin_holds (sp_pc s t) \<longrightarrow> spin_holds pc \<or> owner_pid l = 0)
     \<and> (owner_pid l \<in> {0, owner_pid (sp_lock s)} \<or> owner_pid l = pid_of t \<and> spin_holds pc)"
  using assms(2,1)
proof cases
  case (sp_unlock_inner n)
  then have n: "1 < n"
    using assms(1) recursion_more [of n] by (auto simp: spin_at_depth_def split: if_splits)
  show ?thesis
    unfolding sp_unlock_inner(1)
    by (rule exI, rule exI, rule conjI [OF refl]) (use sp_unlock_inner n in auto)
qed (rule exI, rule exI, rule conjI, assumption, simp)+

lemma owner_claims_step:
  assumes "spin_inv pid_of s" and "owner_claims pid_of s" and "live pid_of s t" and "spin_step pid_of t s s'"
  shows "owner_claims pid_of s'"
proof -
  obtain pc l where s': "s' = put_pc t pc l s"
    and keep: "spin_holds (sp_pc s t) \<longrightarrow> spin_holds pc \<or> owner_pid l = 0"
    and own: "owner_pid l \<in> {0, owner_pid (sp_lock s)} \<or> owner_pid l = pid_of t \<and> spin_holds pc"
    using spin_step_owner [OF spin_invD(1) [OF assms(1,3)] assms(4)] by blast
  have "t \<noteq> 0"
    using assms(3) by (simp add: live_def)
  then show ?thesis
    using assms(2) keep own by (auto simp: owner_claims_def s')
qed

interpretation spin: inductive_invariant spin_init "spin_sys_step pid_of"
  "\<lambda>s. spin_inv pid_of s \<and> owner_claims pid_of s" for pid_of
proof unfold_locales
  fix s
  assume "spin_init s"
  then show "spin_inv pid_of s \<and> owner_claims pid_of s"
    by (simp add: spin_init_def spin_inv_def owner_claims_def init_spinlock_state_def spin_at_depth_def live_def)
next
  fix s s'
  assume i: "spin_inv pid_of s \<and> owner_claims pid_of s" and "spin_sys_step pid_of s s'"
  from this(2) show "spin_inv pid_of s' \<and> owner_claims pid_of s'"
  proof cases
    case (sys_thread t)
    then have "live pid_of s t"
      by (simp add: live_def)
    then show ?thesis
      using i sys_thread(1) spin_inv_step owner_claims_step by blast
  next
    case (sys_die p)
    then have "live pid_of s' t \<Longrightarrow> live pid_of s t" for t
      by (simp add: live_def)
    then show ?thesis
      using i sys_die by (auto simp: spin_inv_def owner_claims_def)
  qed
qed

text \<open>C10: the shared spin lock excludes, counts and is not lost. In every interleaving of any number
  of threads of any number of processes, with processes dying at any point and locks reclaimed from
  dead owners, at most one live thread has a claim on the lock; a thread that holds it \<open>n > 0\<close> times is
  the recorded owner with recursion count \<open>n\<close>; the recursion check succeeds only for the holder and a
  holder never waits for itself; and a waiting thread can take the lock whenever no live thread has a
  claim.\<close>

theorem spin_lock_excludes:
  assumes "reach spin_init (spin_sys_step pid_of) s" and "live pid_of s t"
  shows "(\<forall>u. live pid_of s u \<and> spin_holds (sp_pc s t) \<and> spin_holds (sp_pc s u) \<longrightarrow> u = t)
    \<and> (\<forall>n. sp_pc s t = S_Run n \<and> 0 < n \<longrightarrow> owner_pid (sp_lock s) = pid_of t \<and> owner_tid (sp_lock s) = t
           \<and> unat (recursion_count (sp_lock s)) = n)
    \<and> (\<forall>n g. sp_pc s t = S_Chk3 n g \<longrightarrow> 0 < n) \<and> (\<forall>n. sp_pc s t = S_Spin n \<longrightarrow> n = 0)
    \<and> (sp_pc s t = S_Spin 0 \<and> (\<forall>u. live pid_of s u \<longrightarrow> \<not> spin_holds (sp_pc s u)) \<longrightarrow>
         (\<exists>s' z. spin_sys_step pid_of s s' \<and> sp_pc s' t = S_Got z))"
proof -
  have inv: "spin_inv pid_of s" and own: "owner_claims pid_of s"
    using spin.reach_inv [OF assms(1)] by simp_all
  note ok = spin_invD(1) [OF inv assms(2)]
  have "\<exists>s' z. spin_sys_step pid_of s s' \<and> sp_pc s' t = S_Got z"
    if "sp_pc s t = S_Spin 0" and none: "\<forall>u. live pid_of s u \<longrightarrow> \<not> spin_holds (sp_pc s u)"
  proof -
    have "owner_pid (sp_lock s) = 0 \<or> owner_pid (sp_lock s) \<in> sp_dead s"
      using own none by (auto simp: owner_claims_def live_def)
    then have "\<exists>z. spin_step pid_of t s (put_pc t (S_Got z) ((sp_lock s)\<lparr>owner_pid := pid_of t\<rparr>) s)"
      using sp_cas [of s t 0 pid_of] sp_reclaim [of s t 0 pid_of] \<open>sp_pc s t = S_Spin 0\<close> by blast
    then obtain s' z where "spin_step pid_of t s s'" "sp_pc s' t = S_Got z"
      by fastforce
    then show ?thesis
      using assms(2) sys_thread [of pid_of t s s'] unfolding live_def by blast
  qed
  moreover have "unat (recursion_count (sp_lock s)) = n" if "sp_pc s t = S_Run n" "0 < n" for n
    using ok that by (auto simp: spin_at_depth_def unat_of_nat)
  ultimately show ?thesis
    using ok spin_invD(2) [OF inv assms(2)] by (auto simp: spin_at_depth_def)
qed

section \<open>One thread\<close>

text \<open>\<open>n\<close> calls of \<open>lock\<close> on a lock nobody else touches, and \<open>n\<close> calls of \<open>unlock\<close>.\<close>

fun lock_times :: "nat \<Rightarrow> spin_env \<Rightarrow> pid \<Rightarrow> u64 \<Rightarrow> SharedSpinLockState \<Rightarrow> SharedSpinLockState option" where
  "lock_times 0 e p t s = Some s"
| "lock_times (Suc n) e p t s = (case try_lock_for 1 e p t (-1) s of
       Some (True, s') \<Rightarrow> lock_times n e p t s' | _ \<Rightarrow> None)"

fun unlock_times :: "nat \<Rightarrow> pid \<Rightarrow> u64 \<Rightarrow> SharedSpinLockState \<Rightarrow> unit + SharedSpinLockState" where
  "unlock_times 0 p t s = Inr s"
| "unlock_times (Suc n) p t s = (case unlock p t s of Inl e \<Rightarrow> Inl e | Inr s' \<Rightarrow> unlock_times n p t s')"

lemma lock_times_owner:
  assumes "owner_pid s = p" and "owner_tid s = t"
  shows "lock_times n e p t s = Some (s\<lparr>recursion_count := recursion_count s + of_nat n\<rparr>)"
  using assms by (induction n arbitrary: s) (simp_all add: try_lock_for_def add.assoc add.commute)

lemma unlock_times_owner:
  assumes "owner_pid s = p" and "owner_tid s = t" and "unat (recursion_count s) = n + 1"
  shows "unlock_times n p t s = Inr (s\<lparr>recursion_count := 1\<rparr>)"
  using assms
proof (induction n arbitrary: s)
  case 0
  then have "recursion_count s = 1"
    by (simp add: word_unat_eq_iff)
  then show ?case
    by (cases s) simp
next
  case (Suc n)
  then have "1 < recursion_count s"
    by (simp add: word_less_nat_alt)
  moreover have "unat (recursion_count s - 1) = n + 1"
    using Suc.prems(3) by (simp add: unat_sub_if')
  ultimately show ?case
    using Suc by (simp add: unlock_def)
qed

text \<open>The spin lock is recursive. A thread that takes a free lock \<open>n\<close> times (below the range of
  the counter) holds it with count \<open>n\<close>, keeps it through \<open>n - 1\<close> unlocks and gives it back with the
  \<open>n\<close>-th, which advances the generation; meanwhile nobody else can unlock it, and a non-blocking
  attempt of somebody else fails while the owner lives.\<close>

theorem spin_recursion_roundtrip:
  assumes "owner_pid s = 0" and "p \<noteq> 0" and "0 < n" and "n < 2 ^ 32" and "\<not> se_spurious e 0"
  shows "\<exists>s'. lock_times n e p t s = Some s' \<and> owner_pid s' = p \<and> owner_tid s' = t
    \<and> unat (recursion_count s') = n
    \<and> unlock_times (n - 1) p t s' = Inr (s'\<lparr>recursion_count := 1\<rparr>)
    \<and> unlock_times n p t s' = Inr \<lparr>owner_pid = 0, owner_tid = 0, generation = generation s + 1, recursion_count = 0\<rparr>
    \<and> (\<forall>q u. (q, u) \<noteq> (p, t) \<longrightarrow> unlock q u s' = Inl ()
         \<and> (se_alive e 0 p \<longrightarrow> try_lock_for 1 e q u 0 s' = Some (False, s')))"
proof -
  obtain m where n: "n = Suc m"
    using assms(3) by (cases n) auto
  let ?s1 = "s\<lparr>owner_pid := p, owner_tid := t, recursion_count := 1\<rparr>"
  let ?s' = "?s1\<lparr>recursion_count := 1 + of_nat m\<rparr>"
  have "try_lock_for 1 e p t (-1) s = Some (True, ?s1)"
    using assms by (simp add: try_lock_for_def)
  then have l: "lock_times n e p t s = Some ?s'"
    using lock_times_owner [of ?s1 p t m e] by (simp add: n)
  have c: "unat (recursion_count ?s') = n"
    using assms(4) by (simp add: n unat_of_nat flip: of_nat_Suc)
  then have u: "unlock_times m p t ?s' = Inr (?s'\<lparr>recursion_count := 1\<rparr>)"
    by (intro unlock_times_owner) (simp_all add: n)
  have split: "unlock_times (Suc k) p t x = (case unlock_times k p t x of Inl e \<Rightarrow> Inl e | Inr y \<Rightarrow> unlock p t y)" for k x
  proof (induction k arbitrary: x)
    case 0
    show ?case by (simp split: sum.split)
  next
    case (Suc k)
    show ?case
    proof (cases "unlock p t x")
      case (Inr y)
      then have "unlock_times (Suc (Suc k)) p t x = unlock_times (Suc k) p t y"
        and "unlock_times (Suc k) p t x = unlock_times k p t y"
        by simp_all
      then show ?thesis
        by (simp only: Suc)
    qed simp
  qed
  have un: "unlock_times n p t ?s' = Inr \<lparr>owner_pid = 0, owner_tid = 0, generation = generation s + 1, recursion_count = 0\<rparr>"
    unfolding n split u by (cases s) (simp add: unlock_def)
  have "try_lock_for 1 e q v 0 ?s' = Some (False, ?s')" if "(q, v) \<noteq> (p, t)" "se_alive e 0 p" for q v
    using that assms(2) by (auto simp: try_lock_for_def spin_gives_up_def)
  then show ?thesis
    using l c u un by (intro exI [of _ ?s']) (auto simp: n unlock_def)
qed

section \<open>Witnesses\<close>

definition quiet_spin_env :: spin_env where
  "quiet_spin_env = \<lparr>se_step = (\<lambda>k s. s), se_race = (\<lambda>k s. s), se_spurious = (\<lambda>k. False),
     se_alive = (\<lambda>k p. True), se_clock = of_nat\<rparr>"

definition spin_start :: spin_sys where
  "spin_start = \<lparr>sp_lock = init_spinlock_state, sp_pc = (\<lambda>_. S_Run 0), sp_dead = {}\<rparr>"

text \<open>Thread 5 of process 7 in the compare-and-swap loop.\<close>

definition spin_waiting :: spin_sys where
  "spin_waiting = put_pc 5 (S_Spin 0) init_spinlock_state (put_pc 5 (S_Chk1 0 0) init_spinlock_state spin_start)"

lemma spin_waiting_reach: "reach spin_init (spin_sys_step (\<lambda>_. 7)) spin_waiting"
proof -
  let ?s1 = "put_pc 5 (S_Chk1 0 0) init_spinlock_state spin_start"
  have "reach spin_init (spin_sys_step (\<lambda>_. 7)) spin_start"
    by (rule reach_init) (simp add: spin_init_def spin_start_def)
  moreover have "spin_sys_step (\<lambda>_. 7) spin_start ?s1"
    using sp_try [of spin_start 5 0 "\<lambda>_. 7"] by (intro sys_thread [of _ 5])
      (simp_all add: spin_start_def init_spinlock_state_def)
  moreover have "spin_sys_step (\<lambda>_. 7) ?s1 spin_waiting"
    using sp_chk_pid [of ?s1 5 0 0 "\<lambda>_. 7"] by (intro sys_thread [of _ 5])
      (simp_all add: spin_waiting_def init_spinlock_state_def spin_start_def)
  ultimately show ?thesis
    by (meson reach_step)
qed

theorem spin_lock_excludes_witness:
  "\<exists>s' z. spin_sys_step (\<lambda>_. 7) spin_waiting s' \<and> sp_pc s' 5 = S_Got z"
proof -
  have "live (\<lambda>_. 7) spin_waiting 5"
    by (simp add: live_def spin_waiting_def spin_start_def)
  from spin_lock_excludes [OF spin_waiting_reach this] show ?thesis
    by (simp add: spin_waiting_def spin_start_def)
qed

theorem spin_recursion_roundtrip_witness:
  "\<exists>s'. lock_times 3 quiet_spin_env 7 5 init_spinlock_state = Some s' \<and> unat (recursion_count s') = 3
     \<and> unlock_times 3 7 5 s' = Inr \<lparr>owner_pid = 0, owner_tid = 0, generation = 1, recursion_count = 0\<rparr>"
  using spin_recursion_roundtrip [of init_spinlock_state 7 3 quiet_spin_env 5]
  by (auto simp: init_spinlock_state_def quiet_spin_env_def)

end
