(* ===== verification/Wire_Envelope.thy ===== *)
theory Wire_Envelope
  imports Prelude "HOL-Library.Char_ord" "HOL-Library.Word"
begin

text \<open>
  The wire envelope of the control plane (\<open>utils/network_comm/wire_envelope.cpp\<close>): how a message is
  cut into frames and what a receiver checks before anything else runs. The JSON library and the
  hash function are parameters: \<open>dump\<close> and \<open>json_parse\<close> of which the code needs that parsing inverts
  serialising, and \<open>blake2b\<close>. The theory shows that whatever one side builds the other side accepts
  with the same identity, type, correlation and body, and which frame lists a router rejects, among
  them every message that a hub sends to a federation peer.
\<close>

section \<open>Hexadecimal text\<close>

definition kHex :: string where "kHex = ''0123456789abcdef''"

definition bytes_to_hex :: "string \<Rightarrow> string" where
  "bytes_to_hex raw = concat (map (\<lambda>c. let n = of_char c :: nat in [kHex ! (n div 16), kHex ! (n mod 16)]) raw)"

definition hex_digit :: "char \<Rightarrow> nat option" where
  "hex_digit c = (if CHR ''0'' \<le> c \<and> c \<le> CHR ''9'' then Some (of_char c - 48)
     else if CHR ''a'' \<le> c \<and> c \<le> CHR ''f'' then Some (of_char c - 97 + 10)
     else if CHR ''A'' \<le> c \<and> c \<le> CHR ''F'' then Some (of_char c - 65 + 10)
     else None)"

fun decode_hex :: "string \<Rightarrow> string option" where
  "decode_hex [] = Some []"
| "decode_hex [c] = None"
| "decode_hex (a # b # r) = (case (hex_digit a, hex_digit b) of
     (Some hi, Some lo) \<Rightarrow> map_option ((#) (char_of (hi * 16 + lo))) (decode_hex r)
   | _ \<Rightarrow> None)"

definition bytes_from_hex :: "string \<Rightarrow> string" where
  "bytes_from_hex h = (case decode_hex h of None \<Rightarrow> h | Some r \<Rightarrow> r)"

section \<open>JSON values\<close>

text \<open>An object keeps its members in the order of their names (\<open>std::map\<close>), a number is an integer or the 64
  bits of a double.\<close>

datatype Json = JNull | JBool bool | JInt int | JFloat "64 word" | JStr string | JArr "Json list"
  | JObj "(string \<times> Json) list"

fun key_less :: "string \<Rightarrow> string \<Rightarrow> bool" where
  "key_less [] k \<longleftrightarrow> k \<noteq> []"
| "key_less (c # cs) [] \<longleftrightarrow> False"
| "key_less (c # cs) (d # ds) \<longleftrightarrow> c < d \<or> c = d \<and> key_less cs ds"

fun member_put :: "string \<Rightarrow> Json \<Rightarrow> (string \<times> Json) list \<Rightarrow> (string \<times> Json) list" where
  "member_put k v [] = [(k, v)]"
| "member_put k v ((k', v') # kvs) =
     (if k = k' then (k, v) # kvs
      else if key_less k k' then (k, v) # (k', v') # kvs
      else (k', v') # member_put k v kvs)"

fun is_object :: "Json \<Rightarrow> bool" where
  "is_object (JObj kvs) = True"
| "is_object _ = False"

fun json_set :: "string \<Rightarrow> Json \<Rightarrow> Json \<Rightarrow> Json" where
  "json_set k v (JObj kvs) = JObj (member_put k v kvs)"
| "json_set k v j = j"

fun json_get :: "string \<Rightarrow> Json \<Rightarrow> Json option" where
  "json_get k (JObj kvs) = map_of kvs k"
| "json_get k _ = None"

section \<open>The envelope\<close>

definition kEnvelopeHashKey :: string where "kEnvelopeHashKey = ''envelope_hash''"
definition kFrameTypeControl :: string where "kFrameTypeControl = ''C''"
definition kMaxMsgTypeLen :: nat where "kMaxMsgTypeLen = 64"
definition kMaxCorrelationIdLen :: nat where "kMaxCorrelationIdLen = 64"

definition is_notify_msg_type :: "string \<Rightarrow> bool" where
  "is_notify_msg_type t \<longleftrightarrow> length ''_NOTIFY'' < length t \<and> drop (length t - length ''_NOTIFY'') t = ''_NOTIFY''"

record WireEnvelope =
  env_identity :: string
  env_msg_type :: string
  env_correlation_id :: string
  env_body :: Json

datatype BuildError = Identity_empty | Msg_type_length | Correlation_length | Correlation_empty | Body_not_object

datatype ParseError = frame_count | frame_type_marker | msg_type_empty | msg_type_too_long | correlation_too_long
  | correlation_missing | body_not_json | body_not_object | envelope_hash_missing | envelope_hash_mismatch

definition compute_envelope_hash :: "(string \<Rightarrow> string) \<Rightarrow> string \<Rightarrow> string \<Rightarrow> string \<Rightarrow> string" where
  "compute_envelope_hash blake2b identity msg_type corr = bytes_to_hex (blake2b (identity @ msg_type @ corr))"

definition stamp_and_append_body_frames ::
  "(string \<Rightarrow> string) \<Rightarrow> (Json \<Rightarrow> string) \<Rightarrow> string \<Rightarrow> string \<Rightarrow> string \<Rightarrow> Json \<Rightarrow> string list" where
  "stamp_and_append_body_frames blake2b dump identity msg_type corr body =
     [kFrameTypeControl, msg_type, corr,
      dump (json_set kEnvelopeHashKey (JStr (compute_envelope_hash blake2b identity msg_type corr)) body)]"

definition build_dealer_send ::
  "(string \<Rightarrow> string) \<Rightarrow> (Json \<Rightarrow> string) \<Rightarrow> string \<Rightarrow> string \<Rightarrow> string \<Rightarrow> Json \<Rightarrow> BuildError + string list" where
  "build_dealer_send blake2b dump identity msg_type corr body =
     (if identity = [] then Inl Identity_empty
      else if msg_type = [] \<or> kMaxMsgTypeLen < length msg_type then Inl Msg_type_length
      else if kMaxCorrelationIdLen < length corr then Inl Correlation_length
      else if corr = [] \<and> \<not> is_notify_msg_type msg_type then Inl Correlation_empty
      else if \<not> is_object body then Inl Body_not_object
      else Inr (stamp_and_append_body_frames blake2b dump identity msg_type corr body))"

definition build_router_send ::
  "(string \<Rightarrow> string) \<Rightarrow> (Json \<Rightarrow> string) \<Rightarrow> string \<Rightarrow> string \<Rightarrow> string \<Rightarrow> Json \<Rightarrow> BuildError + string list" where
  "build_router_send blake2b dump target msg_type corr body =
     (if target = [] then Inl Identity_empty
      else case build_dealer_send blake2b dump target msg_type corr body of
        Inl e \<Rightarrow> Inl e
      | Inr frames \<Rightarrow> Inr (target # frames))"

definition parse_common ::
  "(string \<Rightarrow> string) \<Rightarrow> (string \<Rightarrow> Json option) \<Rightarrow> string \<Rightarrow> string \<Rightarrow> string \<Rightarrow> string \<Rightarrow> ParseError + WireEnvelope" where
  "parse_common blake2b json_parse identity msg_type corr body_str =
     (if msg_type = [] then Inl msg_type_empty
      else if kMaxMsgTypeLen < length msg_type then Inl msg_type_too_long
      else if kMaxCorrelationIdLen < length corr then Inl correlation_too_long
      else if corr = [] \<and> \<not> is_notify_msg_type msg_type then Inl correlation_missing
      else case json_parse body_str of
        None \<Rightarrow> Inl body_not_json
      | Some body \<Rightarrow>
          if \<not> is_object body then Inl body_not_object
          else case json_get kEnvelopeHashKey body of
            Some (JStr received) \<Rightarrow>
              if received \<noteq> compute_envelope_hash blake2b identity msg_type corr then Inl envelope_hash_mismatch
              else Inr \<lparr>env_identity = identity, env_msg_type = msg_type, env_correlation_id = corr, env_body = body\<rparr>
          | _ \<Rightarrow> Inl envelope_hash_missing)"

definition parse_router_recv ::
  "(string \<Rightarrow> string) \<Rightarrow> (string \<Rightarrow> Json option) \<Rightarrow> string list \<Rightarrow> ParseError + WireEnvelope" where
  "parse_router_recv blake2b json_parse msg =
     (if length msg \<noteq> 5 then Inl frame_count
      else if msg ! 1 \<noteq> kFrameTypeControl then Inl frame_type_marker
      else parse_common blake2b json_parse (msg ! 0) (msg ! 2) (msg ! 3) (msg ! 4))"

definition parse_dealer_recv ::
  "(string \<Rightarrow> string) \<Rightarrow> (string \<Rightarrow> Json option) \<Rightarrow> string \<Rightarrow> string list \<Rightarrow> ParseError + WireEnvelope" where
  "parse_dealer_recv blake2b json_parse own msg =
     (if length msg \<noteq> 4 then Inl frame_count
      else if msg ! 0 \<noteq> kFrameTypeControl then Inl frame_type_marker
      else parse_common blake2b json_parse own (msg ! 1) (msg ! 2) (msg ! 3))"

section \<open>Federation frames\<close>

text \<open>What \<open>BrokerServiceImpl::run\<close> sends on the socket to a federation peer: three frames. The router
  of the peer sees them behind the identity of the sender.\<close>

definition peer_frames :: "(Json \<Rightarrow> string) \<Rightarrow> string \<Rightarrow> Json \<Rightarrow> string list" where
  "peer_frames dump msg_type body = [kFrameTypeControl, msg_type, dump body]"

definition hub_peer_hello :: "(Json \<Rightarrow> string) \<Rightarrow> string \<Rightarrow> string list" where
  "hub_peer_hello dump self_hub_uid = peer_frames dump ''HUB_PEER_HELLO''
     (json_set ''protocol_version'' (JInt 1) (json_set ''subscribed_channels'' (JArr [])
       (json_set ''hub_uid'' (JStr self_hub_uid) (JObj []))))"

definition hub_peer_bye :: "(Json \<Rightarrow> string) \<Rightarrow> string \<Rightarrow> string list" where
  "hub_peer_bye dump self_hub_uid = peer_frames dump ''HUB_PEER_BYE'' (JObj [(''hub_uid'', JStr self_hub_uid)])"

section \<open>Round trips\<close>

lemma hex_digit_kHex: "n < 16 \<Longrightarrow> hex_digit (kHex ! n) = Some n"
proof -
  assume "n < 16"
  then have "n \<in> {0, 1, 2, 3, 4, 5, 6, 7, 8, 9, 10, 11, 12, 13, 14, 15}"
    unfolding insert_iff empty_iff by presburger
  then show ?thesis
    by (auto simp: kHex_def hex_digit_def less_eq_char_def)
qed

lemma decode_hex_char:
  "decode_hex (kHex ! (of_char c div 16) # kHex ! (of_char c mod 16) # r) = map_option ((#) c) (decode_hex r)"
proof -
  have "(of_char c :: nat) < 256"
    by (rule nat_of_char_less_256)
  then have "hex_digit (kHex ! (of_char c div 16)) = Some (of_char c div 16)"
    "hex_digit (kHex ! (of_char c mod 16)) = Some (of_char c mod 16)"
    by (simp_all add: hex_digit_kHex less_mult_imp_div_less)
  then show ?thesis
    by (simp add: div_mult_mod_eq)
qed

lemma decode_bytes_to_hex: "decode_hex (bytes_to_hex raw) = Some raw"
  unfolding bytes_to_hex_def by (induction raw) (simp_all add: Let_def decode_hex_char del: decode_hex.simps(3))

lemma bytes_from_to_hex: "bytes_from_hex (bytes_to_hex raw) = raw"
  by (simp add: bytes_from_hex_def decode_bytes_to_hex)

lemma bytes_to_hex_inject: "bytes_to_hex a = bytes_to_hex b \<longleftrightarrow> a = b"
  using bytes_from_to_hex by metis

lemma map_of_member_put: "map_of (member_put k v kvs) = (map_of kvs)(k \<mapsto> v)"
  by (induction k v kvs rule: member_put.induct) (auto simp: fun_eq_iff)

lemma json_get_set: "is_object j \<Longrightarrow> json_get k (json_set k v j) = Some v"
  by (cases j) (simp_all add: map_of_member_put)

lemma is_object_set [simp]: "is_object (json_set k v j) = is_object j"
  by (cases j) simp_all

definition stamped :: "(string \<Rightarrow> string) \<Rightarrow> string \<Rightarrow> string \<Rightarrow> string \<Rightarrow> Json \<Rightarrow> Json" where
  "stamped blake2b identity msg_type corr body =
     json_set kEnvelopeHashKey (JStr (compute_envelope_hash blake2b identity msg_type corr)) body"

lemma parse_common_stamped:
  assumes "build_dealer_send blake2b dump identity msg_type corr body = Inr frames"
    and "json_parse (dump (stamped blake2b identity msg_type corr body)) = Some (stamped blake2b identity msg_type corr body)"
  shows "frames = [kFrameTypeControl, msg_type, corr, dump (stamped blake2b identity msg_type corr body)]"
    and "parse_common blake2b json_parse identity msg_type corr (dump (stamped blake2b identity msg_type corr body)) =
      Inr \<lparr>env_identity = identity, env_msg_type = msg_type, env_correlation_id = corr,
           env_body = stamped blake2b identity msg_type corr body\<rparr>"
  using assms by (auto simp: build_dealer_send_def parse_common_def stamp_and_append_body_frames_def stamped_def
      json_get_set split: if_splits)

text \<open>C19: what a dealer builds, the router accepts behind the dealer's identity, and what the router
  builds for a dealer, the dealer accepts under its own identity; identity, message type and correlation
  come back unchanged, and the body with its stamp. The JSON library has to parse what it serialised.\<close>

theorem envelope_roundtrip:
  assumes "json_parse (dump (stamped blake2b i t corr b)) = Some (stamped blake2b i t corr b)"
  shows "(build_dealer_send blake2b dump i t corr b = Inr frames \<longrightarrow>
      parse_router_recv blake2b json_parse (i # frames) =
        Inr \<lparr>env_identity = i, env_msg_type = t, env_correlation_id = corr, env_body = stamped blake2b i t corr b\<rparr>)
    \<and> (build_router_send blake2b dump i t corr b = Inr frames' \<longrightarrow>
      hd frames' = i \<and> parse_dealer_recv blake2b json_parse i (tl frames') =
        Inr \<lparr>env_identity = i, env_msg_type = t, env_correlation_id = corr, env_body = stamped blake2b i t corr b\<rparr>)"
proof (intro conjI impI)
  note stamp = parse_common_stamped [where dump = dump and json_parse = json_parse, OF _ assms]
  show "parse_router_recv blake2b json_parse (i # frames) =
      Inr \<lparr>env_identity = i, env_msg_type = t, env_correlation_id = corr, env_body = stamped blake2b i t corr b\<rparr>"
    if "build_dealer_send blake2b dump i t corr b = Inr frames"
    using stamp(2) [OF that] by (simp add: parse_router_recv_def stamp(1) [OF that])
  assume "build_router_send blake2b dump i t corr b = Inr frames'"
  then obtain frames0 where dealer: "build_dealer_send blake2b dump i t corr b = Inr frames0" "frames' = i # frames0"
    by (auto simp: build_router_send_def split: if_splits sum.splits)
  then show "hd frames' = i"
    by simp
  show "parse_dealer_recv blake2b json_parse i (tl frames') =
      Inr \<lparr>env_identity = i, env_msg_type = t, env_correlation_id = corr, env_body = stamped blake2b i t corr b\<rparr>"
    using stamp(2) [OF dealer(1)] by (simp add: parse_dealer_recv_def dealer(2) stamp(1) [OF dealer(1)])
qed

text \<open>C20: a router accepts a frame list exactly when it has the five frames of the envelope with the
  control marker, a type of 1 to 64 bytes, a correlation of at most 64 bytes that is empty only on
  notifications, and a JSON object whose stamp is the hash of identity, type and correlation; it then
  returns those frames.\<close>

theorem router_accepts_iff:
  "parse_router_recv blake2b json_parse msg = Inr e \<longleftrightarrow>
    (\<exists>payload kvs. msg = [env_identity e, ''C'', env_msg_type e, env_correlation_id e, payload]
      \<and> env_msg_type e \<noteq> [] \<and> length (env_msg_type e) \<le> 64 \<and> length (env_correlation_id e) \<le> 64
      \<and> (0 < length (env_correlation_id e) \<or> is_notify_msg_type (env_msg_type e))
      \<and> json_parse payload = Some (env_body e) \<and> env_body e = JObj kvs
      \<and> map_of kvs ''envelope_hash'' =
          Some (JStr (bytes_to_hex (blake2b (env_identity e @ env_msg_type e @ env_correlation_id e)))))"
    (is "?parse \<longleftrightarrow> ?ok")
proof
  assume parse: ?parse
  then obtain i m t c payload where msg: "msg = [i, m, t, c, payload]"
    by (auto simp: parse_router_recv_def length_Suc_conv numeral_eq_Suc split: if_splits)
  from parse obtain body where "m = ''C''" "e = \<lparr>env_identity = i, env_msg_type = t, env_correlation_id = c, env_body = body\<rparr>"
      "json_parse payload = Some body" "is_object body"
      "json_get ''envelope_hash'' body = Some (JStr (bytes_to_hex (blake2b (i @ t @ c))))"
      "t \<noteq> []" "length t \<le> 64" "length c \<le> 64" "c \<noteq> [] \<or> is_notify_msg_type t"
    by (auto simp: msg parse_router_recv_def parse_common_def compute_envelope_hash_def kEnvelopeHashKey_def kFrameTypeControl_def
        kMaxMsgTypeLen_def kMaxCorrelationIdLen_def not_less split: if_splits option.splits Json.splits)
  then show ?ok
    by (cases body) (auto simp: msg)
qed (auto simp: parse_router_recv_def parse_common_def compute_envelope_hash_def kEnvelopeHashKey_def kFrameTypeControl_def
    kMaxMsgTypeLen_def kMaxCorrelationIdLen_def not_less)


text \<open>The stamp covers the concatenation of the three frames, not their boundaries: a message cut elsewhere
  keeps its stamp.\<close>

lemma stamp_ignores_boundaries:
  "i @ t @ c = i' @ t' @ c' \<Longrightarrow> compute_envelope_hash blake2b i t c = compute_envelope_hash blake2b i' t' c'"
  by (simp add: compute_envelope_hash_def)

section \<open>Witnesses\<close>

text \<open>A serialiser of flat objects of strings, and its parser.\<close>

fun flat_dump :: "Json \<Rightarrow> string" where
  "flat_dump (JObj kvs) = concat (map (\<lambda>(k, v). k @ ''='' @ (case v of JStr s \<Rightarrow> s | _ \<Rightarrow> []) @ '';'') kvs)"
| "flat_dump _ = []"

fun flat_fields :: "(string \<times> Json) list \<Rightarrow> string \<Rightarrow> string option \<Rightarrow> string \<Rightarrow> Json option" where
  "flat_fields kvs k v [] = (if k = [] \<and> v = None then Some (JObj kvs) else None)"
| "flat_fields kvs k None (c # cs) =
     (if c = CHR ''='' then flat_fields kvs k (Some []) cs else flat_fields kvs (k @ [c]) None cs)"
| "flat_fields kvs k (Some v) (c # cs) =
     (if c = CHR '';'' then flat_fields (kvs @ [(k, JStr v)]) [] None cs else flat_fields kvs k (Some (v @ [c])) cs)"

definition flat_parse :: "string \<Rightarrow> Json option" where
  "flat_parse = flat_fields [] [] None"

definition demo_body :: Json where
  "demo_body = JObj [(''channel_name'', JStr ''lab.cam''), (''role_uid'', JStr ''prod.cam.u1'')]"

theorem envelope_roundtrip_witness:
  "parse_router_recv (\<lambda>s. s) flat_parse
     (''prod.cam.u1'' # stamp_and_append_body_frames (\<lambda>s. s) flat_dump ''prod.cam.u1'' ''REG_REQ'' ''c7'' demo_body) =
   Inr \<lparr>env_identity = ''prod.cam.u1'', env_msg_type = ''REG_REQ'', env_correlation_id = ''c7'',
        env_body = stamped (\<lambda>s. s) ''prod.cam.u1'' ''REG_REQ'' ''c7'' demo_body\<rparr>"
proof -
  have "flat_parse (flat_dump (stamped (\<lambda>s. s) ''prod.cam.u1'' ''REG_REQ'' ''c7'' demo_body)) =
      Some (stamped (\<lambda>s. s) ''prod.cam.u1'' ''REG_REQ'' ''c7'' demo_body)"
    by code_simp
  moreover have "build_dealer_send (\<lambda>s. s) flat_dump ''prod.cam.u1'' ''REG_REQ'' ''c7'' demo_body =
      Inr (stamp_and_append_body_frames (\<lambda>s. s) flat_dump ''prod.cam.u1'' ''REG_REQ'' ''c7'' demo_body)"
    by (simp add: build_dealer_send_def kMaxMsgTypeLen_def kMaxCorrelationIdLen_def demo_body_def)
  ultimately show ?thesis
    using envelope_roundtrip [THEN conjunct1, rule_format] by blast
qed

end
