(* ===== verification/Hub_Naming.thy ===== *)
theory Hub_Naming
  imports Prelude "HOL-Library.Char_ord"
begin

text \<open>
  Identifiers of the hub (\<open>utils/core/naming.cpp\<close>): the validator that every entry point of the
  hub state calls, and the parsers of role, peer and schema identifiers. The validator works with
  indices over one string; the theory shows that it decides the grammar which the header file
  states, and that the parsers invert the construction of the identifiers.
\<close>

section \<open>String views\<close>

text \<open>\<open>find\<close>, \<open>rfind\<close> and \<open>substr\<close> of \<open>std::string_view\<close>; \<open>npos\<close> is \<open>None\<close>.\<close>

definition find_char :: "char \<Rightarrow> nat \<Rightarrow> string \<Rightarrow> nat option" where
  "find_char c pos s = (let n = pos + length (takeWhile (\<lambda>x. x \<noteq> c) (drop pos s))
     in if n < length s then Some n else None)"

definition rfind_char :: "char \<Rightarrow> string \<Rightarrow> nat option" where
  "rfind_char c s = map_option (\<lambda>n. length s - 1 - n) (find_char c 0 (rev s))"

definition substr :: "string \<Rightarrow> nat \<Rightarrow> nat \<Rightarrow> string" where
  "substr s pos n = take n (drop pos s)"

section \<open>The validator\<close>

datatype IdentifierKind = Channel | Band | RoleUid | RoleName | PeerUid | Schema | SysKey

definition kMaxComponentLen :: nat where "kMaxComponentLen = 64"
definition kMaxTotalLen :: nat where "kMaxTotalLen = 256"

definition is_first_char :: "char \<Rightarrow> bool" where
  "is_first_char c \<longleftrightarrow> (CHR ''A'' \<le> c \<and> c \<le> CHR ''Z'') \<or> (CHR ''a'' \<le> c \<and> c \<le> CHR ''z'')"

definition is_component_char :: "char \<Rightarrow> bool" where
  "is_component_char c \<longleftrightarrow> is_first_char c \<or> (CHR ''0'' \<le> c \<and> c \<le> CHR ''9'') \<or> c = CHR ''_'' \<or> c = CHR ''-''"

definition is_valid_component :: "string \<Rightarrow> bool" where
  "is_valid_component c = (if c = [] \<or> kMaxComponentLen < length c then False
     else if \<not> is_first_char (c ! 0) then False
     else list_all (\<lambda>i. is_component_char (c ! i)) [1..<length c])"

function for_each_component :: "(string \<Rightarrow> bool) \<Rightarrow> string \<Rightarrow> nat \<Rightarrow> nat \<Rightarrow> bool" where
  "for_each_component f body start i =
     (if length body < i then True
      else if i = length body \<or> body ! i = CHR ''.'' then
        (let comp = substr body start (i - start)
         in if \<not> is_valid_component comp then False
            else if \<not> f comp then False
            else for_each_component f body (i + 1) (i + 1))
      else for_each_component f body start (i + 1))"
  by pat_completeness auto
termination
  by (relation "measure (\<lambda>(f, body, start, i). length body + 1 - i)") auto

declare for_each_component.simps [simp del]

definition validate_dotted_body :: "string \<Rightarrow> bool" where
  "validate_dotted_body body = (if body = [] then False else for_each_component (\<lambda>_. True) body 0 0)"

definition count_dots :: "string \<Rightarrow> nat" where
  "count_dots s = length (filter (\<lambda>c. c = CHR ''.'') s)"

definition kRoleTags :: "string list" where "kRoleTags = [''prod'', ''cons'', ''proc'']"
definition kPeerTag :: string where "kPeerTag = ''hub''"
definition kChannelReservedFirst :: "string list" where
  "kChannelReservedFirst = [''prod'', ''cons'', ''proc'', ''hub'', ''sys'']"

definition is_valid_tagged_uid_structure :: "string \<Rightarrow> bool" where
  "is_valid_tagged_uid_structure s = (if \<not> validate_dotted_body s then False else 2 \<le> count_dots s)"

definition first_component :: "string \<Rightarrow> string" where
  "first_component s = (case find_char (CHR ''.'') 0 s of None \<Rightarrow> s | Some d \<Rightarrow> substr s 0 d)"

definition last_component :: "string \<Rightarrow> string" where
  "last_component s = (case rfind_char (CHR ''.'') s of None \<Rightarrow> s | Some d \<Rightarrow> drop (d + 1) s)"

definition digit_val :: "char \<Rightarrow> nat" where
  "digit_val c = of_char c - of_char CHR ''0''"

text \<open>The digits of a version component, accumulated in 64 bits and checked against 32.\<close>

fun version_digits :: "u64 \<Rightarrow> string \<Rightarrow> u32 option" where
  "version_digits acc [] = Some (ucast acc)"
| "version_digits acc (c # s) = (if c < CHR ''0'' \<or> CHR ''9'' < c then None
     else let acc' = acc * 10 + of_nat (digit_val c)
       in if 0xFFFFFFFF < acc' then None else version_digits acc' s)"

definition is_version_component :: "string \<Rightarrow> u32 option" where
  "is_version_component s = (if length s < 2 \<or> s ! 0 \<noteq> CHR ''v'' then None else version_digits 0 (drop 1 s))"

definition is_valid_identifier :: "string \<Rightarrow> IdentifierKind \<Rightarrow> bool" where
  "is_valid_identifier s kind = (if s = [] \<or> kMaxTotalLen < length s then False else
     (case kind of
        Channel \<Rightarrow> if \<not> validate_dotted_body s then False
          else first_component s \<notin> set kChannelReservedFirst
      | RoleName \<Rightarrow> validate_dotted_body s
      | Band \<Rightarrow> hd s = CHR ''!'' \<and> validate_dotted_body (drop 1 s)
      | Schema \<Rightarrow> if length s < 2 \<or> hd s \<noteq> CHR ''$'' then False
          else let body = drop 1 s in
            if \<not> validate_dotted_body body then False
            else if find_char (CHR ''.'') 0 body = None then False
            else is_version_component (last_component body) \<noteq> None
      | RoleUid \<Rightarrow> is_valid_tagged_uid_structure s \<and> first_component s \<in> set kRoleTags
      | PeerUid \<Rightarrow> is_valid_tagged_uid_structure s \<and> first_component s = kPeerTag
      | SysKey \<Rightarrow> if length s < 5 then False
          else if substr s 0 4 \<noteq> ''sys.'' then False
          else validate_dotted_body s))"

fun identifier_kind_to_string :: "IdentifierKind \<Rightarrow> string" where
  "identifier_kind_to_string Channel = ''Channel''"
| "identifier_kind_to_string Band = ''Band''"
| "identifier_kind_to_string RoleUid = ''RoleUid''"
| "identifier_kind_to_string RoleName = ''RoleName''"
| "identifier_kind_to_string PeerUid = ''PeerUid''"
| "identifier_kind_to_string Schema = ''Schema''"
| "identifier_kind_to_string SysKey = ''SysKey''"

text \<open>\<open>Inl\<close> is the panic, with its message.\<close>

definition require_valid_identifier :: "string \<Rightarrow> IdentifierKind \<Rightarrow> string \<Rightarrow> string + unit" where
  "require_valid_identifier s kind ctx = (if \<not> is_valid_identifier s kind
     then Inl (''invalid identifier: '' @ [CHR 0x27] @ s @ [CHR 0x27] @ '' (kind='' @ identifier_kind_to_string kind
       @ '') ctx='' @ [CHR 0x27] @ ctx @ [CHR 0x27])
     else Inr ())"

section \<open>The parsers\<close>

record TaggedUidParts =
  tag :: string
  tu_name :: string
  unique :: string

definition split_tagged_uid :: "string \<Rightarrow> TaggedUidParts" where
  "split_tagged_uid uid = (let d1 = the (find_char (CHR ''.'') 0 uid);
       d2 = the (find_char (CHR ''.'') (d1 + 1) uid)
     in \<lparr>tag = substr uid 0 d1, tu_name = substr uid (d1 + 1) (d2 - d1 - 1), unique = drop (d2 + 1) uid\<rparr>)"

definition parse_role_uid :: "string \<Rightarrow> TaggedUidParts option" where
  "parse_role_uid uid = (if \<not> is_valid_identifier uid RoleUid then None else Some (split_tagged_uid uid))"

definition parse_peer_uid :: "string \<Rightarrow> TaggedUidParts option" where
  "parse_peer_uid uid = (if \<not> is_valid_identifier uid PeerUid then None else Some (split_tagged_uid uid))"

record SchemaIdParts =
  base :: string
  version_token :: string
  version :: u32

definition parse_schema_id :: "string \<Rightarrow> SchemaIdParts option" where
  "parse_schema_id i = (if \<not> is_valid_identifier i Schema then None
     else let body = drop 1 i; last_dot = the (rfind_char (CHR ''.'') body); token = drop (last_dot + 1) body
       in Some \<lparr>base = substr body 0 last_dot, version_token = token,
            version = (case is_version_component token of None \<Rightarrow> 0 | Some v \<Rightarrow> v)\<rparr>)"

definition short_role_tag :: "string \<Rightarrow> string" where
  "short_role_tag role_type = (if role_type = ''producer'' then ''prod''
     else if role_type = ''consumer'' then ''cons''
     else if role_type = ''processor'' then ''proc''
     else substr role_type 0 (min (length role_type) 4))"

definition extract_short_tag :: "string \<Rightarrow> string option" where
  "extract_short_tag uid = map_option tag (parse_role_uid uid)"

definition format_role_ref :: "string \<Rightarrow> string \<Rightarrow> string \<Rightarrow> string" where
  "format_role_ref uid nm tg = (if uid \<noteq> [] then uid
     else (if tg \<noteq> [] then ''['' @ tg @ '']'' @ (if nm \<noteq> [] then '' '' else []) else []) @ nm)"

section \<open>Dotted strings\<close>

fun split_acc :: "string \<Rightarrow> string \<Rightarrow> string list" where
  "split_acc cur [] = [cur]"
| "split_acc cur (c # s) = (if c = CHR ''.'' then cur # split_acc [] s else split_acc (cur @ [c]) s)"

abbreviation split_dots :: "string \<Rightarrow> string list" where
  "split_dots \<equiv> split_acc []"

fun join_dots :: "string list \<Rightarrow> string" where
  "join_dots [] = []"
| "join_dots [c] = c"
| "join_dots (c # cs) = c @ CHR ''.'' # join_dots cs"

abbreviation no_dot :: "string \<Rightarrow> bool" where
  "no_dot c \<equiv> CHR ''.'' \<notin> set c"

lemma split_acc_nonempty [simp]: "split_acc cur s \<noteq> []"
  by (induction cur s rule: split_acc.induct) auto

lemma split_acc_no_dot: "no_dot cur \<Longrightarrow> list_all no_dot (split_acc cur s)"
  by (induction cur s rule: split_acc.induct) auto

lemma join_dots_Cons: "cs \<noteq> [] \<Longrightarrow> join_dots (c # cs) = c @ CHR ''.'' # join_dots cs"
  by (cases cs) auto

lemma join_split_acc: "join_dots (split_acc cur s) = cur @ s"
  by (induction cur s rule: split_acc.induct) (auto simp: join_dots_Cons)

lemma split_acc_append: "no_dot c \<Longrightarrow> split_acc cur (c @ s) = split_acc (cur @ c) s"
  by (induction c arbitrary: cur) auto

lemma split_join:
  assumes "cs \<noteq> []" and "list_all no_dot cs"
  shows "split_dots (join_dots cs) = cs"
  using assms
proof (induction cs rule: join_dots.induct)
  case (2 c)
  then show ?case
    using split_acc_append [of c "[]" "[]"] by simp
next
  case (3 c d cs)
  then show ?case
    by (simp add: split_acc_append)
qed simp

lemma split_dots_iff: "split_dots s = cs \<longleftrightarrow> cs \<noteq> [] \<and> list_all no_dot cs \<and> s = join_dots cs"
  using split_join [of cs] split_acc_no_dot [of "[]" s] join_split_acc [of "[]" s] by auto

lemma length_split_acc: "length (split_acc cur s) = count_dots s + 1"
  by (induction cur s rule: split_acc.induct) (auto simp: count_dots_def)

lemma valid_component_iff:
  "is_valid_component c \<longleftrightarrow> c \<noteq> [] \<and> length c \<le> 64 \<and> is_first_char (hd c) \<and> list_all is_component_char (tl c)"
proof (cases c)
  case (Cons a t)
  have "list_all (\<lambda>i. is_component_char (c ! i)) [1..<length c] \<longleftrightarrow> list_all is_component_char t"
  proof -
    have "[1..<length c] = map Suc [0..<length t]"
      by (simp add: Cons map_Suc_upt)
    then show ?thesis
      by (simp add: Cons list.pred_map comp_def list_all_length del: upt_Suc)
  qed
  then show ?thesis
    by (simp add: Cons is_valid_component_def kMaxComponentLen_def)
qed (simp add: is_valid_component_def)

lemma not_first_dot [simp]: "\<not> is_first_char CHR ''.''" "\<not> is_component_char CHR ''.''"
  by (simp_all add: is_component_char_def is_first_char_def)

lemma valid_component_no_dot: "is_valid_component c \<Longrightarrow> no_dot c"
  by (cases c) (auto simp: valid_component_iff list_all_iff)

lemma for_each_component_split:
  assumes "start \<le> i" and "i \<le> length body"
  shows "for_each_component f body start i \<longleftrightarrow>
    list_all (\<lambda>c. is_valid_component c \<and> f c) (split_acc (substr body start (i - start)) (drop i body))"
  using assms
proof (induction f body start i rule: for_each_component.induct)
  case (1 f body start i)
  have beyond: "for_each_component f body j j" if "length body < j" for j
    using that by (simp add: for_each_component.simps)
  show ?case
  proof (cases "i = length body")
    case True
    then show ?thesis
      by (simp add: for_each_component.simps [of f body start] beyond Let_def)
  next
    case False
    then have i: "i < length body"
      using 1(4) by simp
    then have d: "drop i body = body ! i # drop (i + 1) body"
      by (simp add: Cons_nth_drop_Suc)
    show ?thesis
    proof (cases "body ! i = CHR ''.''")
      case True
      have "for_each_component f body (i + 1) (i + 1) \<longleftrightarrow>
        list_all (\<lambda>c. is_valid_component c \<and> f c) (split_dots (drop (i + 1) body))"
        if "is_valid_component (substr body start (i - start))" "f (substr body start (i - start))"
        using that i 1 True by (simp add: substr_def)
      then show ?thesis
        using i True by (auto simp: for_each_component.simps [of f body start] d Let_def)
    next
      case ne: False
      have "substr body start (i + 1 - start) = substr body start (i - start) @ [body ! i]"
        using 1(3) i by (simp add: substr_def Suc_diff_le take_Suc_conv_app_nth)
      then show ?thesis
        using ne i 1 by (auto simp: for_each_component.simps [of f body start] d)
    qed
  qed
qed

lemma validate_dotted_body_iff: "validate_dotted_body s \<longleftrightarrow> list_all is_valid_component (split_dots s)"
  using for_each_component_split [of 0 0 s "\<lambda>_. True"]
  by (cases "s = []") (simp_all add: validate_dotted_body_def substr_def, simp add: valid_component_iff)

lemma validate_join: "validate_dotted_body s \<longleftrightarrow> (\<exists>cs. cs \<noteq> [] \<and> list_all is_valid_component cs \<and> s = join_dots cs)"
proof
  assume "validate_dotted_body s"
  then show "\<exists>cs. cs \<noteq> [] \<and> list_all is_valid_component cs \<and> s = join_dots cs"
    using join_split_acc [of "[]" s] by (intro exI [of _ "split_dots s"]) (simp add: validate_dotted_body_iff)
next
  assume "\<exists>cs. cs \<noteq> [] \<and> list_all is_valid_component cs \<and> s = join_dots cs"
  then show "validate_dotted_body s"
    using split_join by (auto simp: validate_dotted_body_iff list_all_iff valid_component_no_dot)
qed


lemma take_while_join: "no_dot c \<Longrightarrow> takeWhile (\<lambda>x. x \<noteq> CHR ''.'') (c @ CHR ''.'' # s) = c"
  by (induction c) auto

lemma find_char_dot: "no_dot c \<Longrightarrow> find_char CHR ''.'' 0 (c @ CHR ''.'' # s) = Some (length c)"
  by (simp add: find_char_def take_while_join)

lemma find_char_no_dot: "no_dot c \<Longrightarrow> find_char CHR ''.'' 0 c = None"
  by (induction c) (auto simp: find_char_def Let_def)

lemma find_char_from: "find_char c (length p) (p @ s) = map_option ((+) (length p)) (find_char c 0 s)"
  by (simp add: find_char_def Let_def)

lemma rfind_char_dot: "no_dot c \<Longrightarrow> rfind_char CHR ''.'' (s @ CHR ''.'' # c) = Some (length s)"
  using find_char_dot [of "rev c" "rev s"] by (simp add: rfind_char_def)

lemma rfind_char_no_dot: "no_dot c \<Longrightarrow> rfind_char CHR ''.'' c = None"
  using find_char_no_dot [of "rev c"] by (simp add: rfind_char_def)

lemma first_component_join:
  assumes "cs \<noteq> []" and "list_all no_dot cs"
  shows "first_component (join_dots cs) = hd cs"
  using assms by (cases cs rule: join_dots.cases)
    (simp_all add: first_component_def find_char_dot find_char_no_dot substr_def)

lemma join_dots_snoc: "cs \<noteq> [] \<Longrightarrow> join_dots (cs @ [c]) = join_dots cs @ CHR ''.'' # c"
  by (induction cs rule: join_dots.induct) auto

lemma last_component_join:
  assumes "cs \<noteq> []" and "list_all no_dot cs"
  shows "last_component (join_dots cs) = last cs"
proof (cases cs rule: rev_cases)
  case (snoc ds c)
  then show ?thesis
    using assms by (cases "ds = []")
      (simp_all add: join_dots_snoc last_component_def rfind_char_dot rfind_char_no_dot)
qed (use assms in simp)

lemma count_dots_join:
  assumes "cs \<noteq> []" and "list_all no_dot cs"
  shows "count_dots (join_dots cs) + 1 = length cs"
  using length_split_acc [of "[]" "join_dots cs"] split_join [OF assms] by simp

lemma find_dot_join:
  assumes "cs \<noteq> []" and "list_all no_dot cs"
  shows "find_char CHR ''.'' 0 (join_dots cs) = None \<longleftrightarrow> length cs = 1"
  using assms by (cases cs rule: join_dots.cases) (simp_all add: find_char_dot find_char_no_dot)

section \<open>The version component\<close>

abbreviation is_digit :: "char \<Rightarrow> bool" where
  "is_digit c \<equiv> CHR ''0'' \<le> c \<and> c \<le> CHR ''9''"

definition dec_value :: "string \<Rightarrow> nat" where
  "dec_value = foldl (\<lambda>n c. n * 10 + digit_val c) 0"

abbreviation dec_from :: "nat \<Rightarrow> string \<Rightarrow> nat" where
  "dec_from \<equiv> foldl (\<lambda>n c. n * 10 + digit_val c)"

lemma dec_from_mono: "n \<le> dec_from n s"
proof (induction s arbitrary: n)
  case (Cons c s)
  have "n \<le> n * 10 + digit_val c"
    by simp
  also have "\<dots> \<le> dec_from (n * 10 + digit_val c) s"
    by (rule Cons)
  finally show ?case
    by simp
qed simp

lemma digit_code: "is_digit c \<Longrightarrow> digit_val c \<le> 9"
  by (simp add: digit_val_def less_eq_char_def) linarith

lemma version_digits_iff:
  assumes "unat acc \<le> 0xFFFFFFFF"
  shows "version_digits acc s = (if list_all is_digit s \<and> dec_from (unat acc) s \<le> 0xFFFFFFFF
    then Some (of_nat (dec_from (unat acc) s)) else None)"
  using assms
proof (induction s arbitrary: acc)
  case Nil
  then show ?case
    by (simp add: unsigned_ucast_eq word_unat_eq_iff unat_of_nat take_bit_nat_def)
next
  case (Cons c s)
  let ?a = "acc * 10 + of_nat (digit_val c)"
  show ?case
  proof (cases "is_digit c")
    case True
    then have a: "unat ?a = unat acc * 10 + digit_val c"
      using Cons.prems digit_code [OF True] by (simp add: unat_word_ariths unat_of_nat)
    have step: "version_digits acc (c # s) = (if 0xFFFFFFFF < ?a then None else version_digits ?a s)"
      using True by (auto simp: Let_def)
    show ?thesis
    proof (cases "unat ?a \<le> 0xFFFFFFFF")
      case le: True
      then have "\<not> 0xFFFFFFFF < ?a"
        by (simp add: word_less_nat_alt)
      then show ?thesis
        unfolding step using Cons.IH [OF le] True by (simp add: a)
    next
      case False
      then have "0xFFFFFFFF < ?a"
        by (simp add: word_less_nat_alt)
      moreover have "0xFFFFFFFF < dec_from (unat acc * 10 + digit_val c) s"
        using False dec_from_mono [of "unat acc * 10 + digit_val c" s] by (simp add: a)
      ultimately show ?thesis
        unfolding step by simp
    qed
  qed auto
qed

lemma is_version_component_iff:
  "is_version_component t = Some v \<longleftrightarrow> (\<exists>ds. t = CHR ''v'' # ds \<and> ds \<noteq> [] \<and> list_all is_digit ds
     \<and> dec_value ds < 2 ^ 32 \<and> v = of_nat (dec_value ds))"
proof (cases t)
  case (Cons c ds)
  then show ?thesis
    using version_digits_iff [of 0 ds] by (cases ds) (auto simp: is_version_component_def dec_value_def)
qed (simp add: is_version_component_def)

section \<open>The grammar\<close>

text \<open>The grammar of the header file: \<open>name_component\<close> is a letter followed by at most 63 letters,
  digits, underscores and hyphens, and an identifier is a dotted list of components with the
  restrictions of its kind.\<close>

definition name_component :: "string \<Rightarrow> bool" where
  "name_component c \<longleftrightarrow> (\<exists>a t. c = a # t \<and> length t \<le> 63 \<and> is_first_char a \<and> (\<forall>x\<in>set t. is_component_char x))"

definition grammar :: "IdentifierKind \<Rightarrow> string \<Rightarrow> bool" where
  "grammar kind s \<longleftrightarrow> length s \<le> 256 \<and> (\<exists>cs. cs \<noteq> [] \<and> (\<forall>c\<in>set cs. name_component c) \<and>
     (case kind of
        Channel \<Rightarrow> s = join_dots cs \<and> hd cs \<notin> {''prod'', ''cons'', ''proc'', ''hub'', ''sys''}
      | RoleName \<Rightarrow> s = join_dots cs
      | Band \<Rightarrow> s = CHR ''!'' # join_dots cs
      | RoleUid \<Rightarrow> s = join_dots cs \<and> 3 \<le> length cs \<and> hd cs \<in> {''prod'', ''cons'', ''proc''}
      | PeerUid \<Rightarrow> s = join_dots cs \<and> 3 \<le> length cs \<and> hd cs = ''hub''
      | SysKey \<Rightarrow> s = join_dots cs \<and> 2 \<le> length cs \<and> hd cs = ''sys''
      | Schema \<Rightarrow> s = CHR ''$'' # join_dots cs \<and> 2 \<le> length cs \<and>
          (\<exists>ds. last cs = CHR ''v'' # ds \<and> ds \<noteq> [] \<and> (\<forall>d\<in>set ds. is_digit d) \<and> dec_value ds < 2 ^ 32)))"

lemma valid_component_name: "is_valid_component c \<longleftrightarrow> name_component c"
  by (cases c) (auto simp: valid_component_iff name_component_def list_all_iff)

text \<open>A dotted body has exactly one list of components.\<close>

lemma dotted_ex_iff:
  "(\<exists>cs. cs \<noteq> [] \<and> (\<forall>c\<in>set cs. name_component c) \<and> s = join_dots cs \<and> P cs) \<longleftrightarrow>
     validate_dotted_body s \<and> P (split_dots s)"
proof
  assume "\<exists>cs. cs \<noteq> [] \<and> (\<forall>c\<in>set cs. name_component c) \<and> s = join_dots cs \<and> P cs"
  then obtain cs where cs: "cs \<noteq> []" "list_all is_valid_component cs" "s = join_dots cs" "P cs"
    by (auto simp: list_all_iff valid_component_name)
  then have "split_dots s = cs"
    by (simp add: split_join list_all_iff valid_component_no_dot)
  then show "validate_dotted_body s \<and> P (split_dots s)"
    using cs by (simp add: validate_dotted_body_iff)
next
  assume "validate_dotted_body s \<and> P (split_dots s)"
  then show "\<exists>cs. cs \<noteq> [] \<and> (\<forall>c\<in>set cs. name_component c) \<and> s = join_dots cs \<and> P cs"
    using join_split_acc [of "[]" s] by (intro exI [of _ "split_dots s"])
      (auto simp: validate_dotted_body_iff list_all_iff valid_component_name)
qed

lemma split_dots_props:
  "first_component s = hd (split_dots s)" "last_component s = last (split_dots s)"
  "count_dots s + 1 = length (split_dots s)" "find_char CHR ''.'' 0 s = None \<longleftrightarrow> length (split_dots s) = 1"
  using first_component_join [of "split_dots s"] last_component_join [of "split_dots s"]
    find_dot_join [of "split_dots s"] length_split_acc [of "[]" s] join_split_acc [of "[]" s]
    split_acc_no_dot [of "[]" s]
  by simp_all

lemma not_validate_Nil [simp]: "\<not> validate_dotted_body []"
  by (simp add: validate_dotted_body_def)

lemma ex_digits_iff:
  "is_version_component t \<noteq> None \<longleftrightarrow>
     (\<exists>ds. t = CHR ''v'' # ds \<and> ds \<noteq> [] \<and> (\<forall>d\<in>set ds. is_digit d) \<and> dec_value ds < 2 ^ 32)"
  by (auto simp: is_version_component_iff list_all_iff simp flip: not_None_eq)

lemma sys_prefix_iff:
  assumes "validate_dotted_body s"
  shows "5 \<le> length s \<and> substr s 0 4 = ''sys.'' \<longleftrightarrow> 2 \<le> length (split_dots s) \<and> hd (split_dots s) = ''sys''"
proof
  assume "5 \<le> length s \<and> substr s 0 4 = ''sys.''"
  then have "s = ''sys.'' @ drop 4 s"
    using append_take_drop_id [of 4 s] by (simp add: substr_def)
  then have "split_dots s = ''sys'' # split_dots (drop 4 s)"
    using split_acc_append [of "''sys''" "[]" "CHR ''.'' # drop 4 s"] by simp
  then show "2 \<le> length (split_dots s) \<and> hd (split_dots s) = ''sys''"
    by (simp add: Suc_le_eq)
next
  assume sys: "2 \<le> length (split_dots s) \<and> hd (split_dots s) = ''sys''"
  then obtain d ds where split: "split_dots s = ''sys'' # d # ds"
    by (cases "split_dots s"; cases "tl (split_dots s)") auto
  then have s: "s = ''sys.'' @ join_dots (d # ds)"
    using join_split_acc [of "[]" s] by simp
  have "is_valid_component d"
    using assms split by (simp add: validate_dotted_body_iff)
  then have "join_dots (d # ds) \<noteq> []"
    by (cases ds) (auto simp: valid_component_iff)
  then have "0 < length (join_dots (d # ds))"
    by blast
  then show "5 \<le> length s \<and> substr s 0 4 = ''sys.''"
    unfolding s by (simp add: substr_def Suc_le_eq)
qed

lemma grammar_dotted:
  "grammar Channel s \<longleftrightarrow> length s \<le> 256 \<and> validate_dotted_body s
     \<and> hd (split_dots s) \<notin> {''prod'', ''cons'', ''proc'', ''hub'', ''sys''}"
  "grammar RoleName s \<longleftrightarrow> length s \<le> 256 \<and> validate_dotted_body s"
  "grammar RoleUid s \<longleftrightarrow> length s \<le> 256 \<and> validate_dotted_body s
     \<and> 3 \<le> length (split_dots s) \<and> hd (split_dots s) \<in> {''prod'', ''cons'', ''proc''}"
  "grammar PeerUid s \<longleftrightarrow> length s \<le> 256 \<and> validate_dotted_body s
     \<and> 3 \<le> length (split_dots s) \<and> hd (split_dots s) = ''hub''"
  "grammar SysKey s \<longleftrightarrow> length s \<le> 256 \<and> validate_dotted_body s
     \<and> 2 \<le> length (split_dots s) \<and> hd (split_dots s) = ''sys''"
  using dotted_ex_iff [of s "\<lambda>_. True"]
  by (simp_all only: grammar_def IdentifierKind.case dotted_ex_iff simp_thms)

lemma grammar_band:
  "grammar Band s \<longleftrightarrow> length s \<le> 256 \<and> s \<noteq> [] \<and> hd s = CHR ''!'' \<and> validate_dotted_body (drop 1 s)"
  using dotted_ex_iff [of "drop 1 s" "\<lambda>_. True"] by (cases s) (auto simp: grammar_def)

lemma grammar_schema:
  "grammar Schema s \<longleftrightarrow> length s \<le> 256 \<and> s \<noteq> [] \<and> hd s = CHR ''$'' \<and> validate_dotted_body (drop 1 s)
     \<and> 2 \<le> length (split_dots (drop 1 s)) \<and> is_version_component (last (split_dots (drop 1 s))) \<noteq> None"
  unfolding ex_digits_iff
  using dotted_ex_iff [of "drop 1 s" "\<lambda>cs. 2 \<le> length cs \<and> (\<exists>ds. last cs = CHR ''v'' # ds \<and> ds \<noteq> []
    \<and> (\<forall>d\<in>set ds. is_digit d) \<and> dec_value ds < 2 ^ 32)"]
  by (cases s) (auto simp: grammar_def)

lemma identifier_iff_grammar: "is_valid_identifier s kind \<longleftrightarrow> grammar kind s"
proof (cases kind)
  case SysKey
  then show ?thesis
    using sys_prefix_iff [of s] by (auto simp: grammar_dotted is_valid_identifier_def kMaxTotalLen_def)
next
  case Schema
  have two: "2 \<le> length (split_dots t) \<longleftrightarrow> length (split_dots t) \<noteq> 1" for t
    using split_dots_props(3) [of t] by linarith
  have "is_valid_identifier s Schema \<longleftrightarrow> length s \<le> 256 \<and> s \<noteq> [] \<and> hd s = CHR ''$'' \<and> validate_dotted_body (drop 1 s)
     \<and> length (split_dots (drop 1 s)) \<noteq> 1 \<and> is_version_component (last (split_dots (drop 1 s))) \<noteq> None"
    by (cases s) (auto simp: is_valid_identifier_def kMaxTotalLen_def split_dots_props Let_def not_less Suc_le_eq)
  then show ?thesis
    by (simp only: Schema grammar_schema two)
next
  case RoleUid
  have "3 \<le> length (split_dots s) \<longleftrightarrow> 2 \<le> count_dots s"
    using split_dots_props(3) [of s] by linarith
  then show ?thesis
    by (auto simp: RoleUid grammar_dotted is_valid_identifier_def kMaxTotalLen_def
      is_valid_tagged_uid_structure_def kRoleTags_def split_dots_props(1))
next
  case PeerUid
  have "3 \<le> length (split_dots s) \<longleftrightarrow> 2 \<le> count_dots s"
    using split_dots_props(3) [of s] by linarith
  then show ?thesis
    by (auto simp: PeerUid grammar_dotted is_valid_identifier_def kMaxTotalLen_def
      is_valid_tagged_uid_structure_def kPeerTag_def split_dots_props(1))
qed (auto simp: grammar_dotted grammar_band is_valid_identifier_def kMaxTotalLen_def
    kChannelReservedFirst_def split_dots_props(1))


section \<open>Construction and parsing\<close>

lemma split_tagged_uid_join:
  assumes "no_dot t" and "no_dot n"
  shows "split_tagged_uid (t @ CHR ''.'' # n @ CHR ''.'' # u) = \<lparr>tag = t, tu_name = n, unique = u\<rparr>"
  using find_char_dot [OF assms(1), of "n @ CHR ''.'' # u"] find_char_dot [OF assms(2), of u]
    find_char_from [of "CHR ''.''" "t @ ''.''" "n @ CHR ''.'' # u"]
  by (simp add: split_tagged_uid_def substr_def)

lemma tagged_uid_iff:
  "length s \<le> 256 \<and> validate_dotted_body s \<and> 3 \<le> length (split_dots s) \<and> hd (split_dots s) \<in> T \<longleftrightarrow>
     (\<exists>t n u. s = t @ CHR ''.'' # n @ CHR ''.'' # u \<and> length s \<le> 256 \<and> t \<in> T \<and> is_valid_component t
        \<and> is_valid_component n \<and> validate_dotted_body u)"
proof
  assume l: "length s \<le> 256 \<and> validate_dotted_body s \<and> 3 \<le> length (split_dots s) \<and> hd (split_dots s) \<in> T"
  then obtain t n c cs where split: "split_dots s = t # n # c # cs"
    by (auto simp: numeral_3_eq_3 Suc_le_length_iff)
  then have "s = t @ CHR ''.'' # n @ CHR ''.'' # join_dots (c # cs)"
    using join_split_acc [of "[]" s] by simp
  moreover have "validate_dotted_body (join_dots (c # cs))"
    unfolding validate_join using l split by (intro exI [of _ "c # cs"]) (simp add: validate_dotted_body_iff)
  ultimately show "\<exists>t n u. s = t @ CHR ''.'' # n @ CHR ''.'' # u \<and> length s \<le> 256 \<and> t \<in> T
      \<and> is_valid_component t \<and> is_valid_component n \<and> validate_dotted_body u"
    using l split by (auto simp: validate_dotted_body_iff)
next
  assume "\<exists>t n u. s = t @ CHR ''.'' # n @ CHR ''.'' # u \<and> length s \<le> 256 \<and> t \<in> T
      \<and> is_valid_component t \<and> is_valid_component n \<and> validate_dotted_body u"
  then obtain t n u where s: "s = t @ CHR ''.'' # n @ CHR ''.'' # u" "length s \<le> 256" "t \<in> T"
    "is_valid_component t" "is_valid_component n" "validate_dotted_body u"
    by blast
  then have "split_dots s = t # n # split_dots u"
    using split_acc_append [OF valid_component_no_dot, of t "[]"] split_acc_append [OF valid_component_no_dot, of n "[]"]
    by simp
  then show "length s \<le> 256 \<and> validate_dotted_body s \<and> 3 \<le> length (split_dots s) \<and> hd (split_dots s) \<in> T"
    using s by (simp add: validate_dotted_body_iff Suc_le_eq numeral_3_eq_3)
qed

lemma role_tags_valid [simp]:
  "is_valid_component ''prod''" "is_valid_component ''cons''" "is_valid_component ''proc''" "is_valid_component ''hub''"
  by (simp_all add: valid_component_iff is_component_char_def is_first_char_def)

lemma tagged_parts:
  assumes "\<And>s. is_valid_identifier s kind \<longleftrightarrow>
      length s \<le> 256 \<and> validate_dotted_body s \<and> 3 \<le> length (split_dots s) \<and> hd (split_dots s) \<in> T"
    and "\<And>t. t \<in> T \<Longrightarrow> is_valid_component t"
  shows "(if \<not> is_valid_identifier uid kind then None else Some (split_tagged_uid uid)) = Some p \<longleftrightarrow>
     uid = tag p @ ''.'' @ tu_name p @ ''.'' @ unique p \<and> length uid \<le> 256 \<and> tag p \<in> T
     \<and> name_component (tu_name p) \<and> validate_dotted_body (unique p)"
proof -
  have join: "split_tagged_uid (t @ CHR ''.'' # n @ CHR ''.'' # u) = \<lparr>tag = t, tu_name = n, unique = u\<rparr>"
    if "t \<in> T" "name_component n" for t n u
    using that assms(2) by (simp add: split_tagged_uid_join valid_component_no_dot valid_component_name)
  show ?thesis
    unfolding assms(1) tagged_uid_iff using assms(2) by (cases p) (auto simp: join valid_component_name)
qed

lemma parse_role_uid_iff:
  "parse_role_uid uid = Some p \<longleftrightarrow> uid = tag p @ ''.'' @ tu_name p @ ''.'' @ unique p \<and> length uid \<le> 256
     \<and> tag p \<in> {''prod'', ''cons'', ''proc''} \<and> name_component (tu_name p) \<and> validate_dotted_body (unique p)"
  unfolding parse_role_uid_def
  by (rule tagged_parts) (auto simp: identifier_iff_grammar grammar_dotted)

lemma parse_peer_uid_iff:
  "parse_peer_uid uid = Some p \<longleftrightarrow> uid = tag p @ ''.'' @ tu_name p @ ''.'' @ unique p \<and> length uid \<le> 256
     \<and> tag p \<in> {''hub''} \<and> name_component (tu_name p) \<and> validate_dotted_body (unique p)"
  unfolding parse_peer_uid_def
  by (rule tagged_parts) (auto simp: identifier_iff_grammar grammar_dotted)

lemma schema_body_iff:
  "validate_dotted_body b \<and> 2 \<le> length (split_dots b) \<and> is_version_component (last (split_dots b)) = Some v \<longleftrightarrow>
     (\<exists>a t. b = a @ CHR ''.'' # t \<and> validate_dotted_body a \<and> is_valid_component t \<and> is_version_component t = Some v)"
proof
  assume l: "validate_dotted_body b \<and> 2 \<le> length (split_dots b) \<and> is_version_component (last (split_dots b)) = Some v"
  then obtain cs t where split: "split_dots b = cs @ [t]"
    by (metis append_butlast_last_id split_acc_nonempty)
  with l have ne: "cs \<noteq> []"
    by auto
  then have "b = join_dots cs @ CHR ''.'' # t"
    using join_split_acc [of "[]" b] split by (simp add: join_dots_snoc)
  moreover have "validate_dotted_body (join_dots cs)"
    unfolding validate_join using l ne split by (intro exI [of _ cs]) (simp add: validate_dotted_body_iff)
  ultimately show "\<exists>a t. b = a @ CHR ''.'' # t \<and> validate_dotted_body a \<and> is_valid_component t \<and> is_version_component t = Some v"
    using l split by (auto simp: validate_dotted_body_iff)
next
  assume "\<exists>a t. b = a @ CHR ''.'' # t \<and> validate_dotted_body a \<and> is_valid_component t \<and> is_version_component t = Some v"
  then obtain a t where b: "b = a @ CHR ''.'' # t" "validate_dotted_body a" "is_valid_component t" "is_version_component t = Some v"
    by blast
  then have "split_dots b = split_dots a @ [t]"
    using split_acc_no_dot [of "[]" a] join_split_acc [of "[]" a] valid_component_no_dot [of t]
    by (simp add: split_dots_iff join_dots_snoc)
  then show "validate_dotted_body b \<and> 2 \<le> length (split_dots b) \<and> is_version_component (last (split_dots b)) = Some v"
    using b by (simp add: validate_dotted_body_iff Suc_le_eq)
qed

lemma parse_schema_id_iff:
  "parse_schema_id i = Some p \<longleftrightarrow> i = ''$'' @ base p @ ''.'' @ version_token p \<and> length i \<le> 256
     \<and> validate_dotted_body (base p) \<and> name_component (version_token p)
     \<and> is_version_component (version_token p) = Some (version p)"
proof -
  let ?b = "drop 1 i"
  have valid: "is_valid_identifier i Schema \<longleftrightarrow> i = CHR ''$'' # ?b \<and> length i \<le> 256
      \<and> (\<exists>v a t. ?b = a @ CHR ''.'' # t \<and> validate_dotted_body a \<and> is_valid_component t \<and> is_version_component t = Some v)"
    unfolding identifier_iff_grammar grammar_schema schema_body_iff [symmetric] by (cases i) auto
  have parts: "parse_schema_id i = Some \<lparr>base = a, version_token = t, version = v\<rparr>"
    if "i = CHR ''$'' # a @ CHR ''.'' # t" "length i \<le> 256" "validate_dotted_body a" "is_valid_component t"
      "is_version_component t = Some v" for a t v
  proof -
    have "is_valid_identifier i Schema"
      unfolding valid using that by auto
    then show ?thesis
      using that rfind_char_dot [OF valid_component_no_dot [OF that(4)], of a]
      by (simp add: parse_schema_id_def substr_def)
  qed
  show ?thesis
  proof
    assume p: "parse_schema_id i = Some p"
    then have "is_valid_identifier i Schema"
      by (auto simp: parse_schema_id_def split: if_splits)
    then obtain v a t where i: "i = CHR ''$'' # a @ CHR ''.'' # t" "length i \<le> 256" "validate_dotted_body a"
      "is_valid_component t" "is_version_component t = Some v"
      unfolding valid by metis
    from parts [OF this] p show "i = ''$'' @ base p @ ''.'' @ version_token p \<and> length i \<le> 256
        \<and> validate_dotted_body (base p) \<and> name_component (version_token p)
        \<and> is_version_component (version_token p) = Some (version p)"
      using i by (auto simp: valid_component_name)
  next
    assume "i = ''$'' @ base p @ ''.'' @ version_token p \<and> length i \<le> 256 \<and> validate_dotted_body (base p)
        \<and> name_component (version_token p) \<and> is_version_component (version_token p) = Some (version p)"
    then show "parse_schema_id i = Some p"
      using parts [of "base p" "version_token p" "version p"] by (cases p) (auto simp: valid_component_name)
  qed
qed

text \<open>C30: parsing inverts construction. A string parses as a role identifier into parts exactly when it is
  the dotted concatenation of the parts, the tag is a role tag, the name is one component and the
  unique suffix is a dotted list of components; and it parses as a schema identifier exactly when it
  is the base and the token \<open>v<n>\<close> behind the sigil, with the parsed number the decimal value of the
  token.\<close>

theorem identifier_parse_roundtrip:
  "(parse_role_uid uid = Some p \<longleftrightarrow> uid = tag p @ ''.'' @ tu_name p @ ''.'' @ unique p \<and> length uid \<le> 256
      \<and> tag p \<in> {''prod'', ''cons'', ''proc''} \<and> name_component (tu_name p) \<and> grammar RoleName (unique p))
   \<and> (parse_schema_id i = Some q \<longleftrightarrow> i = ''$'' @ base q @ ''.'' @ version_token q \<and> length i \<le> 256
      \<and> grammar RoleName (base q) \<and> length (version_token q) \<le> 64
      \<and> (\<exists>ds. version_token q = ''v'' @ ds \<and> ds \<noteq> [] \<and> list_all is_digit ds
           \<and> dec_value ds < 2 ^ 32 \<and> version q = of_nat (dec_value ds)))"
proof
  show "parse_role_uid uid = Some p \<longleftrightarrow> uid = tag p @ ''.'' @ tu_name p @ ''.'' @ unique p \<and> length uid \<le> 256
      \<and> tag p \<in> {''prod'', ''cons'', ''proc''} \<and> name_component (tu_name p) \<and> grammar RoleName (unique p)"
    unfolding parse_role_uid_iff grammar_dotted by auto
  have v: "name_component (CHR ''v'' # ds)" if "length ds \<le> 63" "list_all is_digit ds" for ds
    using that by (auto simp: name_component_def is_component_char_def is_first_char_def list_all_iff)
  have len: "name_component t \<Longrightarrow> length t \<le> 64" for t
    by (auto simp: name_component_def)
  show "parse_schema_id i = Some q \<longleftrightarrow> i = ''$'' @ base q @ ''.'' @ version_token q \<and> length i \<le> 256
      \<and> grammar RoleName (base q) \<and> length (version_token q) \<le> 64
      \<and> (\<exists>ds. version_token q = ''v'' @ ds \<and> ds \<noteq> [] \<and> list_all is_digit ds
           \<and> dec_value ds < 2 ^ 32 \<and> version q = of_nat (dec_value ds))"
    unfolding parse_schema_id_iff grammar_dotted is_version_component_iff using v by (auto dest: len)
qed

end
