(* ===== verification/Hub_Ledger.thy ===== *)
theory Hub_Ledger
  imports Prelude
begin

text \<open>
  The versioned admission ledger (\<open>include/utils/versioned_admission_ledger.hpp\<close>): one per channel,
  it records at which version a peer's public key was admitted and up to which version each role has
  confirmed the list it installed. A key is visible to a role when it is admitted and its version is
  confirmed. The interface is a locale over an admission book; the history of a run shows that the
  book answers \<open>ready\<close> exactly when the role has confirmed a list that holds the key.
\<close>

section \<open>The ledger\<close>

record ('p, 'r) ledger =
  current_version :: u64
  admission_version :: "'p \<rightharpoonup> u64"
  confirmed_version :: "'r \<rightharpoonup> u64"

definition empty_ledger :: "('p, 'r) ledger" where
  "empty_ledger = \<lparr>current_version = 0, admission_version = Map.empty, confirmed_version = Map.empty\<rparr>"

definition admit :: "'p \<Rightarrow> ('p, 'r) ledger \<Rightarrow> u64 \<times> ('p, 'r) ledger" where
  "admit pk l = (case admission_version l pk of
       Some v \<Rightarrow> (v, l)
     | None \<Rightarrow> let v = current_version l + 1
         in (v, l\<lparr>current_version := v, admission_version := (admission_version l)(pk \<mapsto> v)\<rparr>))"

definition revoke :: "'p \<Rightarrow> ('p, 'r) ledger \<Rightarrow> u64 \<times> ('p, 'r) ledger" where
  "revoke pk l = (case admission_version l pk of
       None \<Rightarrow> (current_version l, l)
     | Some _ \<Rightarrow> let v = current_version l + 1
         in (v, l\<lparr>current_version := v, admission_version := (admission_version l)(pk := None)\<rparr>))"

definition confirm :: "'r \<Rightarrow> u64 \<Rightarrow> ('p, 'r) ledger \<Rightarrow> u64 \<times> ('p, 'r) ledger" where
  "confirm role applied l = (let bounded = (if applied < current_version l then applied else current_version l);
       slot = (case confirmed_version l role of None \<Rightarrow> 0 | Some v \<Rightarrow> v);
       slot' = (if slot < bounded then bounded else slot)
     in (slot', l\<lparr>confirmed_version := (confirmed_version l)(role \<mapsto> slot')\<rparr>))"

definition is_visible_to :: "'r \<Rightarrow> 'p \<Rightarrow> ('p, 'r) ledger \<Rightarrow> bool option" where
  "is_visible_to role pk l = (case confirmed_version l role of
       None \<Rightarrow> None
     | Some c \<Rightarrow> (case admission_version l pk of None \<Rightarrow> Some False | Some a \<Rightarrow> Some (a \<le> c)))"

definition reset_role_confirmation :: "'r \<Rightarrow> ('p, 'r) ledger \<Rightarrow> bool \<times> ('p, 'r) ledger" where
  "reset_role_confirmation role l =
     (confirmed_version l role \<noteq> None, l\<lparr>confirmed_version := (confirmed_version l)(role := None)\<rparr>)"

definition admission_version_of :: "'p \<Rightarrow> ('p, 'r) ledger \<Rightarrow> u64 option" where
  "admission_version_of pk l = admission_version l pk"

definition confirmed_version_of :: "'r \<Rightarrow> ('p, 'r) ledger \<Rightarrow> u64 option" where
  "confirmed_version_of role l = confirmed_version l role"

text \<open>\<open>keys\<close> is the iteration order of the container, an enumeration of the domain.\<close>

definition max_confirmed_version :: "'r list \<Rightarrow> ('p, 'r) ledger \<Rightarrow> u64" where
  "max_confirmed_version keys l =
     fold (\<lambda>k m. case confirmed_version l k of None \<Rightarrow> m | Some v \<Rightarrow> if m < v then v else m) keys 0"

definition ledger_wf :: "('p, 'r) ledger \<Rightarrow> bool" where
  "ledger_wf l \<longleftrightarrow> (\<forall>a\<in>ran (admission_version l). a \<le> current_version l \<and> 0 < a)
     \<and> (\<forall>c\<in>ran (confirmed_version l). c \<le> current_version l)"

section \<open>Histories\<close>

text \<open>The calls that change the ledger.\<close>

datatype ('p, 'r) ledger_op = Admit 'p | Revoke 'p | Confirm 'r u64 | ResetRole 'r

fun ledger_apply :: "('p, 'r) ledger_op \<Rightarrow> ('p, 'r) ledger \<Rightarrow> ('p, 'r) ledger" where
  "ledger_apply (Admit pk) l = snd (admit pk l)"
| "ledger_apply (Revoke pk) l = snd (revoke pk l)"
| "ledger_apply (Confirm r v) l = snd (confirm r v l)"
| "ledger_apply (ResetRole r) l = snd (reset_role_confirmation r l)"

text \<open>The ledger after a history, newest call first.\<close>

fun ledger_run :: "('p, 'r) ledger_op list \<Rightarrow> ('p, 'r) ledger" where
  "ledger_run [] = empty_ledger"
| "ledger_run (x # h) = ledger_apply x (ledger_run h)"

text \<open>The set of admitted keys after a history.\<close>

fun admitted :: "('p, 'r) ledger_op list \<Rightarrow> 'p set" where
  "admitted [] = {}"
| "admitted (Admit pk # h) = insert pk (admitted h)"
| "admitted (Revoke pk # h) = admitted h - {pk}"
| "admitted (_ # h) = admitted h"

section \<open>Versions\<close>

abbreviation ver :: "('p, 'r) ledger_op list \<Rightarrow> nat" where
  "ver h \<equiv> unat (current_version (ledger_run h))"

lemmas ledger_ops = admit_def revoke_def confirm_def reset_role_confirmation_def

lemma ver_Cons:
  assumes "length (x # h) < 2 ^ 64" and "ver h \<le> length h"
  shows "ver (x # h) = ver h \<or> ver (x # h) = ver h + 1"
  using assms by (cases x) (auto simp: ledger_ops Let_def unat_inc_no_wrap split: option.splits)

lemma ver_le_length: "length h < 2 ^ 64 \<Longrightarrow> ver h \<le> length h"
proof (induction h)
  case (Cons x h)
  then show ?case
    using ver_Cons [of x h] by auto
qed (simp add: empty_ledger_def)

lemma ver_step:
  assumes "length (x # h) < 2 ^ 64"
  shows "ver h \<le> ver (x # h)" "ver (x # h) \<le> ver h + 1"
  using ver_Cons [OF assms ver_le_length] assms by auto

lemma ver_append: "length (a @ h) < 2 ^ 64 \<Longrightarrow> ver h \<le> ver (a @ h)"
proof (induction a)
  case (Cons x a)
  then show ?case
    using ver_step(1) [of x "a @ h"] by simp
qed simp

lemma ver_admit:
  assumes "length (Admit pk # h) < 2 ^ 64" and "admission_version (ledger_run h) pk = None"
  shows "ver (Admit pk # h) = ver h + 1" "admission_version (ledger_run (Admit pk # h)) pk = Some (of_nat (ver h + 1))"
  using assms ver_le_length [of h] by (simp_all add: admit_def Let_def unat_inc_no_wrap)

section \<open>Admissions\<close>

lemma admission_None_iff: "admission_version (ledger_run h) pk = None \<longleftrightarrow> pk \<notin> admitted h"
proof (induction h)
  case (Cons x h)
  then show ?case
    by (cases x) (auto simp: ledger_ops Let_def split: option.splits if_splits)
qed (simp add: empty_ledger_def)

text \<open>The version of an admitted key is that of the call that admitted it.\<close>

lemma admission_version_at:
  assumes "length h < 2 ^ 64" and "admission_version (ledger_run h) pk = Some w"
  shows "\<exists>a b. h = a @ Admit pk # b \<and> pk \<notin> admitted b \<and> Revoke pk \<notin> set a \<and> unat w = ver b + 1
    \<and> ver (Admit pk # b) = ver b + 1"
  using assms
proof (induction h)
  case (Cons x h)
  show ?case
  proof (cases "x = Admit pk \<and> admission_version (ledger_run h) pk = None")
    case True
    then have "ver (Admit pk # h) = ver h + 1" "w = of_nat (ver h + 1)"
      using ver_admit [of pk h] Cons.prems by auto
    moreover have "unat (of_nat (ver h + 1) :: u64) = ver h + 1"
      using ver_le_length [of h] Cons.prems(1) by (simp only: unat_of_nat) simp
    ultimately show ?thesis
      using True by (intro exI [of _ "[]"] exI [of _ h]) (simp add: admission_None_iff)
  next
    case False
    then have "admission_version (ledger_run h) pk = Some w" "x \<noteq> Revoke pk"
      using Cons.prems(2) by (cases x; auto simp: ledger_ops Let_def split: option.splits if_splits)+
    then obtain a b where "h = a @ Admit pk # b" "pk \<notin> admitted b" "Revoke pk \<notin> set a" "unat w = ver b + 1"
      "ver (Admit pk # b) = ver b + 1"
      using Cons.IH Cons.prems(1) by auto
    then show ?thesis
      using \<open>x \<noteq> Revoke pk\<close> by (intro exI [of _ "x # a"] exI [of _ b]) simp
  qed
qed (simp add: empty_ledger_def)

text \<open>A key keeps its version until it is revoked.\<close>

lemma admission_version_kept:
  assumes "admission_version (ledger_run b) pk = Some w" and "Revoke pk \<notin> set a"
  shows "admission_version (ledger_run (a @ b)) pk = Some w"
  using assms(2)
proof (induction a)
  case (Cons x a)
  then show ?case
    by (cases x) (auto simp: ledger_ops Let_def split: option.splits)
qed (use assms(1) in simp)

lemma admission_version_le:
  assumes "length b < 2 ^ 64" and "admission_version (ledger_run b) pk = Some w"
  shows "unat w \<le> ver b"
proof -
  obtain a c where "b = a @ Admit pk # c" "unat w = ver (Admit pk # c)"
    using admission_version_at [OF assms] by auto
  then show ?thesis
    using ver_append [of a "Admit pk # c"] assms(1) by simp
qed

section \<open>Confirmations\<close>

text \<open>The version a role has confirmed is 0 or that of one of its confirmations since its last reset,
  cut off at the version the ledger had then.\<close>

lemma confirmed_version_at:
  assumes "confirmed_version (ledger_run h) r = Some c"
  shows "c = 0 \<or> (\<exists>h1 v h2. h = h1 @ Confirm r v # h2 \<and> ResetRole r \<notin> set h1
    \<and> c \<le> v \<and> unat c \<le> ver h2)"
  using assms
proof (induction h arbitrary: c)
  case (Cons x h)
  have old: ?case if "confirmed_version (ledger_run h) r = Some c" "x \<noteq> ResetRole r"
  proof -
    from Cons.IH [OF that(1)] show ?thesis
    proof
      assume "\<exists>h1 v h2. h = h1 @ Confirm r v # h2 \<and> ResetRole r \<notin> set h1 \<and> c \<le> v \<and> unat c \<le> ver h2"
      then obtain h1 v h2 where "h = h1 @ Confirm r v # h2" "ResetRole r \<notin> set h1" "c \<le> v" "unat c \<le> ver h2"
        by blast
      then show ?thesis
        using that(2) by (intro disjI2 exI [of _ "x # h1"] exI [of _ v] exI [of _ h2]) simp
    qed simp
  qed
  show ?case
  proof (cases x)
    case (Confirm r' v)
    show ?thesis
    proof (cases "r' = r \<and> confirmed_version (ledger_run h) r \<noteq> Some c \<and> c \<noteq> 0")
      case True
      then have "c = (if v < current_version (ledger_run h) then v else current_version (ledger_run h))"
        using Cons.prems Confirm by (auto simp: confirm_def Let_def split: option.splits if_splits)
      then have "c \<le> v \<and> unat c \<le> ver h"
        by (auto simp: word_le_nat_alt word_less_nat_alt)
      then show ?thesis
        using True Confirm by (intro disjI2 exI [of _ "[]"] exI [of _ v] exI [of _ h]) simp
    next
      case False
      then show ?thesis
        using old Confirm Cons.prems by (auto simp: confirm_def Let_def split: if_splits)
    qed
  next
    case (ResetRole r')
    then show ?thesis
      using Cons.prems old by (auto simp: reset_role_confirmation_def split: if_splits)
  qed (use Cons.prems old in \<open>auto simp: ledger_ops Let_def split: option.splits\<close>)
qed (simp add: empty_ledger_def)

lemma confirmed_version_ge:
  assumes "ResetRole r \<notin> set h1" and "n \<le> unat v" and "n \<le> ver h2"
  shows "\<exists>c. confirmed_version (ledger_run (h1 @ Confirm r v # h2)) r = Some c \<and> n \<le> unat c"
  using assms(1)
proof (induction h1)
  case Nil
  then show ?case
    using assms(2,3) by (auto simp: confirm_def Let_def word_less_nat_alt split: option.splits)
next
  case (Cons x h1)
  then obtain c where "confirmed_version (ledger_run (h1 @ Confirm r v # h2)) r = Some c" "n \<le> unat c"
    by auto
  then show ?case
    using Cons.prems by (cases x) (auto simp: ledger_ops Let_def word_less_nat_alt split: option.splits)
qed

section \<open>Visibility\<close>

lemma suffixes_comparable:
  assumes "a @ b = c @ d"
  shows "(\<exists>e. d = e @ b \<and> a = c @ e) \<or> (\<exists>e. e \<noteq> [] \<and> b = e @ d \<and> c = a @ e)"
  using assms by (auto simp: append_eq_append_conv2)

text \<open>C15: the ledger reports a key as visible to a role exactly when the role has confirmed, since its
  last reset, a version whose list held the key, and the key has not been revoked since that list.
  A confirmation never covers a later admission, however large the version it claims, and a key that
  was revoked and admitted again has to be confirmed again. The history must be short of \<open>2 ^ 64\<close>
  calls, the range of the version counter.\<close>

theorem ledger_visible_iff_confirmed:
  assumes "length h < 2 ^ 64"
  shows "is_visible_to r pk (ledger_run h) = Some True \<longleftrightarrow>
    (\<exists>h1 v a b. h = h1 @ Confirm r v # a @ b \<and> ResetRole r \<notin> set h1 \<and> ver b \<le> unat v
       \<and> pk \<in> admitted b \<and> Revoke pk \<notin> set (h1 @ a))"
proof
  assume "is_visible_to r pk (ledger_run h) = Some True"
  then obtain c w where c: "confirmed_version (ledger_run h) r = Some c"
    and w: "admission_version (ledger_run h) pk = Some w" and "w \<le> c"
    by (auto simp: is_visible_to_def split: option.splits)
  from admission_version_at [OF assms w] obtain a' b' where ab: "h = a' @ Admit pk # b'" "Revoke pk \<notin> set a'"
    "unat w = ver b' + 1" "ver (Admit pk # b') = ver b' + 1"
    by blast
  have "c \<noteq> 0"
    using ab(3) \<open>w \<le> c\<close> by (auto simp: word_le_nat_alt)
  then obtain h1 v h2 where h: "h = h1 @ Confirm r v # h2" "ResetRole r \<notin> set h1" "c \<le> v" "unat c \<le> ver h2"
    using confirmed_version_at [OF c] by blast
  have le: "ver b' + 1 \<le> ver h2" "ver b' + 1 \<le> unat v"
    using ab(3) \<open>w \<le> c\<close> h(3,4) by (simp_all add: word_le_nat_alt)
  have "\<not> (\<exists>e. e \<noteq> [] \<and> Admit pk # b' = e @ Confirm r v # h2)"
  proof
    assume "\<exists>e. e \<noteq> [] \<and> Admit pk # b' = e @ Confirm r v # h2"
    then obtain e where "b' = e @ Confirm r v # h2"
      by (auto simp: Cons_eq_append_conv)
    then have "ver h2 \<le> ver b'"
      using ver_append [of "e @ [Confirm r v]" h2] assms ab(1) by simp
    then show False
      using le(1) by simp
  qed
  then obtain e where e: "Confirm r v # h2 = e @ Admit pk # b'" "a' = h1 @ e"
    using suffixes_comparable [of a' "Admit pk # b'" h1 "Confirm r v # h2"] ab(1) h(1) by auto
  then obtain a where "h2 = a @ Admit pk # b'" "e = Confirm r v # a"
    by (cases e) auto
  then show "\<exists>h1 v a b. h = h1 @ Confirm r v # a @ b \<and> ResetRole r \<notin> set h1 \<and> ver b \<le> unat v
      \<and> pk \<in> admitted b \<and> Revoke pk \<notin> set (h1 @ a)"
    using h e ab le(2)
    by (intro exI [of _ h1] exI [of _ v] exI [of _ a] exI [of _ "Admit pk # b'"]) simp
next
  assume "\<exists>h1 v a b. h = h1 @ Confirm r v # a @ b \<and> ResetRole r \<notin> set h1 \<and> ver b \<le> unat v
      \<and> pk \<in> admitted b \<and> Revoke pk \<notin> set (h1 @ a)"
  then obtain h1 v a b where h: "h = h1 @ Confirm r v # a @ b" "ResetRole r \<notin> set h1" "ver b \<le> unat v"
    "pk \<in> admitted b" "Revoke pk \<notin> set (h1 @ a)"
    by blast
  then obtain w where w: "admission_version (ledger_run b) pk = Some w"
    using admission_None_iff [of b pk] by auto
  moreover have "unat w \<le> ver b"
    using admission_version_le [OF _ w] assms h(1) by simp
  moreover have "admission_version (ledger_run h) pk = Some w"
    using admission_version_kept [OF w, of "h1 @ Confirm r v # a"] h(1,5) by simp
  moreover have "ver b \<le> ver (a @ b)"
    using ver_append [of a b] assms h(1) by simp
  moreover obtain c where "confirmed_version (ledger_run h) r = Some c" "ver b \<le> unat c"
    using confirmed_version_ge [OF h(2,3) \<open>ver b \<le> ver (a @ b)\<close>] h(1) by auto
  ultimately show "is_visible_to r pk (ledger_run h) = Some True"
    by (simp add: is_visible_to_def word_le_nat_alt)
qed

theorem ledger_visible_iff_confirmed_witness:
  "is_visible_to (7 :: nat) (1 :: nat) (ledger_run [Confirm 7 1, Admit 2, Admit 1]) = Some True
   \<and> is_visible_to (7 :: nat) (2 :: nat) (ledger_run [Confirm 7 1, Admit 2, Admit 1]) \<noteq> Some True"
proof
  show "is_visible_to (7 :: nat) (1 :: nat) (ledger_run [Confirm 7 1, Admit 2, Admit 1]) = Some True"
    by (subst ledger_visible_iff_confirmed, simp, rule exI [of _ "[]"], rule exI [of _ 1],
      rule exI [of _ "[Admit 2]"], rule exI [of _ "[Admit 1]"]) (simp add: admit_def empty_ledger_def)
  show "is_visible_to (7 :: nat) (2 :: nat) (ledger_run [Confirm 7 1, Admit 2, Admit 1]) \<noteq> Some True"
    by (simp add: is_visible_to_def ledger_ops empty_ledger_def word_le_nat_alt)
qed

end
