(* ===== verification/Replay_Guard.thy ===== *)
theory Replay_Guard
  imports Prelude
begin

text \<open>
  The replay guard (\<open>include/utils/replay_guard.hpp\<close>): a sliding window of nonces per identity, which
  prunes on access. The clock is the guard's own, an argument of the call here. The theory shows
  that the pruning table gives the answers of the specification that remembers every nonce.
\<close>

section \<open>The guard\<close>

record replay_entry =
  nonce :: string
  recorded_ms :: u64

type_synonym replay_table = "string \<rightharpoonup> replay_entry list"

definition replay_cutoff :: "u64 \<Rightarrow> u64 \<Rightarrow> u64" where
  "replay_cutoff now window = (if window < now then now - window else 0)"

definition check_and_record :: "u64 \<Rightarrow> string \<Rightarrow> string \<Rightarrow> u64 \<Rightarrow> replay_table \<Rightarrow> bool \<times> replay_table" where
  "check_and_record now identity n window g =
     (if identity = [] \<or> n = [] then (False, g)
      else let entries = (case g identity of None \<Rightarrow> [] | Some es \<Rightarrow> es);
               kept = filter (\<lambda>e. \<not> recorded_ms e < replay_cutoff now window) entries
        in if list_ex (\<lambda>e. nonce e = n) kept then (False, g(identity \<mapsto> kept))
           else (True, g(identity \<mapsto> kept @ [\<lparr>nonce = n, recorded_ms = now\<rparr>])))"

section \<open>Specification\<close>

text \<open>A request is its time, its identity and its nonce. The specification remembers every accepted
  request and refuses a pair accepted within the window.\<close>

type_synonym request = "u64 \<times> string \<times> string"

definition within_window :: "u64 \<Rightarrow> request \<Rightarrow> request \<Rightarrow> bool" where
  "within_window w old new \<longleftrightarrow> snd old = snd new \<and> unat (fst new) - unat (fst old) \<le> unat w"

definition fresh :: "u64 \<Rightarrow> request list \<Rightarrow> request \<Rightarrow> bool" where
  "fresh w past new \<longleftrightarrow> fst (snd new) \<noteq> [] \<and> snd (snd new) \<noteq> [] \<and> \<not> list_ex (\<lambda>old. within_window w old new) past"

fun spec_answers :: "u64 \<Rightarrow> request list \<Rightarrow> request list \<Rightarrow> bool list" where
  "spec_answers w past [] = []"
| "spec_answers w past (r # rs) = fresh w past r # spec_answers w (if fresh w past r then r # past else past) rs"

fun guard_answers :: "u64 \<Rightarrow> replay_table \<Rightarrow> request list \<Rightarrow> bool list" where
  "guard_answers w g [] = []"
| "guard_answers w g (r # rs) = (case check_and_record (fst r) (fst (snd r)) (snd (snd r)) w g of
     (ok, g') \<Rightarrow> ok # guard_answers w g' rs)"

text \<open>The entries of a table, and what the table still knows of the past at a time.\<close>

definition known :: "replay_table \<Rightarrow> request \<Rightarrow> bool" where
  "known g r \<longleftrightarrow> (\<exists>es e. g (fst (snd r)) = Some es \<and> e \<in> set es \<and> nonce e = snd (snd r) \<and> recorded_ms e = fst r)"

definition table_sim :: "u64 \<Rightarrow> u64 \<Rightarrow> replay_table \<Rightarrow> request list \<Rightarrow> bool" where
  "table_sim w now g past \<longleftrightarrow> (\<forall>r. known g r \<longrightarrow> r \<in> set past)
     \<and> (\<forall>r\<in>set past. fst r \<le> now \<and> (known g r \<or> unat w < unat now - unat (fst r)))"

lemma cutoff_iff:
  assumes "t \<le> now"
  shows "t < replay_cutoff now w \<longleftrightarrow> unat w < unat now - unat t"
  using assms by (auto simp: replay_cutoff_def word_less_nat_alt word_le_nat_alt unat_sub_if')

lemma table_sim_later:
  assumes "table_sim w now g past" and "now \<le> now'"
  shows "table_sim w now' g past"
proof -
  have "t \<le> now' \<and> (unat w < unat now - unat t \<longrightarrow> unat w < unat now' - unat t)" if "t \<le> now" for t :: u64
    using that assms(2) by (auto simp: word_le_nat_alt)
  then show ?thesis
    using assms(1) unfolding table_sim_def by blast
qed

text \<open>What a call leaves in the table: the entries of the identity inside the window, those of the
  other identities, and the new nonce when it is accepted.\<close>

lemma check_and_record_cases:
  assumes "check_and_record now i n w g = (ok, g')" and "i \<noteq> []" and "n \<noteq> []"
  obtains kept where "g' = g(i \<mapsto> kept @ (if ok then [\<lparr>nonce = n, recorded_ms = now\<rparr>] else []))"
    "\<And>m t. (\<exists>e\<in>set kept. nonce e = m \<and> recorded_ms e = t) \<longleftrightarrow> known g (t, i, m) \<and> \<not> t < replay_cutoff now w"
    "ok \<longleftrightarrow> \<not> (\<exists>e\<in>set kept. nonce e = n)"
proof
  let ?kept = "filter (\<lambda>e. \<not> recorded_ms e < replay_cutoff now w) (case g i of None \<Rightarrow> [] | Some es \<Rightarrow> es)"
  show "g' = g(i \<mapsto> ?kept @ (if ok then [\<lparr>nonce = n, recorded_ms = now\<rparr>] else []))"
    "ok \<longleftrightarrow> \<not> (\<exists>e\<in>set ?kept. nonce e = n)"
    using assms by (simp_all only: check_and_record_def Let_def list_ex_iff) (auto split: if_splits)
  show "(\<exists>e\<in>set ?kept. nonce e = m \<and> recorded_ms e = t) \<longleftrightarrow> known g (t, i, m) \<and> \<not> t < replay_cutoff now w" for m t
    by (cases "g i") (auto simp: known_def)
qed

lemma known_after:
  assumes "check_and_record now i n w g = (ok, g')" and "i \<noteq> []" and "n \<noteq> []"
  shows "known g' (t, j, m) \<longleftrightarrow> known g (t, j, m) \<and> (j = i \<longrightarrow> \<not> t < replay_cutoff now w) \<or> ok \<and> (t, j, m) = (now, i, n)"
proof -
  obtain kept where g': "g' = g(i \<mapsto> kept @ (if ok then [\<lparr>nonce = n, recorded_ms = now\<rparr>] else []))"
    and kept: "\<And>m t. (\<exists>e\<in>set kept. nonce e = m \<and> recorded_ms e = t) \<longleftrightarrow> known g (t, i, m) \<and> \<not> t < replay_cutoff now w"
    using check_and_record_cases [OF assms] by blast
  show ?thesis
    using kept [of m t] by (cases "j = i") (auto simp: g' known_def)
qed

lemma check_and_record_sim:
  assumes sim: "table_sim w now g past" and call: "check_and_record now i n w g = (ok, g')"
  shows "ok \<longleftrightarrow> fresh w past (now, i, n)" "table_sim w now g' (if ok then (now, i, n) # past else past)"
proof -
  have "ok \<longleftrightarrow> fresh w past (now, i, n)" if ne: "i \<noteq> []" "n \<noteq> []"
  proof -
    have "ok \<longleftrightarrow> \<not> (\<exists>t. known g (t, i, n) \<and> \<not> t < replay_cutoff now w)"
      by (rule check_and_record_cases [OF call ne]) metis
    moreover have "(\<exists>t. known g (t, i, n) \<and> \<not> t < replay_cutoff now w) \<longleftrightarrow>
        (\<exists>t. (t, i, n) \<in> set past \<and> unat now - unat t \<le> unat w)"
      using sim cutoff_iff unfolding table_sim_def by (metis fst_conv not_less)
    ultimately show ?thesis
      using ne by (auto simp: fresh_def within_window_def list_ex_iff)
  qed
  moreover have "\<not> ok \<and> \<not> fresh w past (now, i, n)" if "i = [] \<or> n = []"
    using call that by (auto simp: check_and_record_def fresh_def)
  ultimately show "ok \<longleftrightarrow> fresh w past (now, i, n)"
    by blast
  show "table_sim w now g' (if ok then (now, i, n) # past else past)"
  proof (cases "i = [] \<or> n = []")
    case True
    then show ?thesis
      using call sim by (auto simp: check_and_record_def)
  next
    case False
    then have k: "known g' (t, j, m) \<longleftrightarrow> known g (t, j, m) \<and> (j = i \<longrightarrow> \<not> t < replay_cutoff now w)
        \<or> ok \<and> (t, j, m) = (now, i, n)" for t j m
      using known_after [OF call] by blast
    show ?thesis
      using sim unfolding table_sim_def split_paired_All split_paired_Ball_Sigma k by (auto simp: k cutoff_iff)
  qed
qed

lemma guard_answers_sim:
  assumes "table_sim w now g past" and "sorted_wrt (\<le>) (now # map fst rs)"
  shows "guard_answers w g rs = spec_answers w past rs"
  using assms
proof (induction rs arbitrary: now g past)
  case (Cons r rs)
  obtain t i n where r: "r = (t, i, n)"
    by (cases r)
  obtain ok g' where call: "check_and_record t i n w g = (ok, g')"
    by fastforce
  have sim: "table_sim w t g past"
    using table_sim_later [OF Cons.prems(1)] Cons.prems(2) r by simp
  note step = check_and_record_sim [OF sim call]
  have "guard_answers w g' rs = spec_answers w (if ok then (t, i, n) # past else past) rs"
    using Cons.prems(2) r by (intro Cons.IH [OF step(2)]) simp
  then show ?case
    using step(1) call by (simp add: r)
qed simp

text \<open>Two accepted requests with the same identity and nonce.\<close>

lemma spec_answers_distance:
  assumes "spec_answers w past rs ! j" and "j < length rs" and "r \<in> set past"
  shows "\<not> within_window w r (rs ! j)"
  using assms
proof (induction rs arbitrary: past j)
  case (Cons x rs)
  then show ?case
    by (cases j) (auto simp: fresh_def list_ex_iff)
qed simp

lemma spec_answers_apart:
  assumes "i < j" and "j < length rs" and "spec_answers w past rs ! i" and "spec_answers w past rs ! j"
  shows "\<not> within_window w (rs ! i) (rs ! j)"
  using assms
proof (induction rs arbitrary: past i j)
  case (Cons x rs)
  obtain j' where j: "j = Suc j'"
    using Cons.prems(1) by (cases j) auto
  show ?case
  proof (cases i)
    case 0
    then show ?thesis
      using Cons.prems j spec_answers_distance [of w "x # past" rs j' x] by simp
  next
    case (Suc i')
    then show ?thesis
      using Cons j by simp
  qed
qed simp

text \<open>C16: for calls with one window on a clock that does not go back, the pruning guard answers like the
  specification that forgets nothing: a request is accepted exactly when identity and nonce are
  non-empty and the pair has not been accepted within the window. So two acceptances of one pair are
  more than the window apart.\<close>

theorem replay_guard_meets_spec:
  assumes "sorted_wrt (\<le>) (map fst rs)"
  shows "guard_answers w Map.empty rs = spec_answers w [] rs
    \<and> (\<forall>i j. i < j \<and> j < length rs \<and> guard_answers w Map.empty rs ! i \<and> guard_answers w Map.empty rs ! j
         \<and> snd (rs ! i) = snd (rs ! j) \<longrightarrow> unat w < unat (fst (rs ! j)) - unat (fst (rs ! i)))"
proof -
  have "table_sim w 0 Map.empty []"
    by (simp add: table_sim_def known_def)
  then have "guard_answers w Map.empty rs = spec_answers w [] rs"
    using assms by (intro guard_answers_sim [of w 0]) simp_all
  then show ?thesis
    using spec_answers_apart [of _ _ rs w "[]"] by (fastforce simp: within_window_def not_le)
qed

theorem replay_guard_meets_spec_witness:
  "guard_answers 10 Map.empty [(5, ''a'', ''x''), (12, ''a'', ''x''), (16, ''a'', ''x'')]
     = spec_answers 10 [] [(5, ''a'', ''x''), (12, ''a'', ''x''), (16, ''a'', ''x'')]
   \<and> guard_answers 10 Map.empty [(5, ''a'', ''x''), (12, ''a'', ''x''), (16, ''a'', ''x'')] = [True, False, True]"
proof
  show "guard_answers 10 Map.empty [(5, ''a'', ''x''), (12, ''a'', ''x''), (16, ''a'', ''x'')]
     = spec_answers 10 [] [(5, ''a'', ''x''), (12, ''a'', ''x''), (16, ''a'', ''x'')]"
    by (rule replay_guard_meets_spec [THEN conjunct1]) (simp add: word_le_nat_alt)
  show "guard_answers 10 Map.empty [(5, ''a'', ''x''), (12, ''a'', ''x''), (16, ''a'', ''x'')] = [True, False, True]"
    by (simp add: check_and_record_def replay_cutoff_def word_less_nat_alt)
qed

end
