(* ===== verification/Hub_Types.thy ===== *)
theory Hub_Types
  imports Hub_Naming Hub_Ledger Replay_Guard "HOL-Library.AList"
begin

text \<open>
  The entry types of the hub state (\<open>include/utils/hub_state.hpp\<close>, \<open>schema_record.hpp\<close>) and the
  operations of the entries: the topology policy, the producer and consumer lists of a channel, the
  presence rows of a role with their state machine, and the derived observable state of a channel.
  Points in time are integers, one component of an \<open>instant\<close> per clock; JSON documents are opaque
  texts and \<open>None\<close> is the null document.
\<close>

type_synonym json = "string option"

record instant =
  steady :: int
  wall :: int

section \<open>Lists with a key\<close>

text \<open>The loops of the entry methods: erase or change the first row that matches.\<close>

fun remove_first :: "('a \<Rightarrow> bool) \<Rightarrow> 'a list \<Rightarrow> 'a list" where
  "remove_first P [] = []"
| "remove_first P (x # xs) = (if P x then xs else x # remove_first P xs)"

fun update_first :: "('a \<Rightarrow> bool) \<Rightarrow> ('a \<Rightarrow> 'a) \<Rightarrow> 'a list \<Rightarrow> 'a list" where
  "update_first P f [] = []"
| "update_first P f (x # xs) = (if P x then f x # xs else x # update_first P f xs)"

section \<open>Enumerations\<close>

datatype RoleState = Connected | Pending | Disconnected
datatype PeerState = Peer_Connecting | Peer_Connected | Peer_Disconnected
datatype ChannelCloseReason = VoluntaryDereg | HeartbeatTimeout | AdminClose | BrokerShutdown
datatype ChannelObservable = kAbsent | kRegistering | kStalled | kLive
datatype ChannelTopology = FanIn | FanOut | OneToOne
datatype AdmissionSide = Side_Producer | Side_Consumer

fun role_state_to_string :: "RoleState \<Rightarrow> string" where
  "role_state_to_string Connected = ''Connected''"
| "role_state_to_string Pending = ''Pending''"
| "role_state_to_string Disconnected = ''Disconnected''"

fun peer_state_to_string :: "PeerState \<Rightarrow> string" where
  "peer_state_to_string Peer_Connecting = ''Connecting''"
| "peer_state_to_string Peer_Connected = ''Connected''"
| "peer_state_to_string Peer_Disconnected = ''Disconnected''"

fun close_reason_to_string :: "ChannelCloseReason \<Rightarrow> string" where
  "close_reason_to_string VoluntaryDereg = ''VoluntaryDereg''"
| "close_reason_to_string HeartbeatTimeout = ''HeartbeatTimeout''"
| "close_reason_to_string AdminClose = ''AdminClose''"
| "close_reason_to_string BrokerShutdown = ''BrokerShutdown''"

fun observable_to_string :: "ChannelObservable \<Rightarrow> string" where
  "observable_to_string kAbsent = ''absent''"
| "observable_to_string kRegistering = ''registering''"
| "observable_to_string kStalled = ''stalled''"
| "observable_to_string kLive = ''live''"

section \<open>Topology policy\<close>

fun topology_to_string :: "ChannelTopology \<Rightarrow> string" where
  "topology_to_string FanIn = ''fan-in''"
| "topology_to_string FanOut = ''fan-out''"
| "topology_to_string OneToOne = ''one-to-one''"

definition topology_parse :: "string \<Rightarrow> ChannelTopology option" where
  "topology_parse s = (if s = ''fan-in'' then Some FanIn else if s = ''fan-out'' then Some FanOut
     else if s = ''one-to-one'' then Some OneToOne else None)"

definition transport_compatible :: "ChannelTopology \<Rightarrow> string \<Rightarrow> bool" where
  "transport_compatible t tr = (if t = FanIn \<and> tr = ''shm'' then False
     else if tr \<noteq> ''zmq'' \<and> tr \<noteq> ''shm'' then False else True)"

fun check_cardinality :: "ChannelTopology \<Rightarrow> AdmissionSide \<Rightarrow> nat \<Rightarrow> nat \<Rightarrow> string option" where
  "check_cardinality FanIn side np nc =
     (if side = Side_Consumer \<and> 1 \<le> nc then Some ''FAN_IN_IS_SINGLE_CONSUMER'' else None)"
| "check_cardinality FanOut side np nc =
     (if side \<noteq> Side_Consumer \<and> 1 \<le> np then Some ''FAN_OUT_IS_SINGLE_PRODUCER'' else None)"
| "check_cardinality OneToOne side np nc =
     (if side = Side_Consumer \<and> 1 \<le> nc then Some ''ONE_TO_ONE_CARDINALITY_VIOLATED''
      else if side \<noteq> Side_Consumer \<and> 1 \<le> np then Some ''ONE_TO_ONE_CARDINALITY_VIOLATED'' else None)"

section \<open>Entries\<close>

record ConsumerEntry =
  consumer_pid :: u64
  consumer_hostname :: string
  c_zmq_identity :: string
  c_zmq_pubkey :: string
  c_role_name :: string
  c_role_uid :: string
  c_inbox_endpoint :: string
  c_inbox_schema_json :: string
  c_inbox_packing :: string
  c_inbox_checksum :: string
  c_connected_at :: int

record ProducerEntry =
  producer_pid :: u64
  producer_hostname :: string
  p_zmq_identity :: string
  p_role_name :: string
  p_role_uid :: string
  p_inbox_endpoint :: string
  p_inbox_schema_json :: string
  p_inbox_packing :: string
  p_inbox_checksum :: string
  zmq_node_endpoint :: string
  p_zmq_pubkey :: string
  shm_capability_endpoint :: string
  metadata :: json
  p_connected_at :: int

record ChannelSchemaInvariants =
  si_schema_hash :: string
  si_schema_id :: string
  si_schema_blds :: string
  si_schema_owner :: string
  si_flexzone_blds :: string

record ChannelTransportInvariants =
  ti_data_transport :: string

record ChannelEntry =
  ch_name :: string
  schema_hash :: string
  schema_id :: string
  schema_blds :: string
  flexzone_blds :: string
  schema_owner :: string
  producers :: "ProducerEntry list"
  consumers :: "ConsumerEntry list"
  data_transport :: string
  topology :: ChannelTopology
  data_endpoint :: "string option"
  created_at :: int

record BandMember =
  bm_role_uid :: string
  bm_role_name :: string
  bm_zmq_identity :: string
  joined_at :: int

record BandEntry =
  band_name :: string
  members :: "BandMember list"
  band_created_at :: int
  last_activity :: int

record RolePresence =
  pr_channel :: string
  pr_role_type :: string
  pr_state :: RoleState
  first_heartbeat_seen :: bool
  last_heartbeat :: int
  state_since :: int
  heartbeats_received :: u64
  latest_metrics :: json
  metrics_collected_at :: int

record RoleEntry =
  role_uid :: string
  role_name :: string
  short_tag :: string
  role_channels :: "string list"
  first_seen :: int
  pubkey_z85 :: string
  presences :: "RolePresence list"

record PeerEntry =
  peer_uid :: string
  peer_endpoint :: string
  peer_state :: PeerState
  last_seen :: int
  peer_pubkey_z85 :: string
  relay_channels :: "string list"
  peer_zmq_identity :: string

record ShmBlockRef =
  sb_channel_name :: string
  block_path :: string

record BrokerCounters =
  ready_to_pending_total :: u64
  pending_to_deregistered_total :: u64
  pending_to_ready_total :: u64
  bytes_in_total :: u64
  bytes_out_total :: u64
  msg_type_counts :: "string \<rightharpoonup> u64"
  msg_type_errors :: "string \<rightharpoonup> u64"
  schema_registered_total :: u64
  schema_evicted_total :: u64
  schema_citation_rejected_total :: u64

record SchemaRecord =
  sr_owner_uid :: string
  sr_schema_id :: string
  sr_hash :: bytes
  packing :: string
  blds :: string
  flexzone_packing :: string
  sr_flexzone_blds :: string
  registered_at :: int

definition has_datablock :: "SchemaRecord \<Rightarrow> bool" where
  "has_datablock r \<longleftrightarrow> blds r \<noteq> []"

definition has_flexzone :: "SchemaRecord \<Rightarrow> bool" where
  "has_flexzone r \<longleftrightarrow> sr_flexzone_blds r \<noteq> []"

definition schema_records_equivalent :: "SchemaRecord \<Rightarrow> SchemaRecord \<Rightarrow> bool" where
  "schema_records_equivalent a b \<longleftrightarrow> sr_hash a = sr_hash b"

section \<open>Results\<close>

datatype AddProducerResult = AP_Created | AP_RejectedUidConflict
datatype AddConsumerResult = AC_Created | AC_RejectedUidConflict
datatype AddPresenceResult = Pres_Created | Pres_RejectedDuplicate
datatype InvariantSetResult = Inv_Created | Inv_IdempotentEqual | Inv_RejectedMismatch
datatype TransitionEffect = NoChange | Refreshed | NewlyConnected | ToPending | ToDisconnected
datatype SchemaRegOutcome = kCreated | kIdempotent | kHashMismatchSelf | kForbiddenOwner
datatype CitationReason = kOk | kCrossCitation | kUnknownSchema | kFingerprintMismatch | kSchemaIdMismatch
  | kSchemaOwnerMismatch

record RemoveProducerResult =
  removed :: bool
  channel_now_empty :: bool

record ProducerAdmissionResult =
  producer_result :: AddProducerResult
  invariant_result :: InvariantSetResult
  topology_error_code :: "string option"
  invalid_identifier :: bool
  channel_opened :: bool
  mismatched_invariant :: string

record ConsumerAdmissionResult =
  c_admitted :: bool
  c_topology_error_code :: "string option"
  c_invalid_identifier :: bool
  c_channel_opened :: bool
  c_invariant_result :: InvariantSetResult

record HeartbeatEffect =
  presence_found :: bool
  prev_state :: RoleState
  was_first_heartbeat_seen :: bool

definition to_transition_effect :: "HeartbeatEffect \<Rightarrow> TransitionEffect" where
  "to_transition_effect e = (if \<not> presence_found e then NoChange
     else if \<not> was_first_heartbeat_seen e then NewlyConnected
     else if prev_state e \<noteq> Connected then NewlyConnected
     else Refreshed)"

section \<open>Channel operations\<close>

definition first_producer :: "ChannelEntry \<Rightarrow> ProducerEntry option" where
  "first_producer c = (case producers c of [] \<Rightarrow> None | p # _ \<Rightarrow> Some p)"

definition find_producer :: "string \<Rightarrow> ChannelEntry \<Rightarrow> ProducerEntry option" where
  "find_producer uid c = List.find (\<lambda>p. p_role_uid p = uid) (producers c)"

definition find_consumer :: "string \<Rightarrow> ChannelEntry \<Rightarrow> ConsumerEntry option" where
  "find_consumer uid c = List.find (\<lambda>p. c_role_uid p = uid) (consumers c)"

definition add_producer :: "ProducerEntry \<Rightarrow> ChannelEntry \<Rightarrow> AddProducerResult \<times> ChannelEntry" where
  "add_producer p c = (if find_producer (p_role_uid p) c \<noteq> None then (AP_RejectedUidConflict, c)
     else (AP_Created, c\<lparr>producers := producers c @ [p]\<rparr>))"

definition add_consumer :: "ConsumerEntry \<Rightarrow> ChannelEntry \<Rightarrow> AddConsumerResult \<times> ChannelEntry" where
  "add_consumer e c = (if find_consumer (c_role_uid e) c \<noteq> None then (AC_RejectedUidConflict, c)
     else (AC_Created, c\<lparr>consumers := consumers c @ [e]\<rparr>))"

definition remove_producer :: "string \<Rightarrow> ChannelEntry \<Rightarrow> RemoveProducerResult \<times> ChannelEntry" where
  "remove_producer uid c = (case find_producer uid c of
       None \<Rightarrow> (\<lparr>removed = False, channel_now_empty = (producers c = [])\<rparr>, c)
     | Some _ \<Rightarrow> let ps = remove_first (\<lambda>p. p_role_uid p = uid) (producers c)
         in (\<lparr>removed = True, channel_now_empty = (ps = [])\<rparr>, c\<lparr>producers := ps\<rparr>))"

definition remove_consumer :: "string \<Rightarrow> ChannelEntry \<Rightarrow> bool \<times> ChannelEntry" where
  "remove_consumer uid c = (find_consumer uid c \<noteq> None,
     c\<lparr>consumers := remove_first (\<lambda>e. c_role_uid e = uid) (consumers c)\<rparr>)"

definition upd_producer :: "string \<Rightarrow> (ProducerEntry \<Rightarrow> ProducerEntry) \<Rightarrow> ChannelEntry \<Rightarrow> bool \<times> ChannelEntry" where
  "upd_producer uid f c = (find_producer uid c \<noteq> None,
     c\<lparr>producers := update_first (\<lambda>p. p_role_uid p = uid) f (producers c)\<rparr>)"

definition set_producer_inbox :: "string \<Rightarrow> string \<Rightarrow> string \<Rightarrow> string \<Rightarrow> string \<Rightarrow> ChannelEntry \<Rightarrow> bool \<times> ChannelEntry" where
  "set_producer_inbox uid ep sj pk ck = upd_producer uid (\<lambda>p. p\<lparr>p_inbox_endpoint := ep,
     p_inbox_schema_json := sj, p_inbox_packing := pk, p_inbox_checksum := ck\<rparr>)"

definition set_consumer_inbox :: "string \<Rightarrow> string \<Rightarrow> string \<Rightarrow> string \<Rightarrow> string \<Rightarrow> ChannelEntry \<Rightarrow> bool \<times> ChannelEntry" where
  "set_consumer_inbox uid ep sj pk ck c = (find_consumer uid c \<noteq> None,
     c\<lparr>consumers := update_first (\<lambda>e. c_role_uid e = uid) (\<lambda>e. e\<lparr>c_inbox_endpoint := ep,
       c_inbox_schema_json := sj, c_inbox_packing := pk, c_inbox_checksum := ck\<rparr>) (consumers c)\<rparr>)"

definition set_producer_zmq_node_endpoint :: "string \<Rightarrow> string \<Rightarrow> ChannelEntry \<Rightarrow> bool \<times> ChannelEntry" where
  "set_producer_zmq_node_endpoint uid ep = upd_producer uid (\<lambda>p. p\<lparr>zmq_node_endpoint := ep\<rparr>)"

definition set_producer_zmq_pubkey :: "string \<Rightarrow> string \<Rightarrow> ChannelEntry \<Rightarrow> bool \<times> ChannelEntry" where
  "set_producer_zmq_pubkey uid k = upd_producer uid (\<lambda>p. p\<lparr>p_zmq_pubkey := k\<rparr>)"

definition set_producer_shm_capability_endpoint :: "string \<Rightarrow> string \<Rightarrow> ChannelEntry \<Rightarrow> bool \<times> ChannelEntry" where
  "set_producer_shm_capability_endpoint uid ep = upd_producer uid (\<lambda>p. p\<lparr>shm_capability_endpoint := ep\<rparr>)"

definition set_data_endpoint :: "string \<Rightarrow> ChannelEntry \<Rightarrow> ChannelEntry" where
  "set_data_endpoint ep c = c\<lparr>data_endpoint := Some ep\<rparr>"

definition aggregate_metadata_tree :: "ChannelEntry \<Rightarrow> string \<rightharpoonup> string" where
  "aggregate_metadata_tree c = foldl (\<lambda>m p. case metadata p of None \<Rightarrow> m | Some d \<Rightarrow> m(p_role_uid p \<mapsto> d))
     Map.empty (producers c)"

section \<open>Presence rows\<close>

abbreviation is_presence :: "string \<Rightarrow> string \<Rightarrow> RolePresence \<Rightarrow> bool" where
  "is_presence ch rt p \<equiv> pr_channel p = ch \<and> pr_role_type p = rt"

definition find_presence :: "string \<Rightarrow> string \<Rightarrow> RoleEntry \<Rightarrow> RolePresence option" where
  "find_presence ch rt r = List.find (is_presence ch rt) (presences r)"

definition any_presence_alive :: "RoleEntry \<Rightarrow> bool" where
  "any_presence_alive r \<longleftrightarrow> presences r \<noteq> []"

definition new_presence :: "string \<Rightarrow> string \<Rightarrow> int \<Rightarrow> RolePresence" where
  "new_presence ch rt now = \<lparr>pr_channel = ch, pr_role_type = rt, pr_state = Connected, first_heartbeat_seen = False,
     last_heartbeat = now, state_since = now, heartbeats_received = 0, latest_metrics = None, metrics_collected_at = 0\<rparr>"

definition add_presence :: "string \<Rightarrow> string \<Rightarrow> int \<Rightarrow> RoleEntry \<Rightarrow> AddPresenceResult \<times> RoleEntry" where
  "add_presence ch rt now r = (if find_presence ch rt r \<noteq> None then (Pres_RejectedDuplicate, r)
     else (Pres_Created, r\<lparr>presences := presences r @ [new_presence ch rt now]\<rparr>))"

definition remove_presence :: "string \<Rightarrow> string \<Rightarrow> RoleEntry \<Rightarrow> bool \<times> RoleEntry" where
  "remove_presence ch rt r = (find_presence ch rt r \<noteq> None,
     r\<lparr>presences := remove_first (is_presence ch rt) (presences r)\<rparr>)"

definition heartbeat_row :: "int \<Rightarrow> RolePresence \<Rightarrow> RolePresence" where
  "heartbeat_row when p = (let q = p\<lparr>last_heartbeat := when, first_heartbeat_seen := True,
       heartbeats_received := heartbeats_received p + 1\<rparr>
     in if pr_state p \<noteq> Connected then q\<lparr>pr_state := Connected, state_since := when\<rparr> else q)"

definition on_heartbeat :: "string \<Rightarrow> string \<Rightarrow> int \<Rightarrow> RoleEntry \<Rightarrow> HeartbeatEffect \<times> RoleEntry" where
  "on_heartbeat ch rt when r = (case find_presence ch rt r of
       None \<Rightarrow> (\<lparr>presence_found = False, prev_state = Disconnected, was_first_heartbeat_seen = False\<rparr>, r)
     | Some p \<Rightarrow> (\<lparr>presence_found = True, prev_state = pr_state p, was_first_heartbeat_seen = first_heartbeat_seen p\<rparr>,
         r\<lparr>presences := update_first (is_presence ch rt) (heartbeat_row when) (presences r)\<rparr>))"

definition on_heartbeat_timeout :: "string \<Rightarrow> string \<Rightarrow> int \<Rightarrow> RoleEntry \<Rightarrow> TransitionEffect \<times> RoleEntry" where
  "on_heartbeat_timeout ch rt now r = (case find_presence ch rt r of
       None \<Rightarrow> (NoChange, r)
     | Some p \<Rightarrow> if pr_state p \<noteq> Connected then (NoChange, r)
         else (ToPending, r\<lparr>presences := update_first (is_presence ch rt)
           (\<lambda>p. p\<lparr>pr_state := Pending, state_since := now\<rparr>) (presences r)\<rparr>))"

definition on_pending_timeout :: "string \<Rightarrow> string \<Rightarrow> RoleEntry \<Rightarrow> TransitionEffect \<times> RoleEntry" where
  "on_pending_timeout ch rt r = (case find_presence ch rt r of
       None \<Rightarrow> (NoChange, r)
     | Some p \<Rightarrow> if pr_state p \<noteq> Pending then (NoChange, r)
         else (ToDisconnected, r\<lparr>presences := remove_first (is_presence ch rt) (presences r)\<rparr>))"

definition on_dereg :: "string \<Rightarrow> string \<Rightarrow> RoleEntry \<Rightarrow> TransitionEffect \<times> RoleEntry" where
  "on_dereg ch rt r = (case find_presence ch rt r of
       None \<Rightarrow> (NoChange, r)
     | Some p \<Rightarrow> (ToDisconnected, r\<lparr>presences := remove_first (is_presence ch rt) (presences r)\<rparr>))"

definition drop_channel_if_orphaned :: "string \<Rightarrow> RoleEntry \<Rightarrow> bool \<times> RoleEntry" where
  "drop_channel_if_orphaned ch r = (if list_ex (\<lambda>p. pr_channel p = ch) (presences r) then (False, r)
     else if ch \<notin> set (role_channels r) then (False, r)
     else (True, r\<lparr>role_channels := remove1 ch (role_channels r)\<rparr>))"

section \<open>Observability\<close>

definition observe :: "RolePresence option \<Rightarrow> ChannelObservable" where
  "observe pr = (case pr of
       None \<Rightarrow> kAbsent
     | Some p \<Rightarrow> if pr_state p = Disconnected then kAbsent
         else if \<not> first_heartbeat_seen p then kRegistering
         else if pr_state p = Pending then kStalled
         else kLive)"

definition compute_channel_observable :: "ChannelEntry \<Rightarrow> (string \<rightharpoonup> RoleEntry) \<Rightarrow> ChannelObservable" where
  "compute_channel_observable c rs = (if producers c = [] then kAbsent else
     let obs = List.map_filter (\<lambda>p. case rs (p_role_uid p) of None \<Rightarrow> None
           | Some r \<Rightarrow> (case find_presence (ch_name c) ''producer'' r of None \<Rightarrow> None | Some q \<Rightarrow> Some (observe (Some q))))
         (producers c)
     in if kLive \<in> set obs then kLive else if kRegistering \<in> set obs then kRegistering
        else if kStalled \<in> set obs then kStalled else kAbsent)"

end
