(* ===== verification/Hub_State.thy ===== *)
theory Hub_State
  imports Hub_Types
begin

text \<open>
  The hub state (\<open>utils/ipc/hub_state.cpp\<close>): the maps of channels, roles, bands, peers, shared-memory
  blocks, schema records and access ledgers, and every operation on them. Handlers run after the
  locks are released; a subscriber sees the sequence of events, which the field \<open>fired\<close> records. The
  two containers that operations iterate over (bands and schema records) are association lists in
  iteration order, the others are maps. All mutators run on the broker's dispatch thread, so an
  operation is one step; the clock readings of one operation are one \<open>instant\<close>.
\<close>

section \<open>The state\<close>

datatype hub_event = Ch_opened ChannelEntry | Ch_status_changed ChannelEntry ChannelObservable | Ch_closed string
  | Cons_added string ConsumerEntry | Cons_removed string string
  | Role_registered RoleEntry | Role_disconnected string
  | Band_joined string BandMember | Band_left string string string string
  | Peer_connected PeerEntry | Peer_disconnected string

type_synonym access_ledger = "(string, string) ledger"

record HubState =
  channels :: "string \<rightharpoonup> ChannelEntry"
  roles :: "string \<rightharpoonup> RoleEntry"
  bands :: "(string \<times> BandEntry) list"
  peers :: "string \<rightharpoonup> PeerEntry"
  shm_blocks :: "string \<rightharpoonup> ShmBlockRef"
  schemas :: "((string \<times> string) \<times> SchemaRecord) list"
  channel_access_index :: "string \<rightharpoonup> access_ledger"
  producer_instance_map :: "string \<rightharpoonup> u64"
  replay_guard :: replay_table
  counters :: BrokerCounters
  fired :: "hub_event list"

definition empty_counters :: BrokerCounters where
  "empty_counters = \<lparr>ready_to_pending_total = 0, pending_to_deregistered_total = 0, pending_to_ready_total = 0,
     bytes_in_total = 0, bytes_out_total = 0, msg_type_counts = Map.empty, msg_type_errors = Map.empty,
     schema_registered_total = 0, schema_evicted_total = 0, schema_citation_rejected_total = 0\<rparr>"

definition empty_hub :: HubState where
  "empty_hub = \<lparr>channels = Map.empty, roles = Map.empty, bands = [], peers = Map.empty, shm_blocks = Map.empty,
     schemas = [], channel_access_index = Map.empty, producer_instance_map = Map.empty, replay_guard = Map.empty,
     counters = empty_counters, fired = []\<rparr>"

definition fire :: "hub_event list \<Rightarrow> HubState \<Rightarrow> HubState" where
  "fire es s = s\<lparr>fired := fired s @ es\<rparr>"

text \<open>\<open>m[k] += n\<close> on a map of counters.\<close>

definition count_up :: "string \<Rightarrow> u64 \<Rightarrow> (string \<rightharpoonup> u64) \<Rightarrow> string \<rightharpoonup> u64" where
  "count_up k n m = m(k \<mapsto> (case m k of None \<Rightarrow> 0 | Some v \<Rightarrow> v) + n)"

definition upd_counters :: "(BrokerCounters \<Rightarrow> BrokerCounters) \<Rightarrow> HubState \<Rightarrow> HubState" where
  "upd_counters f s = s\<lparr>counters := f (counters s)\<rparr>"

definition upd_channel :: "string \<Rightarrow> ChannelEntry \<Rightarrow> HubState \<Rightarrow> HubState" where
  "upd_channel k c s = s\<lparr>channels := (channels s)(k \<mapsto> c)\<rparr>"

definition upd_role :: "string \<Rightarrow> RoleEntry \<Rightarrow> HubState \<Rightarrow> HubState" where
  "upd_role k r s = s\<lparr>roles := (roles s)(k \<mapsto> r)\<rparr>"

section \<open>Terminal cleanup of a role\<close>

definition evict_schemas :: "string \<Rightarrow> HubState \<Rightarrow> nat \<times> HubState" where
  "evict_schemas uid s = (let kept = filter (\<lambda>e. fst (fst e) \<noteq> uid) (schemas s)
     in (length (schemas s) - length kept, s\<lparr>schemas := kept\<rparr>))"

definition leave_band :: "string \<Rightarrow> int \<Rightarrow> BandEntry \<Rightarrow> bool \<times> BandEntry" where
  "leave_band uid now b = (let m = filter (\<lambda>x. bm_role_uid x \<noteq> uid) (members b);
       left = length m < length (members b)
     in (left, b\<lparr>members := m, last_activity := (if left then now else last_activity b)\<rparr>))"

definition cascade_role_terminal_cleanup_locked :: "string \<Rightarrow> instant \<Rightarrow> HubState \<Rightarrow> string list \<times> nat \<times> HubState" where
  "cascade_role_terminal_cleanup_locked uid t s = (let (n, s1) = evict_schemas uid s;
       bs = map (\<lambda>(k, b). (k, leave_band uid (steady t) b)) (bands s1)
     in (map fst (filter (\<lambda>(k, l, b). l) bs), n,
         s1\<lparr>bands := map (\<lambda>(k, l, b). (k, b)) (filter (\<lambda>(k, l, b). members b \<noteq> []) bs)\<rparr>))"

definition erase_role :: "string \<Rightarrow> RoleEntry \<Rightarrow> instant \<Rightarrow> HubState \<Rightarrow> HubState" where
  "erase_role uid r t s = (let (bands_left, n, s1) = cascade_role_terminal_cleanup_locked uid t s;
       s2 = upd_counters (\<lambda>c. c\<lparr>schema_evicted_total := schema_evicted_total c + of_nat n\<rparr>) s1;
       s3 = s2\<lparr>roles := (roles s2)(uid := None)\<rparr>
     in fire (Role_disconnected uid # map (\<lambda>b. Band_left b uid (role_name r) ''role_closed'') bands_left) s3)"

definition set_role_disconnected :: "string \<Rightarrow> instant \<Rightarrow> HubState \<Rightarrow> HubState" where
  "set_role_disconnected uid t s = (case roles s uid of None \<Rightarrow> s | Some r \<Rightarrow> erase_role uid r t s)"

definition dispatch_role_disconnected_if_dead :: "string \<Rightarrow> instant \<Rightarrow> HubState \<Rightarrow> HubState" where
  "dispatch_role_disconnected_if_dead uid t s = (case roles s uid of
       None \<Rightarrow> s
     | Some r \<Rightarrow> if any_presence_alive r then s else erase_role uid r t s)"

section \<open>Primitive mutators\<close>

definition set_channel_opened :: "ChannelEntry \<Rightarrow> HubState \<Rightarrow> HubState" where
  "set_channel_opened c s = fire [Ch_opened c] (upd_channel (ch_name c) c s)"

definition set_channel_closed :: "string \<Rightarrow> HubState \<Rightarrow> HubState" where
  "set_channel_closed k s = (if channels s k = None then s
     else fire [Ch_closed k] (s\<lparr>channels := (channels s)(k := None)\<rparr>))"

definition fresh_channel :: "string \<Rightarrow> ChannelSchemaInvariants \<Rightarrow> ChannelTransportInvariants \<Rightarrow> ChannelTopology
    \<Rightarrow> instant \<Rightarrow> ChannelEntry" where
  "fresh_channel k si ti tp t = \<lparr>ch_name = k, schema_hash = si_schema_hash si, schema_id = si_schema_id si,
     schema_blds = si_schema_blds si, flexzone_blds = si_flexzone_blds si, schema_owner = si_schema_owner si,
     producers = [], consumers = [], data_transport = ti_data_transport ti, topology = tp, data_endpoint = None,
     created_at = wall t\<rparr>"

definition open_channel_locked :: "string \<Rightarrow> ChannelSchemaInvariants \<Rightarrow> ChannelTransportInvariants \<Rightarrow> ChannelTopology
    \<Rightarrow> instant \<Rightarrow> HubState \<Rightarrow> (string + ChannelEntry) \<times> HubState" where
  "open_channel_locked k si ti tp t s =
     (if \<not> transport_compatible tp (ti_data_transport ti) then (Inl ''TOPOLOGY_NOT_SUPPORTED_FOR_TRANSPORT'', s)
      else let c = fresh_channel k si ti tp t in (Inr c, upd_channel k c s))"

definition no_consumer :: ConsumerAdmissionResult where
  "no_consumer = \<lparr>c_admitted = False, c_topology_error_code = None, c_invalid_identifier = False,
     c_channel_opened = False, c_invariant_result = Inv_Created\<rparr>"

definition add_consumer_locked :: "string \<Rightarrow> ConsumerEntry \<Rightarrow> ChannelTopology option \<Rightarrow> ChannelSchemaInvariants option
    \<Rightarrow> ChannelTransportInvariants option \<Rightarrow> instant \<Rightarrow> HubState \<Rightarrow> ConsumerAdmissionResult \<times> HubState" where
  "add_consumer_locked k e decl osi oti t s = (case channels s k of
       None \<Rightarrow> (case (decl, osi, oti) of
           (Some FanIn, Some si, Some ti) \<Rightarrow> (case open_channel_locked k si ti FanIn t s of
               (Inl err, s1) \<Rightarrow> (no_consumer\<lparr>c_topology_error_code := Some err\<rparr>, s1)
             | (Inr c, s1) \<Rightarrow> let c' = c\<lparr>consumers := consumers c @ [e]\<rparr>
                 in (no_consumer\<lparr>c_admitted := True, c_channel_opened := True, c_invariant_result := Inv_Created\<rparr>,
                     fire [Ch_opened c', Cons_added k e] (upd_channel k c' s1)))
         | _ \<Rightarrow> (no_consumer, s))
     | Some c \<Rightarrow>
         if decl \<noteq> None \<and> decl \<noteq> Some (topology c)
         then (no_consumer\<lparr>c_topology_error_code := Some ''TOPOLOGY_MISMATCH''\<rparr>, s)
         else let is_dupe = (\<lambda>x. c_role_uid e \<noteq> [] \<and> c_role_uid x = c_role_uid e);
                  err = (if list_ex is_dupe (consumers c) then None
                    else check_cardinality (topology c) Side_Consumer (length (producers c)) (length (consumers c)))
           in case err of
               Some m \<Rightarrow> (no_consumer\<lparr>c_topology_error_code := Some m\<rparr>, s)
             | None \<Rightarrow> (no_consumer\<lparr>c_admitted := True, c_invariant_result := Inv_IdempotentEqual\<rparr>,
                 fire [Cons_added k e]
                   (upd_channel k (c\<lparr>consumers := filter (\<lambda>x. \<not> is_dupe x) (consumers c) @ [e]\<rparr>) s)))"

definition reset_confirmation :: "string \<Rightarrow> string \<Rightarrow> HubState \<Rightarrow> HubState" where
  "reset_confirmation k uid s = (case channel_access_index s k of
       None \<Rightarrow> s
     | Some l \<Rightarrow> s\<lparr>channel_access_index := (channel_access_index s)(k \<mapsto> snd (reset_role_confirmation uid l))\<rparr>)"

definition remove_consumer_locked :: "string \<Rightarrow> string \<Rightarrow> HubState \<Rightarrow> HubState" where
  "remove_consumer_locked k uid s = (case channels s k of
       None \<Rightarrow> s
     | Some c \<Rightarrow> let cs = filter (\<lambda>x. c_role_uid x \<noteq> uid) (consumers c);
           s1 = upd_channel k (c\<lparr>consumers := cs\<rparr>) s
         in if length cs < length (consumers c) then fire [Cons_removed k uid] (reset_confirmation k uid s1) else s1)"

definition set_role_registered :: "RoleEntry \<Rightarrow> HubState \<Rightarrow> HubState" where
  "set_role_registered r s = fire [Role_registered r] (upd_role (role_uid r) r s)"

definition set_band_joined :: "string \<Rightarrow> BandMember \<Rightarrow> instant \<Rightarrow> HubState \<Rightarrow> HubState" where
  "set_band_joined band m t s = (let b = (case map_of (bands s) band of
         None \<Rightarrow> \<lparr>band_name = [], members = [], band_created_at = steady t, last_activity = steady t\<rparr>
       | Some b \<Rightarrow> b);
       b1 = (if band_name b = [] then b\<lparr>band_name := band\<rparr> else b);
       b2 = b1\<lparr>members := filter (\<lambda>x. bm_role_uid x \<noteq> bm_role_uid m) (members b1) @ [m], last_activity := steady t\<rparr>
     in fire [Band_joined band m] (s\<lparr>bands := AList.update band b2 (bands s)\<rparr>))"

definition set_band_left :: "string \<Rightarrow> string \<Rightarrow> string \<Rightarrow> instant \<Rightarrow> HubState \<Rightarrow> HubState" where
  "set_band_left band uid reason t s = (case map_of (bands s) band of
       None \<Rightarrow> s
     | Some b \<Rightarrow> let m = filter (\<lambda>x. bm_role_uid x \<noteq> uid) (members b);
           nm = (case List.find (\<lambda>x. bm_role_uid x = uid) (members b) of None \<Rightarrow> [] | Some x \<Rightarrow> bm_role_name x);
           s1 = (if m = [] then s\<lparr>bands := AList.delete band (bands s)\<rparr>
                 else s\<lparr>bands := AList.update band (b\<lparr>members := m, last_activity := steady t\<rparr>) (bands s)\<rparr>)
         in if length m < length (members b) then fire [Band_left band uid nm reason] s1 else s1)"

definition set_peer_connected :: "PeerEntry \<Rightarrow> instant \<Rightarrow> HubState \<Rightarrow> HubState" where
  "set_peer_connected p t s = (let p' = p\<lparr>peer_state := Peer_Connected, last_seen := steady t\<rparr>
     in fire [Peer_connected p'] (s\<lparr>peers := (peers s)(peer_uid p \<mapsto> p')\<rparr>))"

definition set_peer_disconnected :: "string \<Rightarrow> HubState \<Rightarrow> HubState" where
  "set_peer_disconnected uid s = (case peers s uid of
       None \<Rightarrow> s
     | Some p \<Rightarrow> if peer_state p \<noteq> Peer_Disconnected
         then fire [Peer_disconnected uid] (s\<lparr>peers := (peers s)(uid \<mapsto> p\<lparr>peer_state := Peer_Disconnected\<rparr>)\<rparr>)
         else s)"

definition hub_set_producer_zmq_node_endpoint :: "string \<Rightarrow> string \<Rightarrow> string \<Rightarrow> HubState \<Rightarrow> bool \<times> HubState" where
  "hub_set_producer_zmq_node_endpoint k uid ep s = (if k = [] \<or> uid = [] \<or> ep = [] then (False, s)
     else case channels s k of
       None \<Rightarrow> (False, s)
     | Some c \<Rightarrow> (case set_producer_zmq_node_endpoint uid ep c of (found, c') \<Rightarrow> (found, upd_channel k c' s)))"

definition hub_set_channel_data_endpoint :: "string \<Rightarrow> string \<Rightarrow> HubState \<Rightarrow> bool \<times> HubState" where
  "hub_set_channel_data_endpoint k ep s = (if k = [] \<or> ep = [] then (False, s)
     else case channels s k of
       None \<Rightarrow> (False, s)
     | Some c \<Rightarrow> (True, upd_channel k (set_data_endpoint ep c) s))"

definition set_shm_block :: "ShmBlockRef \<Rightarrow> HubState \<Rightarrow> HubState" where
  "set_shm_block r s = s\<lparr>shm_blocks := (shm_blocks s)(sb_channel_name r \<mapsto> r)\<rparr>"

definition bump_msg_type_error :: "string \<Rightarrow> u64 \<Rightarrow> HubState \<Rightarrow> HubState" where
  "bump_msg_type_error k n = upd_counters (\<lambda>c. c\<lparr>msg_type_errors := count_up k n (msg_type_errors c)\<rparr>)"

definition bump_counter :: "string \<Rightarrow> u64 \<Rightarrow> HubState \<Rightarrow> HubState" where
  "bump_counter k n = upd_counters (\<lambda>c. c\<lparr>msg_type_counts := count_up k n (msg_type_counts c)\<rparr>)"

definition bump_invalid_identifier :: "HubState \<Rightarrow> HubState" where
  "bump_invalid_identifier = bump_counter ''sys.invalid_identifier_rejected'' 1"

section \<open>Roles\<close>

definition upsert_presence_row_locked :: "string \<Rightarrow> string \<Rightarrow> int \<Rightarrow> RoleEntry \<Rightarrow> RoleEntry" where
  "upsert_presence_row_locked ch rt now r = (if ch = [] \<or> rt = [] then r
     else if find_presence ch rt r \<noteq> None then r
     else r\<lparr>presences := presences r @ [new_presence ch rt now]\<rparr>)"

definition empty_role :: "instant \<Rightarrow> RoleEntry" where
  "empty_role t = \<lparr>role_uid = [], role_name = [], short_tag = [], role_channels = [], first_seen = wall t,
     pubkey_z85 = [], presences = []\<rparr>"

definition upsert_role_locked :: "string \<Rightarrow> string \<Rightarrow> string \<Rightarrow> string \<Rightarrow> instant \<Rightarrow> HubState \<Rightarrow> RoleEntry \<times> HubState" where
  "upsert_role_locked uid pubkey ch rt t s = (case parse_role_uid uid of
       None \<Rightarrow> (empty_role t, s)
     | Some parts \<Rightarrow> (case roles s uid of
         None \<Rightarrow> let r = upsert_presence_row_locked ch rt (steady t) ((empty_role t)\<lparr>role_uid := uid, role_name := tu_name parts,
               short_tag := tag parts, pubkey_z85 := pubkey, role_channels := (if ch \<noteq> [] then [ch] else [])\<rparr>)
           in (r, upd_role uid r s)
       | Some ex \<Rightarrow> let r = upsert_presence_row_locked ch rt (steady t) (ex\<lparr>role_name := tu_name parts, short_tag := tag parts,
               pubkey_z85 := (if pubkey \<noteq> [] then pubkey else pubkey_z85 ex),
               role_channels := (if ch \<noteq> [] \<and> ch \<notin> set (role_channels ex) then role_channels ex @ [ch] else role_channels ex)\<rparr>)
           in (r, upd_role uid r s)))"

text \<open>Upsert and notification, as every admission does it for a named role.\<close>

definition register_role :: "string \<Rightarrow> string \<Rightarrow> string \<Rightarrow> string \<Rightarrow> instant \<Rightarrow> HubState \<Rightarrow> HubState" where
  "register_role uid pubkey ch rt t s = (if uid = [] then s
     else case upsert_role_locked uid pubkey ch rt t s of (r, s') \<Rightarrow> fire [Role_registered r] s')"

section \<open>Channels\<close>

definition on_channel_registered :: "ChannelEntry \<Rightarrow> instant \<Rightarrow> HubState \<Rightarrow> HubState" where
  "on_channel_registered c t s =
     (if \<not> is_valid_identifier (ch_name c) Channel then bump_invalid_identifier s
      else if list_ex (\<lambda>p. p_role_uid p \<noteq> [] \<and> \<not> is_valid_identifier (p_role_uid p) RoleUid) (producers c)
      then bump_invalid_identifier s
      else if schema_id c \<noteq> [] \<and> \<not> is_valid_identifier (schema_id c) Schema then bump_invalid_identifier s
      else let uid = (case producers c of [] \<Rightarrow> [] | p # _ \<Rightarrow> p_role_uid p);
               key = (case producers c of [] \<Rightarrow> [] | p # _ \<Rightarrow> p_zmq_pubkey p);
               s1 = set_channel_opened c s;
               s2 = register_role uid key (ch_name c) ''producer'' t s1
        in if data_transport c = ''shm'' then set_shm_block \<lparr>sb_channel_name = ch_name c, block_path = ch_name c\<rparr> s2 else s2)"

definition no_producer :: ProducerAdmissionResult where
  "no_producer = \<lparr>producer_result = AP_Created, invariant_result = Inv_Created, topology_error_code = None,
     invalid_identifier = False, channel_opened = False, mismatched_invariant = []\<rparr>"

text \<open>The section of \<open>_on_producer_added\<close> under the writer lock, up to the bump of the instance counter:
  \<open>Inl\<close> is a rejection.\<close>

definition admit_producer_locked :: "string \<Rightarrow> ChannelSchemaInvariants \<Rightarrow> ChannelTransportInvariants
    \<Rightarrow> ChannelTopology option \<Rightarrow> ProducerEntry \<Rightarrow> instant \<Rightarrow> HubState
    \<Rightarrow> (ProducerAdmissionResult + ProducerAdmissionResult \<times> ChannelEntry) \<times> HubState" where
  "admit_producer_locked k si ti decl p t s = (case channels s k of
       None \<Rightarrow> (case open_channel_locked k si ti (case decl of None \<Rightarrow> OneToOne | Some tp \<Rightarrow> tp) t s of
           (Inl err, s1) \<Rightarrow> (Inl (no_producer\<lparr>topology_error_code := Some err\<rparr>), s1)
         | (Inr c, s1) \<Rightarrow> (case add_producer p c of
               (AP_RejectedUidConflict, _) \<Rightarrow> (Inl (no_producer\<lparr>producer_result := AP_RejectedUidConflict\<rparr>),
                 s1\<lparr>channels := (channels s1)(k := None)\<rparr>)
             | (AP_Created, c') \<Rightarrow>
                 (Inr (no_producer\<lparr>invariant_result := Inv_Created, channel_opened := True\<rparr>, c'), upd_channel k c' s1)))
     | Some c \<Rightarrow>
         if data_transport c \<noteq> ti_data_transport ti
         then (Inl (no_producer\<lparr>invariant_result := Inv_RejectedMismatch, mismatched_invariant := ''data_transport''\<rparr>), s)
         else if decl \<noteq> None \<and> decl \<noteq> Some (topology c)
         then (Inl (no_producer\<lparr>topology_error_code := Some ''TOPOLOGY_MISMATCH''\<rparr>), s)
         else let same = p_role_uid p \<noteq> [] \<and> find_producer (p_role_uid p) c \<noteq> None;
                  err = (if same then None
                    else check_cardinality (topology c) Side_Producer (length (producers c)) (length (consumers c)))
           in case err of
               Some m \<Rightarrow> (Inl (no_producer\<lparr>topology_error_code := Some m\<rparr>), s)
             | None \<Rightarrow> (case add_producer p c of
                   (AP_RejectedUidConflict, _) \<Rightarrow>
                     (Inl (no_producer\<lparr>invariant_result := Inv_IdempotentEqual, producer_result := AP_RejectedUidConflict\<rparr>), s)
                 | (AP_Created, c') \<Rightarrow>
                     (Inr (no_producer\<lparr>invariant_result := Inv_IdempotentEqual\<rparr>, c'), upd_channel k c' s)))"

definition bump_instance :: "string \<Rightarrow> HubState \<Rightarrow> HubState" where
  "bump_instance uid s = s\<lparr>producer_instance_map := count_up uid 1 (producer_instance_map s)\<rparr>"

definition on_producer_added :: "string \<Rightarrow> ChannelSchemaInvariants \<Rightarrow> ChannelTransportInvariants
    \<Rightarrow> ChannelTopology option \<Rightarrow> ProducerEntry \<Rightarrow> instant \<Rightarrow> HubState \<Rightarrow> ProducerAdmissionResult \<times> HubState" where
  "on_producer_added k si ti decl p t s =
     (if \<not> is_valid_identifier k Channel
         \<or> (p_role_uid p \<noteq> [] \<and> \<not> is_valid_identifier (p_role_uid p) RoleUid)
         \<or> (si_schema_id si \<noteq> [] \<and> \<not> is_valid_identifier (si_schema_id si) Schema)
      then (no_producer\<lparr>invalid_identifier := True\<rparr>, bump_invalid_identifier s)
      else case admit_producer_locked k si ti decl p t s of
          (Inl res, s1) \<Rightarrow> (res, s1)
        | (Inr (res, c), s1) \<Rightarrow>
            let s2 = (if p_role_uid p \<noteq> [] then reset_confirmation k (p_role_uid p) (bump_instance (p_role_uid p) s1) else s1);
                s3 = (if channel_opened res then fire [Ch_opened c] s2 else s2);
                s4 = register_role (p_role_uid p) (p_zmq_pubkey p) k ''producer'' t s3;
                s5 = (if channel_opened res \<and> ti_data_transport ti = ''shm''
                      then set_shm_block \<lparr>sb_channel_name = k, block_path = k\<rparr> s4 else s4)
            in (res, s5))"

text \<open>End of a presence: \<open>on_dereg\<close> followed by the cleanup of the channel cache.\<close>

definition end_presence :: "string \<Rightarrow> string \<Rightarrow> string \<Rightarrow> HubState \<Rightarrow> HubState" where
  "end_presence ch rt uid s = (case roles s uid of
       None \<Rightarrow> s
     | Some r \<Rightarrow> upd_role uid (snd (drop_channel_if_orphaned ch (snd (on_dereg ch rt r)))) s)"

definition on_channel_closed :: "string \<Rightarrow> ChannelCloseReason \<Rightarrow> instant \<Rightarrow> HubState \<Rightarrow> HubState" where
  "on_channel_closed k why t s = (if \<not> is_valid_identifier k Channel then bump_invalid_identifier s
     else let puids = (case channels s k of None \<Rightarrow> [] | Some c \<Rightarrow> filter (\<lambda>u. u \<noteq> []) (map p_role_uid (producers c)));
              cuids = (case channels s k of None \<Rightarrow> [] | Some c \<Rightarrow> filter (\<lambda>u. u \<noteq> []) (map c_role_uid (consumers c)));
              s1 = set_channel_closed k s;
              s2 = fold (end_presence k ''producer'') puids s1;
              s3 = fold (end_presence k ''consumer'') cuids s2;
              s4 = s3\<lparr>shm_blocks := (shm_blocks s3)(k := None)\<rparr>;
              s5 = bump_counter (''close:'' @ close_reason_to_string why) 1 s4
       in fold (\<lambda>u. dispatch_role_disconnected_if_dead u t) (puids @ cuids) s5)"

definition on_producer_dropped :: "string \<Rightarrow> string \<Rightarrow> ChannelCloseReason \<Rightarrow> instant \<Rightarrow> HubState
    \<Rightarrow> RemoveProducerResult \<times> HubState" where
  "on_producer_dropped k uid reason t s =
     (if \<not> is_valid_identifier k Channel \<or> \<not> is_valid_identifier uid RoleUid
      then (\<lparr>removed = False, channel_now_empty = False\<rparr>, bump_invalid_identifier s)
      else case channels s k of
          None \<Rightarrow> (\<lparr>removed = False, channel_now_empty = False\<rparr>, s)
        | Some c \<Rightarrow> if find_producer uid c = None then (\<lparr>removed = False, channel_now_empty = False\<rparr>, s)
            else if length (producers c) \<noteq> 1
            then let (rm, c') = remove_producer uid c;
                     s1 = end_presence k ''producer'' uid (upd_channel k c' s);
                     s2 = reset_confirmation k uid s1;
                     s3 = (if roles s uid \<noteq> None then dispatch_role_disconnected_if_dead uid t s2 else s2)
              in (\<lparr>removed = removed rm, channel_now_empty = False\<rparr>, s3)
            else (\<lparr>removed = True, channel_now_empty = True\<rparr>, on_channel_closed k reason t s))"

section \<open>Consumers\<close>

definition on_consumer_joined :: "string \<Rightarrow> ConsumerEntry \<Rightarrow> ChannelTopology option \<Rightarrow> ChannelSchemaInvariants option
    \<Rightarrow> ChannelTransportInvariants option \<Rightarrow> instant \<Rightarrow> HubState \<Rightarrow> ConsumerAdmissionResult \<times> HubState" where
  "on_consumer_joined k e decl osi oti t s =
     (if \<not> is_valid_identifier k Channel
         \<or> (c_role_uid e \<noteq> [] \<and> \<not> is_valid_identifier (c_role_uid e) RoleUid)
         \<or> (case osi of None \<Rightarrow> False | Some si \<Rightarrow> si_schema_id si \<noteq> [] \<and> \<not> is_valid_identifier (si_schema_id si) Schema)
      then (no_consumer\<lparr>c_invalid_identifier := True\<rparr>, bump_invalid_identifier s)
      else case add_consumer_locked k e decl osi oti t s of
          (res, s1) \<Rightarrow> (res, if c_admitted res then register_role (c_role_uid e) [] k ''consumer'' t s1 else s1))"

definition on_consumer_left :: "string \<Rightarrow> string \<Rightarrow> instant \<Rightarrow> HubState \<Rightarrow> HubState" where
  "on_consumer_left k uid t s =
     (if \<not> is_valid_identifier k Channel \<or> (uid \<noteq> [] \<and> \<not> is_valid_identifier uid RoleUid) then bump_invalid_identifier s
      else let s1 = remove_consumer_locked k uid s
        in if uid = [] then s1
           else if roles s1 uid = None then s1
           else dispatch_role_disconnected_if_dead uid t (end_presence k ''consumer'' uid s1))"

section \<open>Liveness\<close>

definition no_heartbeat :: HeartbeatEffect where
  "no_heartbeat = \<lparr>presence_found = False, prev_state = Disconnected, was_first_heartbeat_seen = False\<rparr>"

definition set_metrics :: "string \<Rightarrow> string \<Rightarrow> json option \<Rightarrow> int \<Rightarrow> RoleEntry \<Rightarrow> RoleEntry" where
  "set_metrics ch rt m now r = (case m of
       None \<Rightarrow> r
     | Some j \<Rightarrow> r\<lparr>presences := update_first (is_presence ch rt)
         (\<lambda>p. p\<lparr>latest_metrics := j, metrics_collected_at := now\<rparr>) (presences r)\<rparr>)"

definition hub_on_heartbeat :: "string \<Rightarrow> string \<Rightarrow> string \<Rightarrow> int \<Rightarrow> json option \<Rightarrow> instant \<Rightarrow> HubState
    \<Rightarrow> HeartbeatEffect \<times> HubState" where
  "hub_on_heartbeat k uid rt when m t s =
     (if \<not> is_valid_identifier k Channel \<or> (uid \<noteq> [] \<and> \<not> is_valid_identifier uid RoleUid)
      then (no_heartbeat, bump_invalid_identifier s)
      else if uid = [] \<or> rt = [] then (no_heartbeat, s)
      else case roles s uid of
          None \<Rightarrow> (no_heartbeat, s)
        | Some r \<Rightarrow> (case on_heartbeat k rt when r of (eff, r1) \<Rightarrow>
            if \<not> presence_found eff then (no_heartbeat, s)
            else let s1 = upd_role uid (set_metrics k rt m (wall t) r1) s;
                     s2 = (if prev_state eff = Pending
                           then upd_counters (\<lambda>c. c\<lparr>pending_to_ready_total := pending_to_ready_total c + 1\<rparr>) s1 else s1)
              in (eff, if rt = ''producer'' \<and> (\<not> was_first_heartbeat_seen eff \<or> prev_state eff \<noteq> Connected)
                       then (case channels s2 k of
                           None \<Rightarrow> s2
                         | Some c \<Rightarrow> fire [Ch_status_changed c (compute_channel_observable c (roles s2))] s2)
                       else s2)))"

text \<open>The default-constructed channel entry that the handlers receive when the channel is missing.\<close>

definition default_channel :: "instant \<Rightarrow> ChannelEntry" where
  "default_channel t = \<lparr>ch_name = [], schema_hash = [], schema_id = [], schema_blds = [], flexzone_blds = [],
     schema_owner = [], producers = [], consumers = [], data_transport = ''shm'', topology = OneToOne,
     data_endpoint = None, created_at = wall t\<rparr>"

definition hub_on_heartbeat_timeout :: "string \<Rightarrow> string \<Rightarrow> string \<Rightarrow> instant \<Rightarrow> HubState \<Rightarrow> HubState" where
  "hub_on_heartbeat_timeout k uid rt t s =
     (if \<not> is_valid_identifier k Channel \<or> (uid \<noteq> [] \<and> \<not> is_valid_identifier uid RoleUid) then bump_invalid_identifier s
      else if uid = [] \<or> rt = [] then s
      else case roles s uid of
          None \<Rightarrow> s
        | Some r \<Rightarrow> (case on_heartbeat_timeout k rt (steady t) r of (te, r1) \<Rightarrow>
            if te \<noteq> ToPending then s
            else let s1 = upd_counters (\<lambda>c. c\<lparr>ready_to_pending_total := ready_to_pending_total c + 1\<rparr>) (upd_role uid r1 s)
              in if rt = ''producer''
                 then (case channels s1 k of
                     None \<Rightarrow> fire [Ch_status_changed (default_channel t) kAbsent] s1
                   | Some c \<Rightarrow> fire [Ch_status_changed c (compute_channel_observable c (roles s1))] s1)
                 else s1))"

definition not_removed :: RemoveProducerResult where
  "not_removed = \<lparr>removed = False, channel_now_empty = False\<rparr>"

definition pending_timeout_consumer :: "string \<Rightarrow> string \<Rightarrow> instant \<Rightarrow> HubState \<Rightarrow> RemoveProducerResult \<times> HubState" where
  "pending_timeout_consumer k uid t s = (case (channels s k, roles s uid) of
       (Some c, Some r) \<Rightarrow> (case on_pending_timeout k ''consumer'' r of (te, r1) \<Rightarrow>
         if te \<noteq> ToDisconnected then (not_removed, s)
         else let (rm, c') = remove_consumer uid c;
                  s1 = upd_counters (\<lambda>n. n\<lparr>pending_to_deregistered_total := pending_to_deregistered_total n + 1\<rparr>)
                    (upd_role uid (snd (drop_channel_if_orphaned k r1)) (upd_channel k c' s))
           in (\<lparr>removed = rm, channel_now_empty = False\<rparr>, dispatch_role_disconnected_if_dead uid t s1))
     | _ \<Rightarrow> (not_removed, s))"

definition pending_timeout_producer :: "string \<Rightarrow> string \<Rightarrow> instant \<Rightarrow> HubState \<Rightarrow> RemoveProducerResult \<times> HubState" where
  "pending_timeout_producer k uid t s = (case (channels s k, roles s uid) of
       (Some c, Some r) \<Rightarrow> if find_producer uid c = None then (not_removed, s)
         else (case on_pending_timeout k ''producer'' r of (te, r1) \<Rightarrow>
           if te \<noteq> ToDisconnected then (not_removed, s)
           else let s1 = upd_counters (\<lambda>n. n\<lparr>pending_to_deregistered_total := pending_to_deregistered_total n + 1\<rparr>)
                  (upd_role uid r1 s)
             in if length (producers c) = 1
                then (\<lparr>removed = True, channel_now_empty = True\<rparr>, on_channel_closed k HeartbeatTimeout t s1)
                else let (rm, c') = remove_producer uid c;
                         s2 = upd_role uid (snd (drop_channel_if_orphaned k r1)) (upd_channel k c' s1)
                  in (\<lparr>removed = removed rm, channel_now_empty = False\<rparr>,
                      dispatch_role_disconnected_if_dead uid t (reset_confirmation k uid s2)))
     | _ \<Rightarrow> (not_removed, s))"

definition hub_on_pending_timeout :: "string \<Rightarrow> string \<Rightarrow> string \<Rightarrow> instant \<Rightarrow> HubState \<Rightarrow> RemoveProducerResult \<times> HubState" where
  "hub_on_pending_timeout k uid rt t s =
     (if \<not> is_valid_identifier k Channel \<or> \<not> is_valid_identifier uid RoleUid then (not_removed, bump_invalid_identifier s)
      else if rt = [] then (not_removed, s)
      else if rt = ''consumer'' then pending_timeout_consumer k uid t s
      else pending_timeout_producer k uid t s)"

section \<open>Bands and peers\<close>

definition on_band_joined :: "string \<Rightarrow> BandMember \<Rightarrow> instant \<Rightarrow> HubState \<Rightarrow> HubState" where
  "on_band_joined band m t s =
     (if \<not> is_valid_identifier band Band \<or> (bm_role_uid m \<noteq> [] \<and> \<not> is_valid_identifier (bm_role_uid m) RoleUid)
      then bump_invalid_identifier s
      else register_role (bm_role_uid m) [] [] [] t (set_band_joined band m t s))"

definition on_band_left :: "string \<Rightarrow> string \<Rightarrow> instant \<Rightarrow> HubState \<Rightarrow> HubState" where
  "on_band_left band uid t s =
     (if \<not> is_valid_identifier band Band \<or> (uid \<noteq> [] \<and> \<not> is_valid_identifier uid RoleUid) then bump_invalid_identifier s
      else set_band_left band uid ''voluntary'' t s)"

definition on_peer_connected :: "PeerEntry \<Rightarrow> instant \<Rightarrow> HubState \<Rightarrow> HubState" where
  "on_peer_connected p t s = (if \<not> is_valid_identifier (peer_uid p) PeerUid then bump_invalid_identifier s
     else set_peer_connected p t s)"

definition on_peer_disconnected :: "string \<Rightarrow> HubState \<Rightarrow> HubState" where
  "on_peer_disconnected uid s = (if \<not> is_valid_identifier uid PeerUid then bump_invalid_identifier s
     else set_peer_disconnected uid s)"

section \<open>Channel access\<close>

definition on_channel_access_opened :: "string \<Rightarrow> HubState \<Rightarrow> HubState" where
  "on_channel_access_opened k s = (if \<not> is_valid_identifier k Channel then bump_invalid_identifier s
     else case channel_access_index s k of
       None \<Rightarrow> s\<lparr>channel_access_index := (channel_access_index s)(k \<mapsto> empty_ledger)\<rparr>
     | Some _ \<Rightarrow> s)"

definition on_channel_access_closed :: "string \<Rightarrow> HubState \<Rightarrow> HubState" where
  "on_channel_access_closed k s = (if \<not> is_valid_identifier k Channel then bump_invalid_identifier s
     else s\<lparr>channel_access_index := (channel_access_index s)(k := None)\<rparr>)"

definition on_consumer_authorized :: "string \<Rightarrow> string \<Rightarrow> HubState \<Rightarrow> HubState" where
  "on_consumer_authorized k pk s = (if \<not> is_valid_identifier k Channel \<or> pk = [] then bump_invalid_identifier s
     else case channel_access_index s k of
       None \<Rightarrow> s
     | Some l \<Rightarrow> s\<lparr>channel_access_index := (channel_access_index s)(k \<mapsto> snd (admit pk l))\<rparr>)"

definition on_consumer_revoked :: "string \<Rightarrow> string \<Rightarrow> HubState \<Rightarrow> HubState" where
  "on_consumer_revoked k pk s = (if \<not> is_valid_identifier k Channel \<or> pk = [] then bump_invalid_identifier s
     else case channel_access_index s k of
       None \<Rightarrow> s
     | Some l \<Rightarrow> s\<lparr>channel_access_index := (channel_access_index s)(k \<mapsto> snd (revoke pk l))\<rparr>)"

definition on_role_confirmed :: "string \<Rightarrow> string \<Rightarrow> u64 \<Rightarrow> HubState \<Rightarrow> u64 \<times> HubState" where
  "on_role_confirmed k uid v s = (if \<not> is_valid_identifier k Channel \<or> uid = [] then (0, bump_invalid_identifier s)
     else case channel_access_index s k of
       None \<Rightarrow> (0, s)
     | Some l \<Rightarrow> (case confirm uid v l of (c, l') \<Rightarrow>
         (c, s\<lparr>channel_access_index := (channel_access_index s)(k \<mapsto> l')\<rparr>)))"

definition is_role_registered_on_channel :: "string \<Rightarrow> string \<Rightarrow> string \<Rightarrow> HubState \<Rightarrow> bool" where
  "is_role_registered_on_channel k uid rt s = (if \<not> is_valid_identifier k Channel \<or> uid = [] then False
     else case channels s k of
       None \<Rightarrow> False
     | Some c \<Rightarrow> if rt = ''consumer'' then list_ex (\<lambda>e. c_role_uid e = uid) (consumers c)
         else if rt = ''producer'' then list_ex (\<lambda>p. p_role_uid p = uid) (producers c)
         else False)"

definition is_pubkey_visible_to :: "string \<Rightarrow> string \<Rightarrow> string \<Rightarrow> HubState \<Rightarrow> bool option" where
  "is_pubkey_visible_to k uid pk s = (if \<not> is_valid_identifier k Channel \<or> uid = [] \<or> pk = [] then None
     else case channel_access_index s k of None \<Rightarrow> None | Some l \<Rightarrow> is_visible_to uid pk l)"

definition producer_instance :: "string \<Rightarrow> HubState \<Rightarrow> u64" where
  "producer_instance uid s = (if uid = [] then 0
     else case producer_instance_map s uid of None \<Rightarrow> 0 | Some v \<Rightarrow> v)"

definition nonce_seen :: "string \<Rightarrow> string \<Rightarrow> u64 \<Rightarrow> u64 \<Rightarrow> HubState \<Rightarrow> bool \<times> HubState" where
  "nonce_seen uid n window now s = (case check_and_record now uid n window (replay_guard s) of
     (ok, g) \<Rightarrow> (ok, s\<lparr>replay_guard := g\<rparr>))"

definition on_message_processed :: "string \<Rightarrow> u64 \<Rightarrow> u64 \<Rightarrow> HubState \<Rightarrow> HubState" where
  "on_message_processed m bi bo = upd_counters (\<lambda>c. c\<lparr>msg_type_counts := count_up m 1 (msg_type_counts c),
     bytes_in_total := bytes_in_total c + bi, bytes_out_total := bytes_out_total c + bo\<rparr>)"

section \<open>Schema registry\<close>

definition on_schema_registered :: "SchemaRecord \<Rightarrow> instant \<Rightarrow> HubState \<Rightarrow> SchemaRegOutcome \<times> HubState" where
  "on_schema_registered r t s =
     (if sr_owner_uid r = [] \<or> sr_schema_id r = [] then (kForbiddenOwner, s)
      else if \<not> has_datablock r \<and> \<not> has_flexzone r then (kForbiddenOwner, s)
      else if has_datablock r \<and> packing r = [] then (kForbiddenOwner, s)
      else if has_flexzone r \<and> flexzone_packing r = [] then (kForbiddenOwner, s)
      else case map_of (schemas s) (sr_owner_uid r, sr_schema_id r) of
          Some old \<Rightarrow> if schema_records_equivalent old r then (kIdempotent, s) else (kHashMismatchSelf, s)
        | None \<Rightarrow> (kCreated, upd_counters (\<lambda>c. c\<lparr>schema_registered_total := schema_registered_total c + 1\<rparr>)
            (s\<lparr>schemas := AList.update (sr_owner_uid r, sr_schema_id r) (r\<lparr>registered_at := wall t\<rparr>) (schemas s)\<rparr>)))"

definition on_schemas_evicted_for_owner :: "string \<Rightarrow> HubState \<Rightarrow> nat \<times> HubState" where
  "on_schemas_evicted_for_owner owner s = (if owner = [] then (0, s) else if owner = ''hub'' then (0, s)
     else case evict_schemas owner s of (n, s1) \<Rightarrow>
       (n, upd_counters (\<lambda>c. c\<lparr>schema_evicted_total := schema_evicted_total c + of_nat n\<rparr>) s1))"

record SchemaCitationInput =
  channel_owner :: string
  channel_id :: string
  channel_hash :: bytes
  channel_producer_uids :: "string list"
  cited_id :: string
  cited_owner :: string
  expected_hash :: bytes
  check_registry_record :: bool

definition citation_reason :: "SchemaCitationInput \<Rightarrow> HubState \<Rightarrow> CitationReason" where
  "citation_reason i s =
     (if expected_hash i \<noteq> channel_hash i then kFingerprintMismatch
      else if cited_id i \<noteq> channel_id i then kSchemaIdMismatch
      else if cited_id i \<noteq> [] \<and> cited_owner i \<noteq> [] \<and> cited_owner i \<noteq> channel_owner i then kSchemaOwnerMismatch
      else if check_registry_record i \<and> channel_id i \<noteq> [] then
        (if channel_owner i \<noteq> ''hub'' \<and> channel_owner i \<notin> set (channel_producer_uids i) then kCrossCitation
         else case map_of (schemas s) (channel_owner i, channel_id i) of
             None \<Rightarrow> kUnknownSchema
           | Some r \<Rightarrow> if sr_hash r \<noteq> channel_hash i then kFingerprintMismatch else kOk)
      else kOk)"

definition validate_schema_citation :: "SchemaCitationInput \<Rightarrow> HubState \<Rightarrow> CitationReason \<times> HubState" where
  "validate_schema_citation i s = (let r = citation_reason i s
     in (r, if r \<noteq> kOk
            then upd_counters (\<lambda>c. c\<lparr>schema_citation_rejected_total := schema_citation_rejected_total c + 1\<rparr>) s else s))"

end
