(* ===== verification/Wire_Dispatch.thy ===== *)
theory Wire_Dispatch
  imports Wire_Envelope Hub_State
begin

text \<open>
  What happens to a message before a handler of the broker sees it: the typed body classes
  (\<open>utils/network_comm/wire_bodies.cpp\<close>), the admission gates (\<open>utils/ipc/admission_gates.cpp\<close>), the
  dispatch table (\<open>utils/network_comm/wire_dispatch.cpp\<close>) and the callbacks that the constructor of
  \<open>BrokerService\<close> binds. The gates that consult the replay guard change the hub state, so they return
  it. The texts of rejections are not modelled, their code and field are. The theory shows which
  requests each tier of gates admits, and that a registration request is never admitted twice.
\<close>

section \<open>Body classes\<close>

datatype JsonKind = K_String | K_U32 | K_U64 | K_Object | K_Array

text \<open>The parser stores a whole number without sign as unsigned.\<close>

fun is_number_unsigned :: "Json \<Rightarrow> bool" where
  "is_number_unsigned (JInt i) \<longleftrightarrow> 0 \<le> i"
| "is_number_unsigned _ \<longleftrightarrow> False"

fun is_string :: "Json \<Rightarrow> bool" where
  "is_string (JStr s) \<longleftrightarrow> True"
| "is_string _ \<longleftrightarrow> False"

fun is_array :: "Json \<Rightarrow> bool" where
  "is_array (JArr xs) \<longleftrightarrow> True"
| "is_array _ \<longleftrightarrow> False"

fun has_kind :: "JsonKind \<Rightarrow> Json \<Rightarrow> bool" where
  "has_kind K_String j = is_string j"
| "has_kind K_U32 j = is_number_unsigned j"
| "has_kind K_U64 j = is_number_unsigned j"
| "has_kind K_Object j = is_object j"
| "has_kind K_Array j = is_array j"

definition mkerr :: "string \<Rightarrow> string \<Rightarrow> string" where
  "mkerr fld want = ''wire body: field '' @ [CHR 0x27] @ fld @ [CHR 0x27] @ '' '' @ want"

definition require :: "string \<Rightarrow> JsonKind \<Rightarrow> Json \<Rightarrow> string + unit" where
  "require fld k body = (case json_get fld body of
     None \<Rightarrow> Inl (mkerr fld ''missing'')
   | Some v \<Rightarrow> if has_kind k v then Inr () else Inl (mkerr fld ''wrong JSON kind''))"

definition validate_if_present :: "string \<Rightarrow> JsonKind \<Rightarrow> Json \<Rightarrow> string + unit" where
  "validate_if_present fld k body = (case json_get fld body of
     None \<Rightarrow> Inr ()
   | Some v \<Rightarrow> if has_kind k v then Inr () else Inl (mkerr fld ''present but wrong JSON kind''))"

text \<open>The first check that throws ends the constructor.\<close>

fun construct :: "(Json \<Rightarrow> string + unit) list \<Rightarrow> Json \<Rightarrow> string + Json" where
  "construct [] body = Inr body"
| "construct (c # cs) body = (case c body of Inl e \<Rightarrow> Inl e | Inr _ \<Rightarrow> construct cs body)"

definition require_envelope_hash :: "(Json \<Rightarrow> string + unit) list" where
  "require_envelope_hash = [require ''envelope_hash'' K_String]"

definition require_security_triple :: "(Json \<Rightarrow> string + unit) list" where
  "require_security_triple = require_envelope_hash @
     [require ''client_nonce'' K_String, require ''client_wall_ts'' K_U64]"

definition strings :: "string list \<Rightarrow> (Json \<Rightarrow> string + unit) list" where
  "strings fs = map (\<lambda>f. require f K_String) fs"

definition ProducerRegReqBody :: "Json \<Rightarrow> string + Json" where
  "ProducerRegReqBody = construct (strings [''channel_name'', ''role_uid'', ''role_type'', ''data_transport'', ''zmq_pubkey'']
     @ [require ''abi_fingerprint'' K_Object, validate_if_present ''role_name'' K_String] @ require_security_triple)"

definition ConsumerRegReqBody :: "Json \<Rightarrow> string + Json" where
  "ConsumerRegReqBody = construct (strings [''channel_name'', ''role_uid'', ''role_type'', ''data_transport'', ''zmq_pubkey'']
     @ [require ''abi_fingerprint'' K_Object, validate_if_present ''role_name'' K_String] @ require_security_triple)"

definition EndpointUpdateReqBody :: "Json \<Rightarrow> string + Json" where
  "EndpointUpdateReqBody = construct (strings [''channel_name'', ''endpoint_type'', ''endpoint''] @ require_security_triple)"

definition ChannelAuthAppliedReqBody :: "Json \<Rightarrow> string + Json" where
  "ChannelAuthAppliedReqBody = construct (strings [''channel_name'', ''role_uid'']
     @ [require ''applied_version'' K_U64, require ''instance_id'' K_U64] @ require_security_triple)"

definition DeregReqBody :: "Json \<Rightarrow> string + Json" where
  "DeregReqBody = construct (strings [''channel_name'', ''role_uid''] @ require_security_triple)"

definition GetChannelAuthReqBody :: "Json \<Rightarrow> string + Json" where
  "GetChannelAuthReqBody = construct (strings [''channel_name'', ''role_uid''] @ require_envelope_hash)"

definition HeartbeatNotifyBody :: "Json \<Rightarrow> string + Json" where
  "HeartbeatNotifyBody = construct (strings [''channel_name'', ''role_uid'', ''role_type''] @ require_envelope_hash)"

definition DiscReqBody :: "Json \<Rightarrow> string + Json" where
  "DiscReqBody = construct (strings [''channel_name''] @ require_envelope_hash)"

text \<open>Accessors of the typed bodies.\<close>

definition read_string :: "string \<Rightarrow> Json \<Rightarrow> string + string" where
  "read_string fld body = (case json_get fld body of
     Some (JStr s) \<Rightarrow> Inr s | _ \<Rightarrow> Inl (mkerr fld ''missing or not string''))"

definition read_string_or_empty :: "string \<Rightarrow> Json \<Rightarrow> string + string" where
  "read_string_or_empty fld body = (case json_get fld body of
     None \<Rightarrow> Inr [] | Some (JStr s) \<Rightarrow> Inr s | _ \<Rightarrow> Inl (mkerr fld ''present but not string''))"

definition read_u64 :: "string \<Rightarrow> Json \<Rightarrow> string + u64" where
  "read_u64 fld body = (case json_get fld body of
     Some (JInt i) \<Rightarrow> if 0 \<le> i then Inr (word_of_int i) else Inl (mkerr fld ''missing or not unsigned number'')
   | _ \<Rightarrow> Inl (mkerr fld ''missing or not unsigned number''))"

definition read_u64_or_zero :: "string \<Rightarrow> Json \<Rightarrow> string + u64" where
  "read_u64_or_zero fld body = (case json_get fld body of
     None \<Rightarrow> Inr 0
   | Some (JInt i) \<Rightarrow> if 0 \<le> i then Inr (word_of_int i) else Inl (mkerr fld ''present but not unsigned number'')
   | _ \<Rightarrow> Inl (mkerr fld ''present but not unsigned number''))"

section \<open>Gates\<close>

datatype RejectCode = envelope_tampered | body_schema_violation | identity_mismatch | invalid_request | unknown_role
  | rc_pubkey_mismatch | uid_conflict | replay_or_skew | invalid_role_tag | broker_internal_error

fun reject_to_wire_string :: "RejectCode \<Rightarrow> string" where
  "reject_to_wire_string envelope_tampered = ''ENVELOPE_TAMPERED''"
| "reject_to_wire_string body_schema_violation = ''BODY_SCHEMA_VIOLATION''"
| "reject_to_wire_string identity_mismatch = ''IDENTITY_MISMATCH''"
| "reject_to_wire_string invalid_request = ''INVALID_REQUEST''"
| "reject_to_wire_string unknown_role = ''UNKNOWN_ROLE''"
| "reject_to_wire_string rc_pubkey_mismatch = ''PUBKEY_MISMATCH''"
| "reject_to_wire_string uid_conflict = ''UID_CONFLICT''"
| "reject_to_wire_string replay_or_skew = ''REPLAY_OR_SKEW''"
| "reject_to_wire_string invalid_role_tag = ''INVALID_ROLE_TAG''"
| "reject_to_wire_string broker_internal_error = ''BROKER_INTERNAL_ERROR''"

type_synonym RejectDetail = "RejectCode \<times> string"

datatype KnownRoleLookup = binding_matches | uid_unknown | kr_pubkey_mismatch

record AdmissionCallbacks =
  lookup_known_role :: "(string \<Rightarrow> string \<Rightarrow> KnownRoleLookup) option"
  record_and_check_nonce :: "(string \<Rightarrow> string \<Rightarrow> HubState \<Rightarrow> bool \<times> HubState) option"
  wall_now_ms :: "u64 option"

record AdmissionContext =
  cb :: "AdmissionCallbacks option"
  skew_tolerance_ms :: u64
  nonce_window_ms :: u64

record RegFamilyBodyView =
  v_role_uid :: string
  v_channel_name :: string
  v_zmq_pubkey :: string
  v_client_nonce :: string
  v_client_wall_ts :: u64

record AuthenticatedRegFamilyView =
  a_role_uid :: string
  a_channel_name :: string
  a_client_nonce :: string
  a_client_wall_ts :: u64

record ControlBodyView =
  cv_role_uid :: string
  cv_channel_name :: string
  cv_role_type :: string

definition is_id_char :: "char \<Rightarrow> bool" where
  "is_id_char c \<longleftrightarrow> is_first_char c \<or> c \<in> set ''0123456789'' \<or> c = CHR ''.'' \<or> c = CHR ''_'' \<or> c = CHR ''-''"

definition grammar_ok :: "string \<Rightarrow> bool" where
  "grammar_ok s \<longleftrightarrow> s \<noteq> [] \<and> length s \<le> 128 \<and> list_all is_id_char s"

definition gate_identity_match :: "WireEnvelope \<Rightarrow> RegFamilyBodyView \<Rightarrow> RejectDetail option" where
  "gate_identity_match env body =
     (if env_identity env \<noteq> v_role_uid body then Some (identity_mismatch, ''role_uid'') else None)"

definition gate_grammar :: "RegFamilyBodyView \<Rightarrow> RejectDetail option" where
  "gate_grammar body =
     (if \<not> grammar_ok (v_role_uid body) then Some (invalid_request, ''role_uid'')
      else if \<not> grammar_ok (v_channel_name body) then Some (invalid_request, ''channel_name'')
      else if length (v_zmq_pubkey body) \<noteq> 40 then Some (invalid_request, ''zmq_pubkey'')
      else None)"

definition gate_known_role_binding :: "RegFamilyBodyView \<Rightarrow> AdmissionContext \<Rightarrow> RejectDetail option" where
  "gate_known_role_binding body ctx = (case Option.bind (cb ctx) lookup_known_role of
     None \<Rightarrow> Some (broker_internal_error, [])
   | Some look \<Rightarrow> (case look (v_role_uid body) (v_zmq_pubkey body) of
       binding_matches \<Rightarrow> None
     | uid_unknown \<Rightarrow> Some (unknown_role, ''role_uid'')
     | kr_pubkey_mismatch \<Rightarrow> Some (rc_pubkey_mismatch, ''zmq_pubkey'')))"

definition clock_delta :: "u64 \<Rightarrow> u64 \<Rightarrow> u64" where
  "clock_delta broker_now client_wall_ts =
     (if client_wall_ts < broker_now then broker_now - client_wall_ts else client_wall_ts - broker_now)"

definition check_replay_bound ::
  "string \<Rightarrow> string \<Rightarrow> u64 \<Rightarrow> AdmissionContext \<Rightarrow> HubState \<Rightarrow> RejectDetail option \<times> HubState" where
  "check_replay_bound uid n ts ctx s =
     (case (Option.bind (cb ctx) record_and_check_nonce, Option.bind (cb ctx) wall_now_ms) of
        (Some record_nonce, Some broker_now) \<Rightarrow>
          if skew_tolerance_ms ctx < clock_delta broker_now ts
          then (Some (replay_or_skew, ''client_wall_ts''), s)
          else (case record_nonce uid n s of
              (False, s') \<Rightarrow> (Some (replay_or_skew, ''client_nonce''), s')
            | (True, s') \<Rightarrow> (None, s'))
      | _ \<Rightarrow> (Some (invalid_request, []), s))"

definition kRoleTagTable :: "(string \<times> string list) list" where
  "kRoleTagTable = [(''REG_REQ'', [''prod'', ''proc'']), (''DEREG_REQ'', [''prod'', ''proc'']),
     (''CONSUMER_REG_REQ'', [''cons'', ''proc'']), (''CONSUMER_DEREG_REQ'', [''cons'', ''proc''])]"

definition heartbeat_tag :: "string \<Rightarrow> string option" where
  "heartbeat_tag role_type =
     (if role_type = ''producer'' then Some ''prod'' else if role_type = ''consumer'' then Some ''cons''
      else if role_type = ''processor'' then Some ''proc'' else None)"

definition gate_role_tag_policy :: "string \<Rightarrow> string \<Rightarrow> string \<Rightarrow> RejectDetail option" where
  "gate_role_tag_policy msg_type uid role_type_field = (case extract_short_tag uid of
     None \<Rightarrow> Some (broker_internal_error, ''role_uid'')
   | Some t \<Rightarrow>
       if msg_type = ''HEARTBEAT_NOTIFY'' then
         (case heartbeat_tag role_type_field of
            None \<Rightarrow> Some (invalid_request, ''role_type'')
          | Some required \<Rightarrow> if t \<noteq> required then Some (invalid_role_tag, ''role_uid'') else None)
       else (case map_of kRoleTagTable msg_type of
            Some allowed \<Rightarrow> if t \<in> set allowed then None else Some (invalid_role_tag, ''role_uid'')
          | None \<Rightarrow> if t \<noteq> ''prod'' \<and> t \<noteq> ''cons'' \<and> t \<noteq> ''proc'' then Some (invalid_request, ''role_uid'') else None))"

definition run_reg_family_gates ::
  "WireEnvelope \<Rightarrow> RegFamilyBodyView \<Rightarrow> AdmissionContext \<Rightarrow> HubState \<Rightarrow> RejectDetail option \<times> HubState" where
  "run_reg_family_gates env body ctx s = (case gate_identity_match env body of
     Some r \<Rightarrow> (Some r, s)
   | None \<Rightarrow> (case gate_grammar body of
       Some r \<Rightarrow> (Some r, s)
     | None \<Rightarrow> (case gate_role_tag_policy (env_msg_type env) (v_role_uid body) [] of
         Some r \<Rightarrow> (Some r, s)
       | None \<Rightarrow> (case gate_known_role_binding body ctx of
           Some r \<Rightarrow> (Some r, s)
         | None \<Rightarrow> check_replay_bound (v_role_uid body) (v_client_nonce body) (v_client_wall_ts body) ctx s))))"

definition run_authenticated_reg_family_gates ::
  "WireEnvelope \<Rightarrow> AuthenticatedRegFamilyView \<Rightarrow> AdmissionContext \<Rightarrow> HubState \<Rightarrow> RejectDetail option \<times> HubState" where
  "run_authenticated_reg_family_gates env body ctx s =
     (if env_identity env \<noteq> a_role_uid body then (Some (identity_mismatch, ''role_uid''), s)
      else if \<not> grammar_ok (a_role_uid body) then (Some (invalid_request, ''role_uid''), s)
      else if \<not> grammar_ok (a_channel_name body) then (Some (invalid_request, ''channel_name''), s)
      else case gate_role_tag_policy (env_msg_type env) (a_role_uid body) [] of
        Some r \<Rightarrow> (Some r, s)
      | None \<Rightarrow> check_replay_bound (a_role_uid body) (a_client_nonce body) (a_client_wall_ts body) ctx s)"

definition run_control_gates :: "WireEnvelope \<Rightarrow> ControlBodyView \<Rightarrow> RejectDetail option" where
  "run_control_gates env body =
     (let channel_check = (if cv_channel_name body \<noteq> [] \<and> \<not> grammar_ok (cv_channel_name body)
                           then Some (invalid_request, ''channel_name'') else None)
      in if cv_role_uid body \<noteq> [] then
           (if env_identity env \<noteq> cv_role_uid body then Some (identity_mismatch, ''role_uid'')
            else if \<not> grammar_ok (cv_role_uid body) then Some (invalid_request, ''role_uid'')
            else case gate_role_tag_policy (env_msg_type env) (cv_role_uid body) (cv_role_type body) of
              Some r \<Rightarrow> Some r
            | None \<Rightarrow> channel_check)
         else channel_check)"

section \<open>Dispatch\<close>

record RejectedMessage =
  rej_identity :: string
  rej_correlation_id :: string
  rej_msg_type :: string
  rej_code :: RejectCode
  rej_field :: string

datatype ReceivedMessage = Rejected RejectedMessage | ValidatedRegReq WireEnvelope Json
  | ValidatedConsumerRegReq WireEnvelope Json | ValidatedDeregReq WireEnvelope Json
  | ValidatedConsumerDeregReq WireEnvelope Json | ValidatedEndpointUpdateReq WireEnvelope Json
  | ValidatedChannelAuthAppliedReq WireEnvelope Json | ValidatedHeartbeatNotify WireEnvelope Json
  | ValidatedGetChannelAuthReq WireEnvelope Json | ValidatedDiscReq WireEnvelope Json
  | ValidatedRawControl WireEnvelope Json

fun parse_failure_code :: "ParseError \<Rightarrow> RejectCode" where
  "parse_failure_code envelope_hash_missing = envelope_tampered"
| "parse_failure_code envelope_hash_mismatch = envelope_tampered"
| "parse_failure_code _ = invalid_request"

definition parse_failure :: "ParseError \<Rightarrow> RejectedMessage" where
  "parse_failure err = \<lparr>rej_identity = [], rej_correlation_id = [], rej_msg_type = [],
     rej_code = parse_failure_code err, rej_field = []\<rparr>"

definition rejection_with_envelope :: "WireEnvelope \<Rightarrow> RejectDetail \<Rightarrow> ReceivedMessage" where
  "rejection_with_envelope env d = Rejected \<lparr>rej_identity = env_identity env,
     rej_correlation_id = env_correlation_id env, rej_msg_type = env_msg_type env, rej_code = fst d, rej_field = snd d\<rparr>"

text \<open>Accessors run after the constructor has checked the fields; an exception of either is a
  \<open>body_schema_violation\<close>.\<close>

definition text_of :: "string \<Rightarrow> Json \<Rightarrow> string" where
  "text_of fld body = (case read_string fld body of Inr t \<Rightarrow> t | Inl _ \<Rightarrow> [])"

definition number_of :: "string \<Rightarrow> Json \<Rightarrow> u64" where
  "number_of fld body = (case read_u64 fld body of Inr n \<Rightarrow> n | Inl _ \<Rightarrow> 0)"

definition view_of_reg :: "Json \<Rightarrow> RegFamilyBodyView" where
  "view_of_reg body = \<lparr>v_role_uid = text_of ''role_uid'' body, v_channel_name = text_of ''channel_name'' body,
     v_zmq_pubkey = text_of ''zmq_pubkey'' body, v_client_nonce = text_of ''client_nonce'' body,
     v_client_wall_ts = number_of ''client_wall_ts'' body\<rparr>"

definition auth_view_of :: "Json \<Rightarrow> AuthenticatedRegFamilyView" where
  "auth_view_of body = \<lparr>a_role_uid = text_of ''role_uid'' body, a_channel_name = text_of ''channel_name'' body,
     a_client_nonce = text_of ''client_nonce'' body, a_client_wall_ts = number_of ''client_wall_ts'' body\<rparr>"

definition auth_view_of_endpoint_update :: "WireEnvelope \<Rightarrow> Json \<Rightarrow> AuthenticatedRegFamilyView" where
  "auth_view_of_endpoint_update env body = \<lparr>a_role_uid = env_identity env, a_channel_name = text_of ''channel_name'' body,
     a_client_nonce = text_of ''client_nonce'' body, a_client_wall_ts = number_of ''client_wall_ts'' body\<rparr>"

text \<open>The shape that the validation routines share: construct the body, run the gates, wrap the result.\<close>

definition validate_with :: "(Json \<Rightarrow> string + Json) \<Rightarrow> (Json \<Rightarrow> HubState \<Rightarrow> RejectDetail option \<times> HubState)
    \<Rightarrow> (WireEnvelope \<Rightarrow> Json \<Rightarrow> ReceivedMessage) \<Rightarrow> WireEnvelope \<Rightarrow> HubState \<Rightarrow> ReceivedMessage \<times> HubState" where
  "validate_with ctor gates wrap env s = (case ctor (env_body env) of
     Inl e \<Rightarrow> (rejection_with_envelope env (body_schema_violation, []), s)
   | Inr typed \<Rightarrow> (case gates typed s of
       (Some r, s') \<Rightarrow> (rejection_with_envelope env r, s')
     | (None, s') \<Rightarrow> (wrap env typed, s')))"

definition validate_producer_reg_req :: "AdmissionContext \<Rightarrow> WireEnvelope \<Rightarrow> HubState \<Rightarrow> ReceivedMessage \<times> HubState" where
  "validate_producer_reg_req ctx env =
     validate_with ProducerRegReqBody (\<lambda>b. run_reg_family_gates env (view_of_reg b) ctx) ValidatedRegReq env"

definition validate_consumer_reg_req :: "AdmissionContext \<Rightarrow> WireEnvelope \<Rightarrow> HubState \<Rightarrow> ReceivedMessage \<times> HubState" where
  "validate_consumer_reg_req ctx env =
     validate_with ConsumerRegReqBody (\<lambda>b. run_reg_family_gates env (view_of_reg b) ctx) ValidatedConsumerRegReq env"

definition validate_auth_reg_family :: "(Json \<Rightarrow> string + Json) \<Rightarrow> (WireEnvelope \<Rightarrow> Json \<Rightarrow> ReceivedMessage)
    \<Rightarrow> AdmissionContext \<Rightarrow> WireEnvelope \<Rightarrow> HubState \<Rightarrow> ReceivedMessage \<times> HubState" where
  "validate_auth_reg_family ctor wrap ctx env =
     validate_with ctor (\<lambda>b. run_authenticated_reg_family_gates env (auth_view_of b) ctx) wrap env"

definition validate_endpoint_update :: "AdmissionContext \<Rightarrow> WireEnvelope \<Rightarrow> HubState \<Rightarrow> ReceivedMessage \<times> HubState" where
  "validate_endpoint_update ctx env = validate_with EndpointUpdateReqBody
     (\<lambda>b. run_authenticated_reg_family_gates env (auth_view_of_endpoint_update env b) ctx) ValidatedEndpointUpdateReq env"

definition validate_control_with_role_uid :: "(Json \<Rightarrow> string + Json) \<Rightarrow> bool \<Rightarrow> (WireEnvelope \<Rightarrow> Json \<Rightarrow> ReceivedMessage)
    \<Rightarrow> WireEnvelope \<Rightarrow> HubState \<Rightarrow> ReceivedMessage \<times> HubState" where
  "validate_control_with_role_uid ctor has_role_type wrap env =
     validate_with ctor (\<lambda>b s. (run_control_gates env \<lparr>cv_role_uid = text_of ''role_uid'' b,
       cv_channel_name = text_of ''channel_name'' b,
       cv_role_type = (if has_role_type then text_of ''role_type'' b else [])\<rparr>, s)) wrap env"

definition validate_disc_req :: "WireEnvelope \<Rightarrow> HubState \<Rightarrow> ReceivedMessage \<times> HubState" where
  "validate_disc_req env = validate_with DiscReqBody (\<lambda>b s. (None, s)) ValidatedDiscReq env"

definition envelope_only :: "WireEnvelope \<Rightarrow> ReceivedMessage" where
  "envelope_only env = ValidatedRawControl env (env_body env)"

definition envelope_with_role_uid :: "WireEnvelope \<Rightarrow> ReceivedMessage" where
  "envelope_with_role_uid env = (case run_control_gates env \<lparr>cv_role_uid = text_of ''role_uid'' (env_body env),
       cv_channel_name = text_of ''channel_name'' (env_body env), cv_role_type = []\<rparr> of
     Some r \<Rightarrow> rejection_with_envelope env r
   | None \<Rightarrow> ValidatedRawControl env (env_body env))"

definition envelope_with_query_role_uid :: "WireEnvelope \<Rightarrow> ReceivedMessage" where
  "envelope_with_query_role_uid env = (let uid = text_of ''role_uid'' (env_body env) in
     if uid \<noteq> [] then
       (if \<not> is_valid_identifier uid RoleUid then rejection_with_envelope env (invalid_request, ''role_uid'')
        else case gate_role_tag_policy (env_msg_type env) uid [] of
          Some r \<Rightarrow> rejection_with_envelope env r
        | None \<Rightarrow> ValidatedRawControl env (env_body env))
     else ValidatedRawControl env (env_body env))"

datatype Tier = T_RegReq | T_ConsumerRegReq | T_AuthReg_Dereg | T_AuthReg_ConsumerDereg | T_AuthReg_EndpointUpdate
  | T_AuthReg_ChanAuthApplied | T_Control_HeartbeatNotify | T_Control_GetChannelAuth | T_Control_Disc
  | T_Control_EnvelopeWithRoleUid | T_Control_EnvelopeWithQueryRoleUid | T_EnvelopeOnly

definition kDispatchTable :: "(string \<times> Tier) list" where
  "kDispatchTable = [
     (''REG_REQ'', T_RegReq), (''CONSUMER_REG_REQ'', T_ConsumerRegReq),
     (''DEREG_REQ'', T_AuthReg_Dereg), (''CONSUMER_DEREG_REQ'', T_AuthReg_ConsumerDereg),
     (''ENDPOINT_UPDATE_REQ'', T_AuthReg_EndpointUpdate), (''CHANNEL_AUTH_APPLIED_REQ'', T_AuthReg_ChanAuthApplied),
     (''HEARTBEAT_NOTIFY'', T_Control_HeartbeatNotify), (''GET_CHANNEL_AUTH_REQ'', T_Control_GetChannelAuth),
     (''DISC_REQ'', T_Control_Disc),
     (''CHECK_PEER_READY_REQ'', T_Control_EnvelopeWithRoleUid), (''BAND_JOIN_REQ'', T_Control_EnvelopeWithRoleUid),
     (''BAND_LEAVE_REQ'', T_Control_EnvelopeWithRoleUid), (''BAND_BROADCAST_SEND_NOTIFY'', T_Control_EnvelopeWithRoleUid),
     (''ROLE_PRESENCE_REQ'', T_Control_EnvelopeWithQueryRoleUid), (''ROLE_INFO_REQ'', T_Control_EnvelopeWithQueryRoleUid),
     (''SCHEMA_REQ'', T_EnvelopeOnly), (''CHANNEL_LIST_REQ'', T_EnvelopeOnly), (''METRICS_REQ'', T_EnvelopeOnly),
     (''SHM_BLOCK_QUERY_REQ'', T_EnvelopeOnly), (''BAND_MEMBERS_REQ'', T_EnvelopeOnly),
     (''CHANNEL_BROADCAST_SEND_NOTIFY'', T_EnvelopeOnly)]"

definition lookup_tier :: "string \<Rightarrow> Tier option" where
  "lookup_tier msg_type = map_of kDispatchTable msg_type"

fun validate_tier :: "Tier option \<Rightarrow> AdmissionContext \<Rightarrow> WireEnvelope \<Rightarrow> HubState \<Rightarrow> ReceivedMessage \<times> HubState" where
  "validate_tier None ctx env s = (envelope_only env, s)"
| "validate_tier (Some T_RegReq) ctx env s = validate_producer_reg_req ctx env s"
| "validate_tier (Some T_ConsumerRegReq) ctx env s = validate_consumer_reg_req ctx env s"
| "validate_tier (Some T_AuthReg_Dereg) ctx env s = validate_auth_reg_family DeregReqBody ValidatedDeregReq ctx env s"
| "validate_tier (Some T_AuthReg_ConsumerDereg) ctx env s =
     validate_auth_reg_family DeregReqBody ValidatedConsumerDeregReq ctx env s"
| "validate_tier (Some T_AuthReg_EndpointUpdate) ctx env s = validate_endpoint_update ctx env s"
| "validate_tier (Some T_AuthReg_ChanAuthApplied) ctx env s =
     validate_auth_reg_family ChannelAuthAppliedReqBody ValidatedChannelAuthAppliedReq ctx env s"
| "validate_tier (Some T_Control_HeartbeatNotify) ctx env s =
     validate_control_with_role_uid HeartbeatNotifyBody True ValidatedHeartbeatNotify env s"
| "validate_tier (Some T_Control_GetChannelAuth) ctx env s =
     validate_control_with_role_uid GetChannelAuthReqBody False ValidatedGetChannelAuthReq env s"
| "validate_tier (Some T_Control_Disc) ctx env s = validate_disc_req env s"
| "validate_tier (Some T_Control_EnvelopeWithRoleUid) ctx env s = (envelope_with_role_uid env, s)"
| "validate_tier (Some T_Control_EnvelopeWithQueryRoleUid) ctx env s = (envelope_with_query_role_uid env, s)"
| "validate_tier (Some T_EnvelopeOnly) ctx env s = (envelope_only env, s)"

definition receive_and_validate :: "(string \<Rightarrow> string) \<Rightarrow> (string \<Rightarrow> Json option) \<Rightarrow> AdmissionContext \<Rightarrow> string list
    \<Rightarrow> HubState \<Rightarrow> ReceivedMessage \<times> HubState" where
  "receive_and_validate blake2b json_parse ctx raw s = (case parse_router_recv blake2b json_parse raw of
     Inl err \<Rightarrow> (Rejected (parse_failure err), s)
   | Inr env \<Rightarrow> validate_tier (lookup_tier (env_msg_type env)) ctx env s)"

text \<open>The text of the message is an argument.\<close>

definition build_error_reply :: "(string \<Rightarrow> string) \<Rightarrow> (Json \<Rightarrow> string) \<Rightarrow> string \<Rightarrow> RejectedMessage \<Rightarrow> BuildError + string list" where
  "build_error_reply blake2b dump message rej =
     (let b0 = json_set ''message'' (JStr message) (json_set ''error_code'' (JStr (reject_to_wire_string (rej_code rej)))
                 (json_set ''status'' (JStr ''error'') (JObj [])));
          b1 = (if rej_field rej \<noteq> [] then json_set ''field'' (JStr (rej_field rej)) b0 else b0);
          b2 = (if rej_correlation_id rej \<noteq> [] then json_set ''correlation_id'' (JStr (rej_correlation_id rej)) b1 else b1)
      in build_router_send blake2b dump (rej_identity rej) ''ERROR'' (rej_correlation_id rej) b2)"

section \<open>The callbacks of the broker\<close>

record KnownRole =
  kr_name :: string
  kr_uid :: string
  kr_role :: string
  kr_pubkey_z85 :: string

fun known_role_lookup :: "KnownRole list \<Rightarrow> string \<Rightarrow> string \<Rightarrow> KnownRoleLookup" where
  "known_role_lookup [] uid pubkey = uid_unknown"
| "known_role_lookup (kr # krs) uid pubkey =
     (if kr_uid kr = uid then (if kr_pubkey_z85 kr = pubkey then binding_matches else kr_pubkey_mismatch)
      else known_role_lookup krs uid pubkey)"

text \<open>\<open>tick\<close> is the clock of the replay guard, \<open>wallms\<close> the system clock, both in milliseconds.\<close>

definition broker_context :: "KnownRole list \<Rightarrow> u64 \<Rightarrow> u64 \<Rightarrow> AdmissionContext" where
  "broker_context known_roles tick wallms = \<lparr>
     cb = Some \<lparr>lookup_known_role = Some (known_role_lookup known_roles),
                record_and_check_nonce = Some (\<lambda>uid n. nonce_seen uid n 60000 tick),
                wall_now_ms = Some wallms\<rparr>,
     skew_tolerance_ms = 30000, nonce_window_ms = 60000\<rparr>"

section \<open>No request is admitted twice\<close>

text \<open>The identity, nonce and time stamp of an admitted registration request.\<close>

definition stamp :: "WireEnvelope \<Rightarrow> Json \<Rightarrow> string \<times> string \<times> u64" where
  "stamp env body = (env_identity env, text_of ''client_nonce'' body, number_of ''client_wall_ts'' body)"

fun admitted_stamp :: "ReceivedMessage \<Rightarrow> (string \<times> string \<times> u64) option" where
  "admitted_stamp (ValidatedRegReq env b) = Some (stamp env b)"
| "admitted_stamp (ValidatedConsumerRegReq env b) = Some (stamp env b)"
| "admitted_stamp (ValidatedDeregReq env b) = Some (stamp env b)"
| "admitted_stamp (ValidatedConsumerDeregReq env b) = Some (stamp env b)"
| "admitted_stamp (ValidatedEndpointUpdateReq env b) = Some (stamp env b)"
| "admitted_stamp (ValidatedChannelAuthAppliedReq env b) = Some (stamp env b)"
| "admitted_stamp _ = None"

text \<open>A run of the receive loop: each message arrives with the readings of the two clocks; \<open>handle\<close> is what
  the broker does with it.\<close>

fun receive_all :: "(string \<Rightarrow> string) \<Rightarrow> (string \<Rightarrow> Json option) \<Rightarrow> KnownRole list \<Rightarrow> (ReceivedMessage \<Rightarrow> HubState \<Rightarrow> HubState)
    \<Rightarrow> (u64 \<times> u64 \<times> string list) list \<Rightarrow> HubState \<Rightarrow> ReceivedMessage list" where
  "receive_all blake2b json_parse krs handle [] s = []"
| "receive_all blake2b json_parse krs handle ((tick, wallms, raw) # ms) s =
     (case receive_and_validate blake2b json_parse (broker_context krs tick wallms) raw s of
        (m, s') \<Rightarrow> m # receive_all blake2b json_parse krs handle ms (handle m s'))"

lemma clock_delta_le: "clock_delta a b \<le> k \<longleftrightarrow> \<bar>uint a - uint b\<bar> \<le> uint k"
  by (auto simp: clock_delta_def word_less_def word_le_def uint_sub_if')

text \<open>What a call of the replay check does to the guard, and what it means that it admits.\<close>

definition guarded :: "u64 \<Rightarrow> u64 \<Rightarrow> HubState \<Rightarrow> (string \<times> string \<times> u64) option \<Rightarrow> HubState \<Rightarrow> bool" where
  "guarded tick wallms s a s' \<longleftrightarrow> (case a of
     None \<Rightarrow> replay_guard s' = replay_guard s
       \<or> (\<exists>i n. check_and_record tick i n 60000 (replay_guard s) = (False, replay_guard s'))
   | Some (i, n, ts) \<Rightarrow> check_and_record tick i n 60000 (replay_guard s) = (True, replay_guard s')
       \<and> \<bar>uint wallms - uint ts\<bar> \<le> 30000)"

lemma guarded_same [simp]: "guarded tick wallms s None s"
  by (simp add: guarded_def)

lemma check_replay_bound_guarded:
  assumes "check_replay_bound i n ts (broker_context krs tick wallms) s = (r, s')"
  shows "guarded tick wallms s (if r = None then Some (i, n, ts) else None) s'"
  using assms
  by (auto simp: check_replay_bound_def broker_context_def nonce_seen_def guarded_def not_less clock_delta_le
      split: if_splits prod.splits bool.splits)

lemma reg_gates_guarded:
  assumes "run_reg_family_gates env v (broker_context krs tick wallms) s = (r, s')"
  shows "guarded tick wallms s (if r = None then Some (env_identity env, v_client_nonce v, v_client_wall_ts v) else None) s'"
  using assms
  by (auto simp: run_reg_family_gates_def gate_identity_match_def split: option.splits if_splits
      dest: check_replay_bound_guarded)

lemma auth_gates_guarded:
  assumes "run_authenticated_reg_family_gates env v (broker_context krs tick wallms) s = (r, s')"
  shows "guarded tick wallms s (if r = None then Some (env_identity env, a_client_nonce v, a_client_wall_ts v) else None) s'"
  using assms
  by (auto simp: run_authenticated_reg_family_gates_def split: option.splits if_splits
      dest: check_replay_bound_guarded)

lemma construct_result: "construct cs b = Inr b' \<Longrightarrow> b' = b"
  by (induction cs) (auto split: sum.splits)

lemma rejection_no_stamp [simp]: "admitted_stamp (rejection_with_envelope env r) = None"
  by (simp add: rejection_with_envelope_def)

lemma validate_with_guarded:
  assumes "\<And>b r s'. gates b s = (r, s') \<Longrightarrow> guarded tick wallms s (if r = None then admitted_stamp (wrap env b) else None) s'"
  shows "guarded tick wallms s (admitted_stamp (fst (validate_with ctor gates wrap env s))) (snd (validate_with ctor gates wrap env s))"
  by (auto simp: validate_with_def split: sum.splits prod.splits option.splits dest!: assms)

lemmas validate_defs = validate_producer_reg_req_def validate_consumer_reg_req_def validate_auth_reg_family_def
  validate_endpoint_update_def validate_control_with_role_uid_def validate_disc_req_def

lemma validate_tier_guarded:
  assumes "validate_tier t (broker_context krs tick wallms) env s = (m, s')"
  shows "guarded tick wallms s (admitted_stamp m) s'"
proof (cases "t \<in> {None, Some T_Control_EnvelopeWithRoleUid, Some T_Control_EnvelopeWithQueryRoleUid, Some T_EnvelopeOnly}")
  case True
  then show ?thesis
    using assms by (auto simp: envelope_only_def envelope_with_role_uid_def envelope_with_query_role_uid_def Let_def
        split: option.splits if_splits)
next
  case False
  note defs = stamp_def view_of_reg_def auth_view_of_def auth_view_of_endpoint_update_def
  note gates = reg_gates_guarded auth_gates_guarded
  have "guarded tick wallms s (admitted_stamp (fst (validate_tier t (broker_context krs tick wallms) env s)))
      (snd (validate_tier t (broker_context krs tick wallms) env s))"
    using False
    by (cases "the t"; cases t) (simp_all add: validate_defs,
        (rule validate_with_guarded; auto simp: defs dest!: gates split: if_splits)+)
  then show ?thesis
    using assms by simp
qed

lemma receive_guarded:
  assumes "receive_and_validate blake2b json_parse (broker_context krs tick wallms) raw s = (m, s')"
  shows "guarded tick wallms s (admitted_stamp m) s'"
proof (cases "parse_router_recv blake2b json_parse raw")
  case (Inr env)
  then show ?thesis
    using assms by (auto simp: receive_and_validate_def intro: validate_tier_guarded)
qed (use assms in \<open>auto simp: receive_and_validate_def\<close>)

text \<open>The requests the guard has accepted, of which each admitted stamp is one, close to its time stamp.\<close>

definition stamps_past :: "int \<Rightarrow> request list \<Rightarrow> (string \<times> string \<times> u64) set \<Rightarrow> bool" where
  "stamps_past off past seen \<longleftrightarrow>
     (\<forall>(i, n, ts) \<in> seen. \<exists>t. (t, i, n) \<in> set past \<and> \<bar>uint t + off - uint ts\<bar> \<le> 30000)"

lemma stamps_past_mono: "stamps_past off past seen \<Longrightarrow> set past \<subseteq> set past' \<Longrightarrow> stamps_past off past' seen"
  unfolding stamps_past_def by fastforce

lemma guarded_step:
  assumes sim: "table_sim 60000 tick (replay_guard s) past" and past: "stamps_past off past seen"
    and step: "guarded tick wallms s a s'" and clocks: "uint wallms = uint tick + off"
  obtains past' where "table_sim 60000 tick (replay_guard s') past'" "stamps_past off past' (seen \<union> set_option a)"
    "seen \<inter> set_option a = {}"
proof (cases a)
  case None
  then consider "replay_guard s' = replay_guard s"
    | i n where "check_and_record tick i n 60000 (replay_guard s) = (False, replay_guard s')"
    using step by (auto simp: guarded_def)
  then have "table_sim 60000 tick (replay_guard s') past"
    using sim check_and_record_sim(2) [OF sim] by cases fastforce+
  then show ?thesis
    using past None by (intro that [of past]) simp_all
next
  case (Some st)
  obtain i n ts where st: "st = (i, n, ts)"
    by (cases st)
  have call: "check_and_record tick i n 60000 (replay_guard s) = (True, replay_guard s')"
    and near: "\<bar>uint wallms - uint ts\<bar> \<le> 30000"
    using step Some st by (auto simp: guarded_def)
  have fresh: "fresh 60000 past (tick, i, n)"
    and sim': "table_sim 60000 tick (replay_guard s') ((tick, i, n) # past)"
    using check_and_record_sim [OF sim call] by simp_all
  have "st \<notin> seen"
  proof
    assume "st \<in> seen"
    then obtain t where t: "(t, i, n) \<in> set past" "\<bar>uint t + off - uint ts\<bar> \<le> 30000"
      using past st by (auto simp: stamps_past_def)
    then have "int (unat tick) - int (unat t) \<le> 60000"
      using near clocks unfolding uint_nat by linarith
    then have "unat tick - unat t \<le> 60000"
      by linarith
    then have "unat tick - unat t \<le> unat (60000 :: u64)"
      by simp
    then show False
      using fresh t(1) unfolding fresh_def within_window_def list_ex_iff by fastforce
  qed
  moreover have "stamps_past off ((tick, i, n) # past) (seen \<union> {st})"
  proof -
    have "stamps_past off ((tick, i, n) # past) seen"
      by (rule stamps_past_mono [OF past]) auto
    then show ?thesis
      using near clocks by (simp add: stamps_past_def st) blast
  qed
  ultimately show ?thesis
    using that sim' Some by simp
qed

lemma receive_all_distinct:
  assumes "table_sim 60000 t0 (replay_guard s) past" and "stamps_past off past seen"
    and "sorted_wrt (\<le>) (t0 # map fst ms)" and "\<And>tick wallms raw. (tick, wallms, raw) \<in> set ms \<Longrightarrow> uint wallms = uint tick + off"
    and handle: "\<And>m s. replay_guard (handle m s) = replay_guard s"
  shows "distinct (List.map_filter admitted_stamp (receive_all blake2b json_parse krs handle ms s))
    \<and> set (List.map_filter admitted_stamp (receive_all blake2b json_parse krs handle ms s)) \<inter> seen = {}"
  using assms(1-4)
proof (induction ms arbitrary: t0 s past seen)
  case (Cons x ms)
  obtain tick wallms raw where x: "x = (tick, wallms, raw)"
    by (cases x)
  obtain m s' where recv: "receive_and_validate blake2b json_parse (broker_context krs tick wallms) raw s = (m, s')"
    by fastforce
  have "table_sim 60000 tick (replay_guard s) past"
    using table_sim_later [OF Cons.prems(1)] Cons.prems(3) x by simp
  moreover have "uint wallms = uint tick + off"
    using Cons.prems(4) [of tick wallms raw] x by simp
  ultimately obtain past' where past': "table_sim 60000 tick (replay_guard s') past'"
      "stamps_past off past' (seen \<union> set_option (admitted_stamp m))" "seen \<inter> set_option (admitted_stamp m) = {}"
    using guarded_step [OF _ Cons.prems(2) receive_guarded [OF recv]] by blast
  have "distinct (List.map_filter admitted_stamp (receive_all blake2b json_parse krs handle ms (handle m s')))
    \<and> set (List.map_filter admitted_stamp (receive_all blake2b json_parse krs handle ms (handle m s')))
       \<inter> (seen \<union> set_option (admitted_stamp m)) = {}"
    using Cons.prems(3,4) x past'(1,2) by (intro Cons.IH [of tick _ past']) (auto simp: handle)
  then show ?case
    using past'(3) by (auto simp: x recv List.map_filter_simps split: option.splits)
qed simp

text \<open>C17: however messages are captured and sent again, no two admitted registration requests (of any of the six
  kinds that change admission state) carry the same identity, nonce and time stamp; so no request is
  admitted twice. The clock of the guard must not go back and the system clock must run in step with it;
  what the handlers do between messages does not matter as long as they leave the replay guard alone.\<close>

theorem no_request_admitted_twice:
  assumes "sorted_wrt (\<le>) (map fst ms)"
    and "\<And>tick wallms raw. (tick, wallms, raw) \<in> set ms \<Longrightarrow> uint wallms = uint tick + off"
    and "\<And>m s. replay_guard (handle m s) = replay_guard s"
    and "replay_guard s = Map.empty"
  shows "distinct (List.map_filter admitted_stamp (receive_all blake2b json_parse krs handle ms s))"
proof -
  have "table_sim 60000 0 (replay_guard s) []"
    by (simp add: assms(4) table_sim_def known_def)
  then show ?thesis
    using assms by (intro receive_all_distinct [THEN conjunct1, of 0 _ "[]" off "{}"]) (auto simp: stamps_past_def)
qed

section \<open>What a handler may rely on\<close>

text \<open>A construction that succeeds has found every required field.\<close>

lemma construct_iff: "construct cs b = Inr b' \<longleftrightarrow> b' = b \<and> (\<forall>c\<in>set cs. c b = Inr ())"
  by (induction cs) (auto split: sum.splits)

lemma reg_body_result: "ProducerRegReqBody b = Inr b' \<Longrightarrow> b' = b"
  by (simp add: ProducerRegReqBody_def construct_iff)

lemma require_iff: "require f k b = Inr () \<longleftrightarrow> (\<exists>v. json_get f b = Some v \<and> has_kind k v)"
  by (auto simp: require_def split: option.splits)

lemma check_replay_bound_admits:
  "fst (check_replay_bound uid n ts (broker_context krs tick wallms) s) = None \<longleftrightarrow>
    \<bar>uint wallms - uint ts\<bar> \<le> 30000 \<and> fst (check_and_record tick uid n 60000 (replay_guard s))"
proof -
  have "30000 < clock_delta wallms ts \<longleftrightarrow> \<not> \<bar>uint wallms - uint ts\<bar> \<le> 30000"
    unfolding not_le [symmetric] clock_delta_le by simp
  then show ?thesis
    by (auto simp: check_replay_bound_def broker_context_def nonce_seen_def split: prod.splits bool.splits)
qed

lemma known_role_lookup_binds:
  "known_role_lookup krs uid key = binding_matches \<longleftrightarrow>
    (\<exists>kr. find (\<lambda>k. kr_uid k = uid) krs = Some kr \<and> kr_pubkey_z85 kr = key)"
  by (induction krs) auto

lemma role_tag_policy_reg:
  "gate_role_tag_policy ''REG_REQ'' uid [] = None \<longleftrightarrow> extract_short_tag uid \<in> {Some ''prod'', Some ''proc''}"
  by (auto simp: gate_role_tag_policy_def kRoleTagTable_def split: option.splits)

lemma reg_gates_admit:
  assumes "env_msg_type env = ''REG_REQ''"
  shows "fst (run_reg_family_gates env v (broker_context krs tick wallms) s) = None \<longleftrightarrow>
    env_identity env = v_role_uid v \<and> grammar_ok (v_role_uid v) \<and> grammar_ok (v_channel_name v)
    \<and> length (v_zmq_pubkey v) = 40 \<and> extract_short_tag (v_role_uid v) \<in> {Some ''prod'', Some ''proc''}
    \<and> (\<exists>kr. find (\<lambda>k. kr_uid k = v_role_uid v) krs = Some kr \<and> kr_pubkey_z85 kr = v_zmq_pubkey v)
    \<and> \<bar>uint wallms - uint (v_client_wall_ts v)\<bar> \<le> 30000
    \<and> fst (check_and_record tick (v_role_uid v) (v_client_nonce v) 60000 (replay_guard s))"
proof -
  have "gate_known_role_binding v (broker_context krs tick wallms) = None \<longleftrightarrow>
      (\<exists>kr. find (\<lambda>k. kr_uid k = v_role_uid v) krs = Some kr \<and> kr_pubkey_z85 kr = v_zmq_pubkey v)"
    by (auto simp: gate_known_role_binding_def broker_context_def known_role_lookup_binds [symmetric]
        split: KnownRoleLookup.splits)
  moreover have "gate_grammar v = None \<longleftrightarrow> grammar_ok (v_role_uid v) \<and> grammar_ok (v_channel_name v) \<and> length (v_zmq_pubkey v) = 40"
    by (simp add: gate_grammar_def)
  moreover have "gate_identity_match env v = None \<longleftrightarrow> env_identity env = v_role_uid v"
    by (simp add: gate_identity_match_def)
  moreover have "fst (run_reg_family_gates env v (broker_context krs tick wallms) s) = None \<longleftrightarrow>
      gate_identity_match env v = None \<and> gate_grammar v = None \<and> gate_role_tag_policy ''REG_REQ'' (v_role_uid v) [] = None
      \<and> gate_known_role_binding v (broker_context krs tick wallms) = None
      \<and> fst (check_replay_bound (v_role_uid v) (v_client_nonce v) (v_client_wall_ts v) (broker_context krs tick wallms) s) = None"
    by (simp add: run_reg_family_gates_def assms split: option.splits)
  ultimately show ?thesis
    unfolding role_tag_policy_reg check_replay_bound_admits by (simp only: conj_assoc)
qed


text \<open>The attach requests of consumers are not in the dispatch table: their claims of identity reach the
  handlers unchecked.\<close>

lemma attach_requests_ungated:
  assumes "parse_router_recv blake2b json_parse raw = Inr env"
    and "env_msg_type env \<in> {''CONSUMER_ATTACH_REQ_ZMQ'', ''CONSUMER_ATTACH_REQ_SHM'', ''CHECKSUM_ERROR_REPORT''}"
  shows "receive_and_validate blake2b json_parse ctx raw s = (ValidatedRawControl env (env_body env), s)"
  using assms by (auto simp: receive_and_validate_def lookup_tier_def kDispatchTable_def envelope_only_def)

section \<open>Witnesses\<close>

definition demo_dereg :: Json where
  "demo_dereg = JObj [(''channel_name'', JStr ''lab.cam''), (''client_nonce'', JStr ''n1''), (''client_wall_ts'', JInt 5000),
     (''envelope_hash'', JStr (bytes_to_hex ''prod.cam.u1DEREG_REQc7'')), (''role_uid'', JStr ''prod.cam.u1'')]"

definition demo_raw :: "string list" where
  "demo_raw = [''prod.cam.u1'', ''C'', ''DEREG_REQ'', ''c7'', ''x'']"

theorem no_request_admitted_twice_witness:
  "distinct (List.map_filter admitted_stamp
     (receive_all (\<lambda>x. x) (\<lambda>x. Some demo_dereg) [] (\<lambda>m s. s) [(100, 5100, demo_raw), (20000, 25000, demo_raw)] empty_hub))
   \<and> List.map_filter admitted_stamp
     (receive_all (\<lambda>x. x) (\<lambda>x. Some demo_dereg) [] (\<lambda>m s. s) [(100, 5100, demo_raw), (20000, 25000, demo_raw)] empty_hub)
     = [(''prod.cam.u1'', ''n1'', 5000)]"
proof
  show "distinct (List.map_filter admitted_stamp
     (receive_all (\<lambda>x. x) (\<lambda>x. Some demo_dereg) [] (\<lambda>m s. s) [(100, 5100, demo_raw), (20000, 25000, demo_raw)] empty_hub))"
    by (rule no_request_admitted_twice [where off = 5000]) (auto simp: empty_hub_def)
  show "List.map_filter admitted_stamp
     (receive_all (\<lambda>x. x) (\<lambda>x. Some demo_dereg) [] (\<lambda>m s. s) [(100, 5100, demo_raw), (20000, 25000, demo_raw)] empty_hub)
     = [(''prod.cam.u1'', ''n1'', 5000)]"
    by code_simp
qed

end
