(* ===== verification/Broker_Attach.thy ===== *)
theory Broker_Attach
  imports Wire_Dispatch "HOL-Library.Multiset"
begin

text \<open>
  Attach coordination of the broker (\<open>utils/ipc/broker_service.cpp\<close>): a consumer asks whether a producer will
  let it in; the answer waits until the producer has confirmed an allowlist that holds the consumer's
  key. The theory holds the state of the broker, its sends, the queue of deferred answers with the four
  ways in which it is drained, and the handlers of attach, confirmation, readiness and allowlist
  requests. A request body is a JSON value; reading a member of the wrong type throws, which a handler
  returns as \<open>Inl\<close>. Log-only statements (among them the check of the peer's ABI fingerprint) and the members of
  replies that describe the build of the broker are left out.
\<close>

section \<open>Reading and writing bodies\<close>

definition type_error :: string where "type_error = ''type_error''"

text \<open>\<open>req.value(field, default)\<close> for texts; the continuation runs when the member is absent or a string.\<close>

definition with_text_or :: "string \<Rightarrow> string \<Rightarrow> Json \<Rightarrow> (string \<Rightarrow> 'b \<Rightarrow> (string + 'r) \<times> 'b) \<Rightarrow> 'b \<Rightarrow> (string + 'r) \<times> 'b" where
  "with_text_or fld dflt req k b = (case json_get fld req of
     None \<Rightarrow> k dflt b
   | Some (JStr v) \<Rightarrow> k v b
   | Some _ \<Rightarrow> (Inl type_error, b))"

definition with_text :: "string \<Rightarrow> Json \<Rightarrow> (string \<Rightarrow> 'b \<Rightarrow> (string + 'r) \<times> 'b) \<Rightarrow> 'b \<Rightarrow> (string + 'r) \<times> 'b" where
  "with_text fld = with_text_or fld []"

text \<open>The conversion of a double to an unsigned integer drops the fraction; it is only defined inside the
  range of the type.\<close>

definition trunc_double :: "64 word \<Rightarrow> int" where
  "trunc_double w = (let n = unat w; e = n div 2 ^ 52 mod 2 ^ 11; m = n mod 2 ^ 52 + 2 ^ 52;
       v = (if e < 1023 then 0 else if e \<le> 1075 then m div 2 ^ (1075 - e) else m * 2 ^ (e - 1075))
     in if 2 ^ 63 \<le> n then - int v else int v)"

definition with_u64 :: "string \<Rightarrow> Json \<Rightarrow> (u64 \<Rightarrow> 'b \<Rightarrow> (string + 'r) \<times> 'b) \<Rightarrow> 'b \<Rightarrow> (string + 'r) \<times> 'b" where
  "with_u64 fld req k b = (case json_get fld req of
     None \<Rightarrow> k 0 b
   | Some (JInt i) \<Rightarrow> k (word_of_int i) b
   | Some (JFloat w) \<Rightarrow> k (word_of_int (trunc_double w)) b
   | Some (JBool v) \<Rightarrow> k (if v then 1 else 0) b
   | Some _ \<Rightarrow> (Inl type_error, b))"

text \<open>A sequence of assignments to the members of a fresh object.\<close>

definition obj :: "(string \<times> Json) list \<Rightarrow> Json" where
  "obj kvs = fold (\<lambda>(k, v). json_set k v) kvs (JObj [])"

definition corr_member :: "string \<Rightarrow> (string \<times> Json) list" where
  "corr_member corr = (if corr = [] then [] else [(''correlation_id'', JStr corr)])"

definition make_error :: "string \<Rightarrow> string \<Rightarrow> Json" where
  "make_error corr code = obj ([(''status'', JStr ''error''), (''error_code'', JStr code)] @ corr_member corr)"

section \<open>State\<close>

record PendingAttachEntry =
  router_identity :: string
  pa_correlation_id :: string
  consumer_pubkey :: string
  pa_consumer_role_uid :: string
  target_version :: u64
  enqueued_at :: int

text \<open>The nested hash maps of deques are association lists in iteration order. \<open>sent\<close> is what the router
  socket has been given, an identity, a message type and a body each.\<close>

type_synonym attach_queue = "(string \<times> (string \<times> PendingAttachEntry list) list) list"
type_synonym wire_message = "string \<times> string \<times> Json"

record Broker =
  hub :: HubState
  pending_attach_queue :: attach_queue
  sent :: "wire_message list"

definition queue_at :: "string \<Rightarrow> attach_queue \<Rightarrow> (string \<times> PendingAttachEntry list) list" where
  "queue_at ch q = (case map_of q ch of None \<Rightarrow> [] | Some ps \<Rightarrow> ps)"

definition deque_at :: "string \<Rightarrow> string \<Rightarrow> attach_queue \<Rightarrow> PendingAttachEntry list" where
  "deque_at ch puid q = (case map_of (queue_at ch q) puid of None \<Rightarrow> [] | Some es \<Rightarrow> es)"

text \<open>Storing a deque: an empty one is erased, and so is a channel without deques.\<close>

definition put_producers :: "string \<Rightarrow> (string \<times> PendingAttachEntry list) list \<Rightarrow> attach_queue \<Rightarrow> attach_queue" where
  "put_producers ch ps q = (if ps = [] then AList.delete ch q else AList.update ch ps q)"

definition put_deque :: "string \<Rightarrow> string \<Rightarrow> PendingAttachEntry list \<Rightarrow> attach_queue \<Rightarrow> attach_queue" where
  "put_deque ch puid es q = put_producers ch
     (if es = [] then AList.delete puid (queue_at ch q) else AList.update puid es (queue_at ch q)) q"

section \<open>Sending\<close>

text \<open>A message that cannot be built is logged and dropped: the identity has to be non-empty, and a
  correlation of 1 to 64 bytes is required unless the message is a notification. The type names of
  the broker are short and its bodies are objects.\<close>

definition correlation_of :: "Json \<Rightarrow> string" where
  "correlation_of body = (case json_get ''correlation_id'' body of Some (JStr c) \<Rightarrow> c | _ \<Rightarrow> [])"

definition send_to_identity :: "string \<Rightarrow> string \<Rightarrow> Json \<Rightarrow> Broker \<Rightarrow> Broker" where
  "send_to_identity ident msg_type body b =
     (case build_router_send (\<lambda>x. x) (\<lambda>j. []) ident msg_type (correlation_of body) body of
        Inl e \<Rightarrow> b
      | Inr _ \<Rightarrow> b\<lparr>sent := sent b @ [(ident, msg_type, body)]\<rparr>)"

definition send_all :: "string list \<Rightarrow> string \<Rightarrow> Json \<Rightarrow> Broker \<Rightarrow> Broker" where
  "send_all idents msg_type body b = fold (\<lambda>i. send_to_identity i msg_type body) idents b"

section \<open>Draining the queue\<close>

definition attach_reply :: "string \<Rightarrow> string \<Rightarrow> string \<Rightarrow> string \<Rightarrow> PendingAttachEntry \<Rightarrow> Json" where
  "attach_reply status reason ch puid e = obj ([(''status'', JStr status)]
     @ (if reason = [] then [] else [(''reason'', JStr reason)])
     @ [(''channel_name'', JStr ch), (''producer_role_uid'', JStr puid)] @ corr_member (pa_correlation_id e))"

definition send_attach_ack :: "string \<Rightarrow> string \<Rightarrow> string \<Rightarrow> string \<Rightarrow> PendingAttachEntry \<Rightarrow> Broker \<Rightarrow> Broker" where
  "send_attach_ack status reason ch puid e =
     send_to_identity (router_identity e) ''CONSUMER_ATTACH_ACK_ZMQ'' (attach_reply status reason ch puid e)"

text \<open>Pop from the front while the condition holds, answering each entry.\<close>

definition drain_front :: "(PendingAttachEntry \<Rightarrow> bool) \<Rightarrow> string \<Rightarrow> string \<Rightarrow> string \<Rightarrow> string \<Rightarrow> Broker \<Rightarrow> Broker" where
  "drain_front cond status reason ch puid b =
     (let es = deque_at ch puid (pending_attach_queue b);
          b1 = fold (send_attach_ack status reason ch puid) (takeWhile cond es) b
      in b1\<lparr>pending_attach_queue := put_deque ch puid (dropWhile cond es) (pending_attach_queue b1)\<rparr>)"

definition drain_pending_attach_queue_for_producer_confirmed :: "string \<Rightarrow> string \<Rightarrow> u64 \<Rightarrow> Broker \<Rightarrow> Broker" where
  "drain_pending_attach_queue_for_producer_confirmed ch puid new_confirmed =
     drain_front (\<lambda>e. target_version e \<le> new_confirmed) ''success'' [] ch puid"

definition drain_pending_attach_queue_for_producer_denied :: "string \<Rightarrow> string \<Rightarrow> string \<Rightarrow> Broker \<Rightarrow> Broker" where
  "drain_pending_attach_queue_for_producer_denied ch puid reason =
     drain_front (\<lambda>e. True) ''denied'' reason ch puid"

definition drain_pending_attach_queue_for_channel_denied :: "string \<Rightarrow> string \<Rightarrow> Broker \<Rightarrow> Broker" where
  "drain_pending_attach_queue_for_channel_denied ch reason b =
     fold (\<lambda>puid. drain_front (\<lambda>e. True) ''denied'' reason ch puid) (map fst (queue_at ch (pending_attach_queue b))) b"

definition sweep_pending_attach_timeouts :: "int \<Rightarrow> int \<Rightarrow> Broker \<Rightarrow> Broker" where
  "sweep_pending_attach_timeouts now budget b =
     fold (\<lambda>(ch, puid). drain_front (\<lambda>e. budget < now - enqueued_at e) ''timeout'' ''producer_did_not_confirm_within_budget'' ch puid)
       (concat (map (\<lambda>(ch, ps). map (\<lambda>p. (ch, fst p)) ps) (pending_attach_queue b))) b"

section \<open>Notifications\<close>

definition channel_version_of :: "string \<Rightarrow> HubState \<Rightarrow> u64" where
  "channel_version_of ch h = (case channel_access_index h ch of None \<Rightarrow> 0 | Some l \<Rightarrow> current_version l)"

definition auth_changed_body :: "string \<Rightarrow> u64 \<Rightarrow> string \<Rightarrow> string \<Rightarrow> string \<Rightarrow> Json" where
  "auth_changed_body ch vers uid rtype phase = obj [(''channel_name'', JStr ch),
     (''channel_version'', JInt (uint vers)), (''role_uid'', JStr uid), (''role_type'', JStr rtype), (''phase'', JStr phase)]"

definition fire_channel_auth_changed_notify :: "string \<Rightarrow> string \<Rightarrow> string \<Rightarrow> string \<Rightarrow> Broker \<Rightarrow> Broker" where
  "fire_channel_auth_changed_notify ch phase uid rtype b = (case channels (hub b) ch of
     None \<Rightarrow> b
   | Some c \<Rightarrow> send_all
       (filter (\<lambda>i. i \<noteq> []) (if topology c = FanIn then map c_zmq_identity (consumers c) else map p_zmq_identity (producers c)))
       ''CHANNEL_AUTH_CHANGED_NOTIFY'' (auth_changed_body ch (channel_version_of ch (hub b)) uid rtype phase) b)"

section \<open>Handlers\<close>

definition reader_is_binding_side :: "ChannelTopology \<Rightarrow> bool" where
  "reader_is_binding_side t \<longleftrightarrow> t = FanIn"

definition handle_get_channel_auth_req :: "(access_ledger \<Rightarrow> string list) \<Rightarrow> Json \<Rightarrow> Broker \<Rightarrow> (string + Json) \<times> Broker" where
  "handle_get_channel_auth_req admitted_keys req =
     with_text ''correlation_id'' req (\<lambda>corr. with_text ''channel_name'' req (\<lambda>ch. with_text ''role_uid'' req (\<lambda>caller b.
       (Inr (if ch = [] \<or> caller = [] then make_error corr ''INVALID_REQUEST''
        else case channels (hub b) ch of
          None \<Rightarrow> make_error corr ''CHANNEL_NOT_FOUND''
        | Some c \<Rightarrow>
            if \<not> (if reader_is_binding_side (topology c) then list_ex (\<lambda>e. c_role_uid e = caller) (consumers c)
                   else list_ex (\<lambda>e. p_role_uid e = caller) (producers c))
            then make_error corr ''PRODUCER_NOT_AUTHORIZED''
            else let l = (case channel_access_index (hub b) ch of None \<Rightarrow> empty_ledger | Some l \<Rightarrow> l)
              in obj ([(''status'', JStr ''success''), (''channel_name'', JStr ch)] @ corr_member corr
                   @ [(''allowlist'', JArr (map JStr (admitted_keys l))), (''snapshot_version'', JInt (uint (current_version l)))])), b))))"

definition handle_consumer_attach_req_shm :: "Json \<Rightarrow> Broker \<Rightarrow> (string + Json) \<times> Broker" where
  "handle_consumer_attach_req_shm req =
     with_text ''correlation_id'' req (\<lambda>corr. with_text ''channel_name'' req (\<lambda>ch. with_text ''consumer_pubkey'' req (\<lambda>pk.
     with_text ''consumer_role_uid'' req (\<lambda>cuid. with_text ''role_uid'' req (\<lambda>caller b.
       (Inr (if ch = [] \<or> pk = [] \<or> cuid = [] \<or> caller = [] then make_error corr ''INVALID_REQUEST''
        else case channels (hub b) ch of
          None \<Rightarrow> make_error corr ''CHANNEL_NOT_FOUND''
        | Some c \<Rightarrow>
            if \<not> list_ex (\<lambda>e. p_role_uid e = caller) (producers c) then make_error corr ''PRODUCER_NOT_AUTHORIZED''
            else case channel_access_index (hub b) ch of
              None \<Rightarrow> make_error corr ''INTERNAL_ERROR''
            | Some l \<Rightarrow> obj ([(''channel_name'', JStr ch), (''consumer_pubkey'', JStr pk)] @ corr_member corr
                @ (if admission_version_of pk l \<noteq> None then [(''status'', JStr ''success'')]
                   else [(''status'', JStr ''denied''), (''denial_reason'', JStr ''consumer_pubkey not in channel allowlist'')]))), b))))))"

definition attach_answer :: "string \<Rightarrow> string \<Rightarrow> string \<Rightarrow> string \<Rightarrow> string \<Rightarrow> Json" where
  "attach_answer status reason ch puid corr = obj ([(''status'', JStr status)]
     @ (if reason = [] then [] else [(''reason'', JStr reason)])
     @ [(''channel_name'', JStr ch), (''producer_role_uid'', JStr puid)] @ corr_member corr)"

text \<open>The wait path: enqueue with the version of this moment and ring the producer.\<close>

definition enqueue_attach :: "string \<Rightarrow> string \<Rightarrow> PendingAttachEntry \<Rightarrow> Broker \<Rightarrow> Broker" where
  "enqueue_attach ch puid e b = b\<lparr>pending_attach_queue :=
     put_deque ch puid (deque_at ch puid (pending_attach_queue b) @ [e]) (pending_attach_queue b)\<rparr>"

definition handle_consumer_attach_req_zmq :: "int \<Rightarrow> string \<Rightarrow> Json \<Rightarrow> Broker \<Rightarrow> (string + Json) \<times> Broker" where
  "handle_consumer_attach_req_zmq now ident req =
     with_text ''correlation_id'' req (\<lambda>corr. with_text ''channel_name'' req (\<lambda>ch. with_text ''consumer_role_uid'' req (\<lambda>cuid.
     with_text ''consumer_pubkey'' req (\<lambda>pk. with_text ''producer_role_uid'' req (\<lambda>puid b.
       if ch = [] \<or> pk = [] \<or> cuid = [] \<or> puid = [] then (Inr (make_error corr ''INVALID_REQUEST''), b)
       else case channel_access_index (hub b) ch of
         None \<Rightarrow> (Inr (attach_answer ''denied'' ''consumer_not_in_channel_allowlist'' ch puid corr), b)
       | Some l \<Rightarrow> (case channels (hub b) ch of
           None \<Rightarrow> (Inr (attach_answer ''denied'' ''producer_not_live'' ch puid corr), b)
         | Some c \<Rightarrow>
             if topology c \<noteq> FanIn \<and> admission_version_of pk l = None
             then (Inr (attach_answer ''denied'' ''consumer_not_in_channel_allowlist'' ch puid corr), b)
             else case List.find (\<lambda>e. p_role_uid e = puid) (producers c) of
               None \<Rightarrow> (Inr (attach_answer ''denied'' ''producer_not_live'' ch puid corr), b)
             | Some p \<Rightarrow>
                 let confirmed = (case confirmed_version_of puid l of None \<Rightarrow> 0 | Some v \<Rightarrow> v);
                     vers = current_version l
                 in if vers \<le> confirmed then (Inr (attach_answer ''success'' [] ch puid corr), b)
                    else let b1 = enqueue_attach ch puid \<lparr>router_identity = ident, pa_correlation_id = corr,
                               consumer_pubkey = pk, pa_consumer_role_uid = cuid, target_version = vers, enqueued_at = now\<rparr> b;
                             b2 = (if p_zmq_identity p = [] then b1
                                   else send_to_identity (p_zmq_identity p) ''CHANNEL_AUTH_CHANGED_NOTIFY''
                                     (auth_changed_body ch vers cuid ''consumer'' ''admitted'') b1)
                      in (Inr (attach_answer ''pending'' [] ch puid corr), b2)))))))"

definition confirm_role :: "string \<Rightarrow> string \<Rightarrow> u64 \<Rightarrow> Broker \<Rightarrow> u64 \<times> Broker" where
  "confirm_role ch uid applied b = (case on_role_confirmed ch uid applied (hub b) of (v, h) \<Rightarrow> (v, b\<lparr>hub := h\<rparr>))"

definition applied_answer :: "string \<Rightarrow> u64 \<Rightarrow> string \<Rightarrow> Json" where
  "applied_answer ch v corr = obj ([(''status'', JStr ''ok''), (''channel_name'', JStr ch),
     (''applied_version'', JInt (uint v))] @ corr_member corr)"

definition handle_channel_auth_applied_req :: "Json \<Rightarrow> Broker \<Rightarrow> (string + Json) \<times> Broker" where
  "handle_channel_auth_applied_req req =
     with_text ''correlation_id'' req (\<lambda>corr. with_text ''channel_name'' req (\<lambda>ch.
     with_text_or ''role_type'' ''producer'' req (\<lambda>rtype. with_text ''producer_role_uid'' req (\<lambda>legacy.
     with_text_or ''role_uid'' legacy req (\<lambda>uid. with_u64 ''instance_id'' req (\<lambda>inst. with_u64 ''applied_version'' req (\<lambda>applied b.
       if ch = [] \<or> uid = [] then (Inr (make_error corr ''INVALID_REQUEST''), b)
       else if channels (hub b) ch = None then (Inr (make_error corr ''CHANNEL_NOT_FOUND''), b)
       else if \<not> is_role_registered_on_channel ch uid rtype (hub b) then (Inr (make_error corr ''NOT_A_ROLE_OF_CHANNEL''), b)
       else if rtype = ''consumer'' then
         (case confirm_role ch uid applied b of (v, b1) \<Rightarrow> (Inr (applied_answer ch v corr), b1))
       else if rtype \<noteq> ''producer'' then (Inr (make_error corr ''INVALID_REQUEST''), b)
       else if inst \<noteq> producer_instance uid (hub b) then (Inr (make_error corr ''STALE_INSTANCE''), b)
       else (case confirm_role ch uid applied b of (v, b1) \<Rightarrow>
         (Inr (applied_answer ch v corr), drain_pending_attach_queue_for_producer_confirmed ch uid v b1)))))))))"

definition readiness_answer :: "string \<Rightarrow> string \<Rightarrow> string \<Rightarrow> string \<Rightarrow> Json" where
  "readiness_answer status reason ch corr = obj ([(''channel_name'', JStr ch)] @ corr_member corr @ [(''status'', JStr status)]
     @ (if reason = [] then [] else [(''reason'', JStr reason)]))"

definition handle_check_peer_ready_req :: "Json \<Rightarrow> Broker \<Rightarrow> (string + Json) \<times> Broker" where
  "handle_check_peer_ready_req req =
     with_text ''correlation_id'' req (\<lambda>corr. with_text ''channel_name'' req (\<lambda>ch. with_text ''role_uid'' req (\<lambda>uid.
     with_text ''pubkey_z85'' req (\<lambda>pk b.
       (Inr (if ch = [] \<or> uid = [] \<or> pk = [] then make_error corr ''INVALID_REQUEST''
        else case channels (hub b) ch of
          None \<Rightarrow> make_error corr ''CHANNEL_NOT_FOUND''
        | Some c \<Rightarrow>
            let consumer_binds = reader_is_binding_side (topology c);
                dials = (if consumer_binds then list_ex (\<lambda>e. p_role_uid e = uid) (producers c)
                         else list_ex (\<lambda>e. c_role_uid e = uid) (consumers c));
                binding = (if consumer_binds then (case consumers c of [] \<Rightarrow> [] | e # _ \<Rightarrow> c_role_uid e)
                           else (case producers c of [] \<Rightarrow> [] | e # _ \<Rightarrow> p_role_uid e))
            in if \<not> dials then make_error corr ''NOT_A_ROLE_OF_CHANNEL''
               else if binding = [] then readiness_answer ''not_ready'' ''not_confirmed'' ch corr
               else case is_pubkey_visible_to ch binding pk (hub b) of
                 None \<Rightarrow> readiness_answer ''not_ready''
                   (if channel_access_index (hub b) ch = None then ''not_admitted'' else ''not_confirmed'') ch corr
               | Some True \<Rightarrow> readiness_answer ''ready'' [] ch corr
               | Some False \<Rightarrow> readiness_answer ''not_ready''
                   (case channel_access_index (hub b) ch of
                      None \<Rightarrow> ''not_admitted''
                    | Some l \<Rightarrow> if admission_version_of pk l \<noteq> None then ''not_confirmed'' else ''not_admitted'') ch corr), b)))))"

end
