(* ===== verification/Broker_Liveness.thy ===== *)
theory Broker_Liveness
  imports Broker_Attach
begin

text \<open>
  Departure and liveness in the broker (\<open>utils/ipc/broker_service.cpp\<close>): deregistration, heartbeats, the sweep
  that demotes and reclaims silent roles, and the close that an operator requests. The notifications of
  band members at the end of a role are not modelled.
\<close>

section \<open>Departures\<close>

definition upd_hub :: "(HubState \<Rightarrow> HubState) \<Rightarrow> Broker \<Rightarrow> Broker" where
  "upd_hub f b = b\<lparr>hub := f (hub b)\<rparr>"

definition send_closing_notify :: "string \<Rightarrow> ChannelEntry \<Rightarrow> string \<Rightarrow> Broker \<Rightarrow> Broker" where
  "send_closing_notify ch c reason =
     send_all (filter (\<lambda>i. i \<noteq> []) (map c_zmq_identity (consumers c) @ map p_zmq_identity (producers c)))
       ''CHANNEL_CLOSING_NOTIFY'' (obj [(''channel_name'', JStr ch), (''reason'', JStr reason)])"

text \<open>What follows the removal of a producer, by deregistration or by the sweep.\<close>

definition after_producer_drop :: "string \<Rightarrow> string \<Rightarrow> ChannelEntry \<Rightarrow> bool \<Rightarrow> string \<Rightarrow> Broker \<Rightarrow> Broker" where
  "after_producer_drop ch uid pre_drop now_empty reason b =
     (if now_empty
      then drain_pending_attach_queue_for_channel_denied ch ''channel_closing''
             (upd_hub (on_channel_access_closed ch) (send_closing_notify ch pre_drop reason b))
      else drain_pending_attach_queue_for_producer_denied ch uid ''producer_not_live'' b)"

definition handle_dereg_req :: "instant \<Rightarrow> Json \<Rightarrow> Broker \<Rightarrow> (string + Json) \<times> Broker" where
  "handle_dereg_req t req =
     with_text ''correlation_id'' req (\<lambda>corr. with_text ''channel_name'' req (\<lambda>ch b.
       if ch = [] then (Inr (make_error corr ''INVALID_REQUEST''), b)
       else with_u64 ''producer_pid'' req (\<lambda>pid. with_text ''role_uid'' req (\<lambda>uid b.
         case channels (hub b) ch of
           None \<Rightarrow> (Inr (make_error corr ''NOT_REGISTERED''), b)
         | Some c \<Rightarrow>
             if \<not> list_ex (\<lambda>p. producer_pid p = pid \<and> p_role_uid p = uid) (producers c) \<or> uid = []
             then (Inr (make_error corr ''NOT_REGISTERED''), b)
             else (case on_producer_dropped ch uid VoluntaryDereg t (hub b) of (dr, h) \<Rightarrow>
               let b1 = b\<lparr>hub := h\<rparr>
               in if \<not> removed dr then (Inr (make_error corr ''NOT_REGISTERED''), b1)
                  else (Inr (obj ([(''status'', JStr ''success''), (''message'', JStr ''Producer deregistered successfully'')]
                          @ corr_member corr)),
                        after_producer_drop ch uid c (channel_now_empty dr) ''producer_deregistered'' b1)))) b))"

text \<open>The consumer's key leaves the allowlist and the binding side is told.\<close>

definition after_consumer_drop :: "string \<Rightarrow> ConsumerEntry \<Rightarrow> Broker \<Rightarrow> Broker" where
  "after_consumer_drop ch e b = (if length (c_zmq_pubkey e) \<noteq> 40 then b
     else fire_channel_auth_changed_notify ch ''left'' (c_role_uid e) ''consumer''
            (upd_hub (on_consumer_revoked ch (c_zmq_pubkey e)) b))"

definition handle_consumer_dereg_req :: "instant \<Rightarrow> Json \<Rightarrow> Broker \<Rightarrow> (string + Json) \<times> Broker" where
  "handle_consumer_dereg_req t req =
     with_text ''correlation_id'' req (\<lambda>corr. with_text ''channel_name'' req (\<lambda>ch b.
       if ch = [] then (Inr (make_error corr ''INVALID_REQUEST''), b)
       else with_u64 ''consumer_pid'' req (\<lambda>pid. with_text ''role_uid'' req (\<lambda>uid b.
         case Option.bind (channels (hub b) ch) (\<lambda>c. List.find (\<lambda>e. consumer_pid e = pid \<and> c_role_uid e = uid) (consumers c)) of
           None \<Rightarrow> (Inr (make_error corr ''NOT_REGISTERED''), b)
         | Some e \<Rightarrow> (Inr (obj ([(''status'', JStr ''success''), (''message'', JStr ''Consumer deregistered successfully'')]
               @ corr_member corr)),
             after_consumer_drop ch e (upd_hub (on_consumer_left ch (c_role_uid e) t) b)))) b))"

text \<open>A close requested by a script or an operator.\<close>

definition close_channel :: "string \<Rightarrow> string \<Rightarrow> instant \<Rightarrow> Broker \<Rightarrow> Broker" where
  "close_channel ch origin_uid t b = (case channels (hub b) ch of
     None \<Rightarrow> b
   | Some c \<Rightarrow> drain_pending_attach_queue_for_channel_denied ch ''channel_closing''
       (upd_hub (on_channel_access_closed ch) (upd_hub (on_channel_closed ch AdminClose t)
         (send_closing_notify ch c (if origin_uid = [] then ''script_requested'' else ''admin_requested'') b))))"

section \<open>Heartbeats\<close>

definition heartbeat_tag_ok :: "string \<Rightarrow> string \<Rightarrow> bool" where
  "heartbeat_tag_ok rtype uid = (let t = (case extract_short_tag uid of None \<Rightarrow> ''?'' | Some t \<Rightarrow> t) in
     if rtype = ''producer'' then t = ''prod'' \<or> t = ''proc''
     else if rtype = ''consumer'' then t = ''cons'' \<or> t = ''proc'' else False)"

definition metrics_of :: "Json \<Rightarrow> Json option" where
  "metrics_of req = (case json_get ''metrics'' req of Some m \<Rightarrow> if is_object m then Some m else None | None \<Rightarrow> None)"

text \<open>\<open>store\<close> turns a JSON object into the representation of the presence rows. The read of \<open>producer_pid\<close> only
  feeds a log line but throws on a wrong type.\<close>

definition handle_heartbeat_req :: "(Json \<Rightarrow> json) \<Rightarrow> instant \<Rightarrow> Json \<Rightarrow> Broker \<Rightarrow> (string + unit) \<times> Broker" where
  "handle_heartbeat_req store t req =
     with_text ''channel_name'' req (\<lambda>ch b.
       if \<not> is_valid_identifier ch Channel then (Inr (), b)
       else if channels (hub b) ch = None then (Inr (), b)
       else with_text ''role_uid'' req (\<lambda>uid. with_text ''role_type'' req (\<lambda>rtype b.
         if uid = [] \<or> rtype = [] then (Inr (), b)
         else if \<not> is_valid_identifier uid RoleUid then (Inr (), b)
         else if \<not> heartbeat_tag_ok rtype uid then (Inr (), b)
         else with_u64 ''producer_pid'' req (\<lambda>pid b.
           case hub_on_heartbeat ch uid rtype (steady t) (map_option store (metrics_of req)) t (hub b) of (eff, h) \<Rightarrow>
             let b1 = b\<lparr>hub := h\<rparr>
             in if presence_found eff \<and> \<not> was_first_heartbeat_seen eff
                then (case channels h ch of
                    None \<Rightarrow> (Inr (), b1)
                  | Some c \<Rightarrow> (Inr (), if topology c = FanIn \<and> rtype = ''producer'' \<or> topology c \<noteq> FanIn \<and> rtype = ''consumer''
                      then fire_channel_auth_changed_notify ch ''live'' uid rtype b1 else b1))
                else (Inr (), b1)) b)) b)"

section \<open>The sweep\<close>

record BrokerConfig =
  heartbeat_interval :: int
  ready_miss_heartbeats :: nat
  pending_miss_heartbeats :: nat
  ready_timeout_override :: "int option"
  pending_timeout_override :: "int option"
  producer_apply_wait :: int

definition effective_ready_timeout :: "BrokerConfig \<Rightarrow> int" where
  "effective_ready_timeout cfg = (let v = (case ready_timeout_override cfg of
       None \<Rightarrow> heartbeat_interval cfg * int (ready_miss_heartbeats cfg) | Some v \<Rightarrow> v)
     in if v < heartbeat_interval cfg then heartbeat_interval cfg else v)"

definition effective_pending_timeout :: "BrokerConfig \<Rightarrow> int" where
  "effective_pending_timeout cfg = (let v = (case pending_timeout_override cfg of
       None \<Rightarrow> heartbeat_interval cfg * int (pending_miss_heartbeats cfg) | Some v \<Rightarrow> v)
     in if v < heartbeat_interval cfg then heartbeat_interval cfg else v)"

definition effective_producer_apply_wait :: "BrokerConfig \<Rightarrow> int" where
  "effective_producer_apply_wait cfg =
     (if producer_apply_wait cfg < heartbeat_interval cfg then heartbeat_interval cfg else producer_apply_wait cfg)"

definition resolve_presence :: "string \<Rightarrow> string \<Rightarrow> string \<Rightarrow> HubState \<Rightarrow> RolePresence option" where
  "resolve_presence ch rtype uid h = Option.bind (roles h uid) (find_presence ch rtype)"

text \<open>The uids of the producers, and the entries of the consumers, whose row satisfies the condition. Names of
  channels are those under which the snapshot stores them.\<close>

definition matches :: "(RolePresence \<Rightarrow> bool) \<Rightarrow> string \<Rightarrow> string \<Rightarrow> HubState \<Rightarrow> string \<Rightarrow> bool" where
  "matches P ch rtype h uid \<longleftrightarrow> (case resolve_presence ch rtype uid h of None \<Rightarrow> False | Some p \<Rightarrow> P p)"

definition producers_matching :: "(RolePresence \<Rightarrow> bool) \<Rightarrow> ChannelEntry \<Rightarrow> HubState \<Rightarrow> string list" where
  "producers_matching P c h = filter (matches P (ch_name c) ''producer'' h) (map p_role_uid (producers c))"

definition consumers_matching :: "(RolePresence \<Rightarrow> bool) \<Rightarrow> ChannelEntry \<Rightarrow> HubState \<Rightarrow> ConsumerEntry list" where
  "consumers_matching P c h = filter (\<lambda>e. matches P (ch_name c) ''consumer'' h (c_role_uid e)) (consumers c)"

definition ready_expired :: "int \<Rightarrow> int \<Rightarrow> RolePresence \<Rightarrow> bool" where
  "ready_expired now timeout p \<longleftrightarrow> pr_state p = Connected \<and> timeout \<le> now - last_heartbeat p"

definition pending_expired :: "int \<Rightarrow> int \<Rightarrow> RolePresence \<Rightarrow> bool" where
  "pending_expired now timeout p \<longleftrightarrow> pr_state p = Pending \<and> timeout \<le> now - state_since p"

definition sweep_pass1 :: "int \<Rightarrow> instant \<Rightarrow> string list \<Rightarrow> HubState \<Rightarrow> HubState" where
  "sweep_pass1 timeout t order snap =
     fold (\<lambda>(ch, uid, rtype). hub_on_heartbeat_timeout ch uid rtype t)
       (concat (map (\<lambda>ch. case channels snap ch of
          None \<Rightarrow> []
        | Some c \<Rightarrow> map (\<lambda>u. (ch_name c, u, ''producer'')) (producers_matching (ready_expired (steady t) timeout) c snap)
            @ map (\<lambda>e. (ch_name c, c_role_uid e, ''consumer'')) (consumers_matching (ready_expired (steady t) timeout) c snap)) order))
       snap"

text \<open>Producers of one channel: the last one takes the channel with it and ends the loop.\<close>

fun reclaim_producers :: "instant \<Rightarrow> ChannelEntry \<Rightarrow> string list \<Rightarrow> Broker \<Rightarrow> bool \<times> Broker" where
  "reclaim_producers t c [] b = (False, b)"
| "reclaim_producers t c (u # us) b = (case hub_on_pending_timeout (ch_name c) u ''producer'' t (hub b) of (dr, h) \<Rightarrow>
     let b1 = b\<lparr>hub := h\<rparr>
     in if removed dr \<and> channel_now_empty dr
        then (True, after_producer_drop (ch_name c) u c True ''pending_timeout'' b1)
        else reclaim_producers t c us
          (if removed dr then after_producer_drop (ch_name c) u c False ''pending_timeout'' b1 else b1))"

definition consumer_died_body :: "string \<Rightarrow> ConsumerEntry \<Rightarrow> Json" where
  "consumer_died_body ch e = obj [(''channel_name'', JStr ch), (''role_uid'', JStr (c_role_uid e)),
     (''consumer_pid'', JInt (uint (consumer_pid e))), (''consumer_hostname'', JStr (consumer_hostname e)),
     (''reason'', JStr ''heartbeat_timeout'')]"

definition reclaim_consumer :: "instant \<Rightarrow> ChannelEntry \<Rightarrow> ConsumerEntry \<Rightarrow> Broker \<Rightarrow> Broker" where
  "reclaim_consumer t c e b = (case hub_on_pending_timeout (ch_name c) (c_role_uid e) ''consumer'' t (hub b) of (dr, h) \<Rightarrow>
     let b1 = b\<lparr>hub := h\<rparr>
     in if \<not> removed dr then b1
        else after_consumer_drop (ch_name c) e
          (send_all (filter (\<lambda>i. i \<noteq> []) (map p_zmq_identity (producers c))) ''CONSUMER_DIED_NOTIFY''
            (consumer_died_body (ch_name c) e) b1))"

definition reclaim_channel :: "int \<Rightarrow> instant \<Rightarrow> HubState \<Rightarrow> string \<Rightarrow> Broker \<Rightarrow> Broker" where
  "reclaim_channel timeout t snap ch b = (case channels snap ch of
     None \<Rightarrow> b
   | Some c \<Rightarrow> (case reclaim_producers t c (producers_matching (pending_expired (steady t) timeout) c snap) b of
       (torn_down, b1) \<Rightarrow> if torn_down then b1
         else fold (reclaim_consumer t c) (consumers_matching (pending_expired (steady t) timeout) c snap) b1))"

text \<open>\<open>order1\<close> and \<open>order2\<close> are the iteration orders of the channels of the two snapshots.\<close>

definition check_heartbeat_timeouts :: "BrokerConfig \<Rightarrow> instant \<Rightarrow> string list \<Rightarrow> string list \<Rightarrow> Broker \<Rightarrow> Broker" where
  "check_heartbeat_timeouts cfg t order1 order2 b =
     (let b1 = sweep_pending_attach_timeouts (steady t) (effective_producer_apply_wait cfg) b;
          b2 = upd_hub (sweep_pass1 (effective_ready_timeout cfg) t order1) b1;
          snap2 = hub b2
      in fold (reclaim_channel (effective_pending_timeout cfg) t snap2) order2 b2)"

end
