(* ===== verification/Hub_Invariant.thy ===== *)
theory Hub_Invariant
  imports Hub_State
begin

text \<open>
  The invariant of the hub state and its preservation by every operation the broker calls. Its core
  is one equation between sets: the presence rows of the roles are exactly the named entries of the
  channels. Each helper of the operations changes the two sides in a way a single lemma describes,
  so that the proof of an operation is set algebra.
\<close>

section \<open>Keys of rows\<close>

definition row_key :: "RolePresence \<Rightarrow> string \<times> string" where
  "row_key p = (pr_channel p, pr_role_type p)"

abbreviation row_keys :: "RoleEntry \<Rightarrow> (string \<times> string) list" where
  "row_keys r \<equiv> map row_key (presences r)"

lemma is_presence_key: "is_presence ch rt = (\<lambda>p. row_key p = (ch, rt))"
  by (simp add: row_key_def fun_eq_iff)

lemma map_remove_first: "map key (remove_first (\<lambda>x. key x = k) xs) = remove1 k (map key xs)"
  by (induction xs) auto

lemma set_remove_first: "set (remove_first P xs) \<subseteq> set xs"
  by (induction xs) auto

lemma map_update_first: "(\<And>x. key (f x) = key x) \<Longrightarrow> map key (update_first P f xs) = map key xs"
  by (induction xs) auto

lemma set_update_first: "set (update_first P f xs) \<subseteq> set xs \<union> f ` set xs"
  by (induction xs) auto

lemma find_None_key: "List.find (\<lambda>x. key x = k) xs = None \<longleftrightarrow> k \<notin> set (map key xs)"
  by (auto simp: find_None_iff)

lemma find_presence_None: "find_presence ch rt r = None \<longleftrightarrow> (ch, rt) \<notin> set (row_keys r)"
  unfolding find_presence_def is_presence_key by (rule find_None_key)

lemma find_producer_None: "find_producer u c = None \<longleftrightarrow> u \<notin> set (map p_role_uid (producers c))"
  unfolding find_producer_def by (rule find_None_key)

lemma find_consumer_None: "find_consumer u c = None \<longleftrightarrow> u \<notin> set (map c_role_uid (consumers c))"
  unfolding find_consumer_def by (rule find_None_key)

section \<open>The invariant\<close>

definition named :: "string list \<Rightarrow> string list" where
  "named = filter (\<lambda>u. u \<noteq> [])"

abbreviation puids :: "ChannelEntry \<Rightarrow> string list" where
  "puids c \<equiv> named (map p_role_uid (producers c))"

abbreviation cuids :: "ChannelEntry \<Rightarrow> string list" where
  "cuids c \<equiv> named (map c_role_uid (consumers c))"

fun cardinality_ok :: "ChannelTopology \<Rightarrow> nat \<Rightarrow> nat \<Rightarrow> bool" where
  "cardinality_ok FanIn np nc \<longleftrightarrow> nc \<le> 1"
| "cardinality_ok FanOut np nc \<longleftrightarrow> np \<le> 1"
| "cardinality_ok OneToOne np nc \<longleftrightarrow> np \<le> 1 \<and> nc \<le> 1"

definition channel_wf :: "string \<Rightarrow> ChannelEntry \<Rightarrow> bool" where
  "channel_wf k c \<longleftrightarrow> ch_name c = k \<and> is_valid_identifier k Channel
     \<and> transport_compatible (topology c) (data_transport c)
     \<and> cardinality_ok (topology c) (length (producers c)) (length (consumers c))
     \<and> distinct (puids c) \<and> distinct (cuids c)
     \<and> (\<forall>u\<in>set (puids c) \<union> set (cuids c). is_valid_identifier u RoleUid)"

definition channels_wf :: "(string \<rightharpoonup> ChannelEntry) \<Rightarrow> bool" where
  "channels_wf C \<longleftrightarrow> (\<forall>k c. C k = Some c \<longrightarrow> channel_wf k c)"

text \<open>A role entry; \<open>K\<close> holds channels the cache may still list after their last row is gone.\<close>

definition role_wf :: "string set \<Rightarrow> string \<Rightarrow> RoleEntry \<Rightarrow> bool" where
  "role_wf K u r \<longleftrightarrow> role_uid r = u
     \<and> (\<exists>p. parse_role_uid u = Some p \<and> role_name r = tu_name p \<and> short_tag r = tag p)
     \<and> distinct (row_keys r)
     \<and> (\<forall>p\<in>set (presences r). pr_role_type p \<in> {''producer'', ''consumer''} \<and> pr_state p \<noteq> Disconnected)
     \<and> distinct (role_channels r)
     \<and> pr_channel ` set (presences r) \<subseteq> set (role_channels r)
     \<and> set (role_channels r) \<subseteq> pr_channel ` set (presences r) \<union> K"

text \<open>All role entries; only the roles \<open>U\<close> may list channel \<open>k\<close> too long.\<close>

definition roles_slack :: "string \<Rightarrow> string set \<Rightarrow> (string \<rightharpoonup> RoleEntry) \<Rightarrow> bool" where
  "roles_slack k U R \<longleftrightarrow> (\<forall>u r. R u = Some r \<longrightarrow> role_wf (if u \<in> U then {k} else {}) u r)"

abbreviation roles_wf :: "(string \<rightharpoonup> RoleEntry) \<Rightarrow> bool" where
  "roles_wf \<equiv> roles_slack [] {}"

text \<open>The rows of the roles and the named entries of the channels.\<close>

definition rows :: "(string \<rightharpoonup> RoleEntry) \<Rightarrow> (string \<times> string \<times> string) set" where
  "rows R = {(k, rt, u). \<exists>r. R u = Some r \<and> (k, rt) \<in> set (row_keys r)}"

definition entries_of :: "string \<Rightarrow> ChannelEntry \<Rightarrow> (string \<times> string \<times> string) set" where
  "entries_of k c = {(k, ''producer'', u) | u. u \<in> set (puids c)} \<union> {(k, ''consumer'', u) | u. u \<in> set (cuids c)}"

definition entries :: "(string \<rightharpoonup> ChannelEntry) \<Rightarrow> (string \<times> string \<times> string) set" where
  "entries C = (\<Union>k. case C k of None \<Rightarrow> {} | Some c \<Rightarrow> entries_of k c)"

definition bands_wf :: "(string \<times> BandEntry) list \<Rightarrow> string set \<Rightarrow> bool" where
  "bands_wf bs U \<longleftrightarrow> distinct (map fst bs) \<and> (\<forall>(k, b)\<in>set bs. band_name b = k \<and> is_valid_identifier k Band
     \<and> members b \<noteq> [] \<and> distinct (map bm_role_uid (members b))
     \<and> (\<forall>m\<in>set (members b). bm_role_uid m \<noteq> [] \<longrightarrow> bm_role_uid m \<in> U))"

definition shm_wf :: "(string \<rightharpoonup> ChannelEntry) \<Rightarrow> (string \<rightharpoonup> ShmBlockRef) \<Rightarrow> bool" where
  "shm_wf C B \<longleftrightarrow> (\<forall>k. B k = (case C k of None \<Rightarrow> None
     | Some c \<Rightarrow> if data_transport c = ''shm'' then Some \<lparr>sb_channel_name = k, block_path = k\<rparr> else None))"

definition schema_wf :: "string \<times> string \<Rightarrow> SchemaRecord \<Rightarrow> bool" where
  "schema_wf k r \<longleftrightarrow> k = (sr_owner_uid r, sr_schema_id r) \<and> sr_owner_uid r \<noteq> [] \<and> sr_schema_id r \<noteq> []
     \<and> (has_datablock r \<or> has_flexzone r) \<and> (has_datablock r \<longrightarrow> packing r \<noteq> [])
     \<and> (has_flexzone r \<longrightarrow> flexzone_packing r \<noteq> [])"

definition schemas_wf :: "((string \<times> string) \<times> SchemaRecord) list \<Rightarrow> bool" where
  "schemas_wf ss \<longleftrightarrow> distinct (map fst ss) \<and> (\<forall>(k, r)\<in>set ss. schema_wf k r)"

definition hub_inv :: "HubState \<Rightarrow> bool" where
  "hub_inv s \<longleftrightarrow> channels_wf (channels s) \<and> roles_wf (roles s) \<and> rows (roles s) = entries (channels s)
     \<and> bands_wf (bands s) (dom (roles s)) \<and> shm_wf (channels s) (shm_blocks s) \<and> schemas_wf (schemas s)"

lemma hub_invI:
  "\<lbrakk> channels_wf (channels s); roles_wf (roles s); rows (roles s) = entries (channels s);
     bands_wf (bands s) (dom (roles s)); shm_wf (channels s) (shm_blocks s); schemas_wf (schemas s) \<rbrakk> \<Longrightarrow> hub_inv s"
  by (simp add: hub_inv_def)

lemma hub_invD:
  assumes "hub_inv s"
  shows "channels_wf (channels s)" "roles_wf (roles s)" "rows (roles s) = entries (channels s)"
    "bands_wf (bands s) (dom (roles s))" "shm_wf (channels s) (shm_blocks s)" "schemas_wf (schemas s)"
  using assms by (simp_all add: hub_inv_def)

text \<open>Two states with the same maps.\<close>

lemma hub_inv_cong:
  assumes "channels s' = channels s" and "roles s' = roles s" and "bands s' = bands s"
    and "shm_blocks s' = shm_blocks s" and "schemas s' = schemas s"
  shows "hub_inv s' \<longleftrightarrow> hub_inv s"
  using assms by (simp add: hub_inv_def)

section \<open>Frame rules\<close>

lemma fire_frame [simp]:
  "channels (fire es s) = channels s" "roles (fire es s) = roles s" "bands (fire es s) = bands s"
  "shm_blocks (fire es s) = shm_blocks s" "schemas (fire es s) = schemas s"
  "channel_access_index (fire es s) = channel_access_index s"
  by (simp_all add: fire_def)

lemma upd_counters_frame [simp]:
  "channels (upd_counters f s) = channels s" "roles (upd_counters f s) = roles s" "bands (upd_counters f s) = bands s"
  "shm_blocks (upd_counters f s) = shm_blocks s" "schemas (upd_counters f s) = schemas s"
  "channel_access_index (upd_counters f s) = channel_access_index s"
  by (simp_all add: upd_counters_def)

lemma bump_frame [simp]:
  "channels (bump_counter k n s) = channels s" "roles (bump_counter k n s) = roles s" "bands (bump_counter k n s) = bands s"
  "shm_blocks (bump_counter k n s) = shm_blocks s" "schemas (bump_counter k n s) = schemas s"
  "channel_access_index (bump_counter k n s) = channel_access_index s"
  by (simp_all add: bump_counter_def)

lemma upd_channel_frame [simp]:
  "channels (upd_channel k c s) = (channels s)(k \<mapsto> c)" "roles (upd_channel k c s) = roles s"
  "bands (upd_channel k c s) = bands s" "shm_blocks (upd_channel k c s) = shm_blocks s"
  "schemas (upd_channel k c s) = schemas s" "channel_access_index (upd_channel k c s) = channel_access_index s"
  by (simp_all add: upd_channel_def)

lemma upd_role_frame [simp]:
  "channels (upd_role u r s) = channels s" "roles (upd_role u r s) = (roles s)(u \<mapsto> r)"
  "bands (upd_role u r s) = bands s" "shm_blocks (upd_role u r s) = shm_blocks s"
  "schemas (upd_role u r s) = schemas s" "channel_access_index (upd_role u r s) = channel_access_index s"
  by (simp_all add: upd_role_def)

lemma reset_confirmation_frame [simp]:
  "channels (reset_confirmation k u s) = channels s" "roles (reset_confirmation k u s) = roles s"
  "bands (reset_confirmation k u s) = bands s" "shm_blocks (reset_confirmation k u s) = shm_blocks s"
  "schemas (reset_confirmation k u s) = schemas s"
  by (simp_all add: reset_confirmation_def split: option.split)

lemma bump_instance_frame [simp]:
  "channels (bump_instance u s) = channels s" "roles (bump_instance u s) = roles s"
  "bands (bump_instance u s) = bands s" "shm_blocks (bump_instance u s) = shm_blocks s"
  "schemas (bump_instance u s) = schemas s"
  by (simp_all add: bump_instance_def)

lemma register_role_frame [simp]:
  "channels (register_role u pk k rt t s) = channels s" "bands (register_role u pk k rt t s) = bands s"
  "shm_blocks (register_role u pk k rt t s) = shm_blocks s" "schemas (register_role u pk k rt t s) = schemas s"
  by (simp_all add: register_role_def upsert_role_locked_def Let_def split: option.split)

lemma end_presence_frame [simp]:
  "channels (end_presence k rt u s) = channels s" "bands (end_presence k rt u s) = bands s"
  "shm_blocks (end_presence k rt u s) = shm_blocks s" "schemas (end_presence k rt u s) = schemas s"
  by (simp_all add: end_presence_def split: option.split)

lemma fold_end_presence_frame [simp]:
  "channels (fold (end_presence k rt) us s) = channels s" "bands (fold (end_presence k rt) us s) = bands s"
  "shm_blocks (fold (end_presence k rt) us s) = shm_blocks s" "schemas (fold (end_presence k rt) us s) = schemas s"
  by (induction us arbitrary: s) simp_all

lemma set_channel_closed_frame [simp]:
  "channels (set_channel_closed k s) = (channels s)(k := None)" "roles (set_channel_closed k s) = roles s"
  "bands (set_channel_closed k s) = bands s" "shm_blocks (set_channel_closed k s) = shm_blocks s"
  "schemas (set_channel_closed k s) = schemas s"
  by (auto simp: set_channel_closed_def)

lemma bump_invalid_identifier_inv [simp]: "hub_inv (bump_invalid_identifier s) \<longleftrightarrow> hub_inv s"
  by (rule hub_inv_cong) (simp_all add: bump_invalid_identifier_def)

lemma fire_inv [simp]: "hub_inv (fire es s) \<longleftrightarrow> hub_inv s"
  by (rule hub_inv_cong) simp_all

lemma upd_counters_inv [simp]: "hub_inv (upd_counters f s) \<longleftrightarrow> hub_inv s"
  by (rule hub_inv_cong) simp_all

lemma reset_confirmation_inv [simp]: "hub_inv (reset_confirmation k u s) \<longleftrightarrow> hub_inv s"
  by (rule hub_inv_cong) simp_all

section \<open>Rows and entries under updates\<close>

lemma rows_upd:
  "rows (R(u \<mapsto> r)) = {x \<in> rows R. snd (snd x) \<noteq> u} \<union> {(k, rt, u) | k rt. (k, rt) \<in> set (row_keys r)}"
  by (auto simp: rows_def)

lemma rows_erase: "rows (R(u := None)) = {x \<in> rows R. snd (snd x) \<noteq> u}"
  by (auto simp: rows_def)

lemma rows_at: "R u = Some r \<Longrightarrow> {x \<in> rows R. snd (snd x) = u} = {(k, rt, u) | k rt. (k, rt) \<in> set (row_keys r)}"
  by (auto simp: rows_def)

text \<open>A role update that keeps the row keys keeps the rows.\<close>

lemma rows_upd_same:
  assumes "R u = Some r" and "row_keys r' = row_keys r"
  shows "rows (R(u \<mapsto> r')) = rows R"
  unfolding rows_upd assms(2) rows_at [of R u r, OF assms(1), symmetric] by blast

lemma entries_iff: "(k, x) \<in> entries C \<longleftrightarrow> (\<exists>c. C k = Some c \<and> (k, x) \<in> entries_of k c)"
proof -
  have "k' = k" if "(k, x) \<in> entries_of k' c" for k' c
    using that by (auto simp: entries_of_def)
  then show ?thesis
    by (auto simp: entries_def split: option.splits)
qed

lemma entries_of_channel: "(k', x) \<in> entries_of k c \<Longrightarrow> k' = k"
  by (auto simp: entries_of_def)

lemma entries_upd: "entries (C(k \<mapsto> c)) = {x \<in> entries C. fst x \<noteq> k} \<union> entries_of k c"
proof (rule set_eqI)
  show "x \<in> entries (C(k \<mapsto> c)) \<longleftrightarrow> x \<in> {x \<in> entries C. fst x \<noteq> k} \<union> entries_of k c" for x
    by (cases x) (auto simp: entries_iff dest: entries_of_channel)
qed

lemma entries_erase: "entries (C(k := None)) = {x \<in> entries C. fst x \<noteq> k}"
proof (rule set_eqI)
  show "x \<in> entries (C(k := None)) \<longleftrightarrow> x \<in> {x \<in> entries C. fst x \<noteq> k}" for x
    by (cases x) (auto simp: entries_iff)
qed

lemma entries_at: "C k = Some c \<Longrightarrow> {x \<in> entries C. fst x = k} = entries_of k c"
proof (rule set_eqI)
  show "x \<in> {x \<in> entries C. fst x = k} \<longleftrightarrow> x \<in> entries_of k c" if "C k = Some c" for x
    using that entries_of_channel [of "fst x" "snd x" k c] by (cases x) (auto simp: entries_iff)
qed

lemma entries_at_None: "C k = None \<Longrightarrow> {x \<in> entries C. fst x = k} = {}"
  by (auto simp: entries_iff)

lemma entries_upd_same:
  assumes "C k = Some c" and "entries_of k c' = entries_of k c"
  shows "entries (C(k \<mapsto> c')) = entries C"
  unfolding entries_upd assms(2) entries_at [of C k c, OF assms(1), symmetric] by blast

lemma channels_wf_upd: "channels_wf C \<Longrightarrow> channel_wf k c \<Longrightarrow> channels_wf (C(k \<mapsto> c))"
  by (auto simp: channels_wf_def)

lemma channels_wf_erase: "channels_wf C \<Longrightarrow> channels_wf (C(k := None))"
  by (auto simp: channels_wf_def)

lemma roles_slackD: "roles_slack k U R \<Longrightarrow> R u = Some r \<Longrightarrow> role_wf (if u \<in> U then {k} else {}) u r"
  by (simp add: roles_slack_def)

lemma roles_slack_upd:
  assumes "roles_slack k U R" and "role_wf {} u r"
  shows "roles_slack k (U - {u}) (R(u \<mapsto> r))"
  unfolding roles_slack_def
proof (intro allI impI)
  show "role_wf (if u' \<in> U - {u} then {k} else {}) u' r'" if "(R(u \<mapsto> r)) u' = Some r'" for u' r'
    using that assms(2) roles_slackD [OF assms(1), of u' r'] by (cases "u' = u") auto
qed

lemma roles_wf_upd: "roles_wf R \<Longrightarrow> role_wf {} u r \<Longrightarrow> roles_wf (R(u \<mapsto> r))"
  using roles_slack_upd [of "[]" "{}" R u r] by simp

lemma roles_slack_empty: "roles_slack k {} R \<Longrightarrow> roles_slack k' {} R"
  by (simp add: roles_slack_def)

lemma shm_wf_upd:
  assumes "shm_wf C B" and "C k = Some c" and "data_transport c' = data_transport c"
  shows "shm_wf (C(k \<mapsto> c')) B"
  using assms by (auto simp: shm_wf_def)

lemma bands_wf_mono: "bands_wf bs U \<Longrightarrow> U \<subseteq> V \<Longrightarrow> bands_wf bs V"
  by (fastforce simp: bands_wf_def)

section \<open>The end of a presence\<close>

lemma remove_first_id: "(\<And>x. x \<in> set xs \<Longrightarrow> \<not> P x) \<Longrightarrow> remove_first P xs = xs"
  by (induction xs) auto

lemma on_dereg_row: "snd (on_dereg k rt r) = r\<lparr>presences := remove_first (is_presence k rt) (presences r)\<rparr>"
proof (cases "find_presence k rt r")
  case None
  then have "remove_first (is_presence k rt) (presences r) = presences r"
    by (intro remove_first_id) (auto simp: find_presence_def find_None_iff)
  then show ?thesis
    by (simp add: on_dereg_def None)
qed (simp add: on_dereg_def)

lemma row_keys_remove: "row_keys (r\<lparr>presences := remove_first (is_presence k rt) (presences r)\<rparr>) = remove1 (k, rt) (row_keys r)"
  by (simp add: is_presence_key map_remove_first)

lemma drop_orphaned_presences [simp]: "presences (snd (drop_channel_if_orphaned k r)) = presences r"
  by (simp add: drop_channel_if_orphaned_def)

lemma channel_of_rows: "pr_channel ` set (presences r) = fst ` set (row_keys r)"
  by (force simp: row_key_def)

lemma fst_image_minus: "fst ` A \<subseteq> fst ` (A - {(k, rt)}) \<union> {k}"
proof
  show "x \<in> fst ` (A - {(k, rt)}) \<union> {k}" if "x \<in> fst ` A" for x
    using that by (cases "x = k") (auto intro!: image_eqI)
qed

lemma cache_exact:
  assumes "B \<subseteq> A \<union> {k}" and "A \<subseteq> B" and "B \<subseteq> S" and "S \<subseteq> B \<union> {k}"
  shows "k \<in> A \<Longrightarrow> S = A" "k \<notin> A \<Longrightarrow> S - {k} = A"
  using assms by blast+

lemma role_wf_end:
  assumes wf: "role_wf K u r" and K: "K \<subseteq> {k}"
  shows "role_wf {} u (snd (drop_channel_if_orphaned k (r\<lparr>presences := remove_first (is_presence k rt) (presences r)\<rparr>)))"
proof -
  let ?r = "r\<lparr>presences := remove_first (is_presence k rt) (presences r)\<rparr>"
  have keys: "set (row_keys ?r) = set (row_keys r) - {(k, rt)}" "distinct (row_keys ?r)"
    using wf by (simp_all only: row_keys_remove) (simp_all add: role_wf_def)
  have sub: "fst ` set (row_keys r) \<subseteq> fst ` set (row_keys ?r) \<union> {k}" "fst ` set (row_keys ?r) \<subseteq> fst ` set (row_keys r)"
    unfolding keys(1) using fst_image_minus by auto
  have rows: "set (presences ?r) \<subseteq> set (presences r)"
    by (simp add: set_remove_first)
  have orphan: "list_ex (\<lambda>p. pr_channel p = k) (presences ?r) \<longleftrightarrow> k \<in> fst ` set (row_keys ?r)"
    unfolding channel_of_rows [symmetric] by (auto simp: list_ex_iff)
  have ch: "distinct (role_channels r)" "fst ` set (row_keys r) \<subseteq> set (role_channels r)"
    "set (role_channels r) \<subseteq> fst ` set (row_keys r) \<union> {k}"
    using wf K unfolding role_wf_def channel_of_rows by auto
  define r' where "r' = snd (drop_channel_if_orphaned k ?r)"
  have cache: "role_channels r' = (if k \<in> fst ` set (row_keys ?r) then role_channels r else remove1 k (role_channels r))"
    unfolding r'_def drop_channel_if_orphaned_def orphan by (simp add: remove1_idem)
  have "distinct (role_channels r')"
    using ch(1) by (simp add: cache)
  moreover have "set (role_channels r') = fst ` set (row_keys ?r)"
    using cache_exact [OF sub ch(2,3)] ch(1) unfolding cache
    by (cases "k \<in> fst ` set (row_keys ?r)") (simp_all only: if_True if_False set_remove1_eq simp_thms)
  moreover have "presences r' = presences ?r" "role_uid r' = role_uid r" "role_name r' = role_name r" "short_tag r' = short_tag r"
    by (simp_all add: r'_def) (simp_all add: drop_channel_if_orphaned_def)
  ultimately show ?thesis
    using wf keys(2) rows unfolding r'_def [symmetric] role_wf_def channel_of_rows by auto
qed

lemma end_presence_props:
  assumes "roles_slack k U (roles s)"
  shows "roles_slack k (U - {u}) (roles (end_presence k rt u s))"
    and "rows (roles (end_presence k rt u s)) = rows (roles s) - {(k, rt, u)}"
    and "dom (roles (end_presence k rt u s)) = dom (roles s)"
proof -
  show "roles_slack k (U - {u}) (roles (end_presence k rt u s))"
  proof (cases "roles s u")
    case (Some r)
    have "role_wf (if u \<in> U then {k} else {}) u r"
      using assms Some by (simp add: roles_slack_def)
    then have "role_wf {} u (snd (drop_channel_if_orphaned k (snd (on_dereg k rt r))))"
      unfolding on_dereg_row by (rule role_wf_end) simp
    then show ?thesis
      using assms Some by (simp add: end_presence_def roles_slack_upd)
  next
    case None
    have "role_wf (if u' \<in> U - {u} then {k} else {}) u' r'" if "roles s u' = Some r'" for u' r'
      using roles_slackD [OF assms that] None that by (cases "u' = u") simp_all
    then show ?thesis
      using None by (simp add: end_presence_def roles_slack_def)
  qed
  show "rows (roles (end_presence k rt u s)) = rows (roles s) - {(k, rt, u)}"
  proof (cases "roles s u")
    case (Some r)
    have d: "distinct (row_keys r)"
      using assms Some by (auto simp: roles_slack_def role_wf_def)
    have "row_keys (snd (drop_channel_if_orphaned k (snd (on_dereg k rt r)))) = remove1 (k, rt) (row_keys r)"
      by (simp only: drop_orphaned_presences on_dereg_row row_keys_remove)
    then have "rows (roles (end_presence k rt u s)) =
        {x \<in> rows (roles s). snd (snd x) \<noteq> u} \<union> {(k', rt', u) | k' rt'. (k', rt') \<in> set (row_keys r) - {(k, rt)}}"
      using Some d by (simp add: end_presence_def rows_upd)
    also have "\<dots> = rows (roles s) - {(k, rt, u)}"
      using rows_at [of "roles s", OF Some] by auto
    finally show ?thesis .
  qed (auto simp: end_presence_def rows_def)
  show "dom (roles (end_presence k rt u s)) = dom (roles s)"
    by (auto simp: end_presence_def split: option.split)
qed

lemma fold_end_presence_all:
  assumes "roles_slack k U (roles s)"
  shows "roles_slack k (U - set us) (roles (fold (end_presence k rt) us s))
    \<and> rows (roles (fold (end_presence k rt) us s)) = rows (roles s) - {(k, rt, u) | u. u \<in> set us}
    \<and> dom (roles (fold (end_presence k rt) us s)) = dom (roles s)"
  using assms
proof (induction us arbitrary: s U)
  case (Cons u us)
  note one = end_presence_props [OF Cons.prems, where u = u and rt = rt]
  have "rows (roles s) - {(k, rt, u)} - {(k, rt, v) | v. v \<in> set us} = rows (roles s) - {(k, rt, v) | v. v \<in> set (u # us)}"
    by auto
  moreover have "U - {u} - set us = U - set (u # us)"
    by auto
  ultimately show ?case
    using Cons.IH [OF one(1)] one(2,3) by simp
qed simp

lemmas fold_end_presence_props = fold_end_presence_all [THEN conjunct1]
  fold_end_presence_all [THEN conjunct2, THEN conjunct1] fold_end_presence_all [THEN conjunct2, THEN conjunct2]

section \<open>Terminal cleanup and registration of roles\<close>

lemma leave_band_members [simp]:
  "members (snd (leave_band u n b)) = filter (\<lambda>x. bm_role_uid x \<noteq> u) (members b)"
  "band_name (snd (leave_band u n b)) = band_name b"
  by (simp_all add: leave_band_def Let_def)

lemma erase_role_frame [simp]:
  "channels (erase_role u r t s) = channels s" "roles (erase_role u r t s) = (roles s)(u := None)"
  "shm_blocks (erase_role u r t s) = shm_blocks s"
  "schemas (erase_role u r t s) = filter (\<lambda>e. fst (fst e) \<noteq> u) (schemas s)"
  by (simp_all add: erase_role_def cascade_role_terminal_cleanup_locked_def evict_schemas_def Let_def)

lemma erase_role_bands:
  "bands (erase_role u r t s) = filter (\<lambda>(k, b). members b \<noteq> []) (map (\<lambda>(k, b). (k, snd (leave_band u (steady t) b))) (bands s))"
  by (auto simp: erase_role_def cascade_role_terminal_cleanup_locked_def evict_schemas_def Let_def filter_map comp_def
    split_beta intro!: arg_cong [where f = "map _"] filter_cong)

lemma schemas_wf_filter: "schemas_wf ss \<Longrightarrow> schemas_wf (filter P ss)"
  by (auto simp: schemas_wf_def distinct_map_filter)

lemma bands_wf_erase:
  assumes "bands_wf bs U"
  shows "bands_wf (filter (\<lambda>(k, b). members b \<noteq> []) (map (\<lambda>(k, b). (k, snd (leave_band u n b))) bs)) (U - {u})"
proof -
  have "distinct (map fst (map (\<lambda>(k, b). (k, snd (leave_band u n b))) bs))"
    using assms by (simp add: bands_wf_def comp_def split_beta)
  then show ?thesis
    using assms unfolding bands_wf_def by (auto simp: distinct_map_filter)
qed

lemma erase_role_inv:
  assumes "hub_inv s" and "roles s u = Some r" and "presences r = []"
  shows "hub_inv (erase_role u r t s)"
proof (rule hub_invI)
  note inv = hub_invD [OF assms(1)]
  show "channels_wf (channels (erase_role u r t s))" "shm_wf (channels (erase_role u r t s)) (shm_blocks (erase_role u r t s))"
    using inv by simp_all
  show "roles_wf (roles (erase_role u r t s))"
    using inv(2) by (auto simp: roles_slack_def)
  show "schemas_wf (schemas (erase_role u r t s))"
    using inv(6) by (simp add: schemas_wf_filter)
  show "bands_wf (bands (erase_role u r t s)) (dom (roles (erase_role u r t s)))"
    using bands_wf_erase [OF inv(4)] by (simp add: erase_role_bands)
  show "rows (roles (erase_role u r t s)) = entries (channels (erase_role u r t s))"
  proof -
    have "snd (snd x) \<noteq> u" if "x \<in> rows (roles s)" for x
      using that assms(2,3) by (auto simp: rows_def)
    then have "rows ((roles s)(u := None)) = rows (roles s)"
      by (auto simp: rows_erase)
    then show ?thesis
      using inv(3) by simp
  qed
qed

lemma dispatch_inv: "hub_inv s \<Longrightarrow> hub_inv (dispatch_role_disconnected_if_dead u t s)"
  by (auto simp: dispatch_role_disconnected_if_dead_def any_presence_alive_def intro: erase_role_inv split: option.split)

lemma fold_dispatch_inv: "hub_inv s \<Longrightarrow> hub_inv (fold (\<lambda>u. dispatch_role_disconnected_if_dead u t) us s)"
  by (induction us arbitrary: s) (simp_all add: dispatch_inv)

text \<open>Registration adds one row, or none without a channel.\<close>

lemma upsert_row_wf:
  assumes "role_wf {} u (r\<lparr>role_channels := cs\<rparr>)" and "k \<noteq> []" and "rt \<in> {''producer'', ''consumer''}"
    and "distinct cs'" and "set cs' = insert k (set cs)"
  shows "role_wf {} u (upsert_presence_row_locked k rt n (r\<lparr>role_channels := cs'\<rparr>))"
    and "set (row_keys (upsert_presence_row_locked k rt n (r\<lparr>role_channels := cs'\<rparr>))) = insert (k, rt) (set (row_keys r))"
proof -
  show "set (row_keys (upsert_presence_row_locked k rt n (r\<lparr>role_channels := cs'\<rparr>))) = insert (k, rt) (set (row_keys r))"
    using assms(2,3) by (auto simp: upsert_presence_row_locked_def find_presence_None new_presence_def row_key_def)
  show "role_wf {} u (upsert_presence_row_locked k rt n (r\<lparr>role_channels := cs'\<rparr>))"
  proof (cases "(k, rt) \<in> set (row_keys r)")
    case True
    then have "k \<in> pr_channel ` set (presences r)"
      by (auto simp: row_key_def)
    then show ?thesis
      using assms True by (auto simp: upsert_presence_row_locked_def find_presence_None role_wf_def)
  next
    case False
    then show ?thesis
      using assms by (auto simp: upsert_presence_row_locked_def find_presence_None role_wf_def new_presence_def row_key_def)
  qed
qed

lemma upsert_row_none: "upsert_presence_row_locked [] rt n r = r"
  by (simp add: upsert_presence_row_locked_def)

lemma valid_role_parses: "is_valid_identifier u RoleUid \<Longrightarrow> \<exists>p. parse_role_uid u = Some p"
  by (simp add: parse_role_uid_def)

lemma register_role_new:
  assumes wf: "roles_wf (roles s)" and u: "is_valid_identifier u RoleUid" and k: "k \<noteq> []" and rt: "rt \<in> {''producer'', ''consumer''}"
  shows "roles_wf (roles (register_role u pk k rt t s))"
    and "rows (roles (register_role u pk k rt t s)) = insert (k, rt, u) (rows (roles s))"
    and "dom (roles (register_role u pk k rt t s)) = insert u (dom (roles s))"
proof -
  obtain p where p: "parse_role_uid u = Some p"
    using valid_role_parses [OF u] by blast
  have u_ne: "u \<noteq> []"
    using u by (auto simp: is_valid_identifier_def)
  have ex: "\<exists>r. roles (register_role u pk k rt t s) = (roles s)(u \<mapsto> r) \<and> role_wf {} u r
      \<and> set (row_keys r) = insert (k, rt) (case roles s u of None \<Rightarrow> {} | Some r0 \<Rightarrow> set (row_keys r0))"
  proof (cases "roles s u")
    case None
    let ?r = "(empty_role t)\<lparr>role_uid := u, role_name := tu_name p, short_tag := tag p, pubkey_z85 := pk\<rparr>"
    have "role_wf {} u (?r\<lparr>role_channels := []\<rparr>)"
      using p by (auto simp: role_wf_def empty_role_def)
    note up = upsert_row_wf [OF this k rt, of "[k]" "steady t"]
    have "roles (register_role u pk k rt t s) =
        (roles s)(u \<mapsto> upsert_presence_row_locked k rt (steady t) (?r\<lparr>role_channels := [k]\<rparr>))"
      using None p k u_ne by (simp add: register_role_def upsert_role_locked_def Let_def)
    moreover have "row_keys ?r = []"
      by (simp add: empty_role_def)
    ultimately show ?thesis
      using None up by auto
  next
    case (Some r0)
    let ?r = "r0\<lparr>role_name := tu_name p, short_tag := tag p, pubkey_z85 := (if pk \<noteq> [] then pk else pubkey_z85 r0)\<rparr>"
    let ?cs = "if k \<notin> set (role_channels r0) then role_channels r0 @ [k] else role_channels r0"
    have r0: "role_wf {} u r0"
      using roles_slackD [OF wf Some] by simp
    then have "role_wf {} u (?r\<lparr>role_channels := role_channels r0\<rparr>)"
      using p by (auto simp: role_wf_def)
    note up = upsert_row_wf [OF this k rt, of ?cs "steady t"]
    have "roles (register_role u pk k rt t s) =
        (roles s)(u \<mapsto> upsert_presence_row_locked k rt (steady t) (?r\<lparr>role_channels := ?cs\<rparr>))"
      using Some p k u_ne by (simp add: register_role_def upsert_role_locked_def Let_def)
    moreover have "distinct ?cs" "set ?cs = insert k (set (role_channels r0))"
      using r0 by (auto simp: role_wf_def)
    ultimately show ?thesis
      using Some up by (intro exI conjI) (assumption, simp_all)
  qed
  then obtain r where r: "roles (register_role u pk k rt t s) = (roles s)(u \<mapsto> r)" "role_wf {} u r"
      "set (row_keys r) = insert (k, rt) (case roles s u of None \<Rightarrow> {} | Some r0 \<Rightarrow> set (row_keys r0))"
    by blast
  show "roles_wf (roles (register_role u pk k rt t s))"
    unfolding r(1) using wf r(2) by (rule roles_wf_upd)
  show "rows (roles (register_role u pk k rt t s)) = insert (k, rt, u) (rows (roles s))"
    unfolding r(1) rows_upd r(3) by (auto simp: rows_def split: option.splits)
  show "dom (roles (register_role u pk k rt t s)) = insert u (dom (roles s))"
    unfolding r(1) by simp
qed

lemma register_role_nochannel:
  assumes wf: "roles_wf (roles s)" and u: "u = [] \<or> is_valid_identifier u RoleUid"
  shows "roles_wf (roles (register_role u pk [] rt t s))"
    and "rows (roles (register_role u pk [] rt t s)) = rows (roles s)"
    and "dom (roles (register_role u pk [] rt t s)) = dom (roles s) \<union> set (named [u])"
proof -
  have "roles_wf (roles (register_role u pk [] rt t s)) \<and> rows (roles (register_role u pk [] rt t s)) = rows (roles s)
      \<and> dom (roles (register_role u pk [] rt t s)) = insert u (dom (roles s))" if u_ne: "u \<noteq> []"
  proof -
    obtain p where p: "parse_role_uid u = Some p"
      using valid_role_parses [of u] u u_ne by blast
    show ?thesis
    proof (cases "roles s u")
      case None
      let ?r = "(empty_role t)\<lparr>role_uid := u, role_name := tu_name p, short_tag := tag p, pubkey_z85 := pk\<rparr>"
      have "role_wf {} u ?r" "row_keys ?r = []"
        using p by (auto simp: role_wf_def empty_role_def)
      moreover have "roles (register_role u pk [] rt t s) = (roles s)(u \<mapsto> ?r)"
        using None p u_ne by (simp add: register_role_def upsert_role_locked_def upsert_row_none empty_role_def Let_def)
      moreover have "rows ((roles s)(u \<mapsto> ?r)) = rows (roles s)"
        unfolding rows_upd \<open>row_keys ?r = []\<close> using None by (auto simp: rows_def)
      ultimately show ?thesis
        using wf by (simp add: roles_wf_upd)
    next
      case (Some r0)
      let ?r = "r0\<lparr>role_name := tu_name p, short_tag := tag p, pubkey_z85 := (if pk \<noteq> [] then pk else pubkey_z85 r0)\<rparr>"
      have "role_wf {} u ?r"
        using roles_slackD [OF wf Some] p by (auto simp: role_wf_def)
      moreover have "roles (register_role u pk [] rt t s) = (roles s)(u \<mapsto> ?r)"
        using Some p u_ne by (simp add: register_role_def upsert_role_locked_def upsert_row_none Let_def)
      moreover have "rows ((roles s)(u \<mapsto> ?r)) = rows (roles s)"
        by (rule rows_upd_same [of _ _ r0]) (simp_all add: Some)
      ultimately show ?thesis
        using wf by (simp add: roles_wf_upd)
    qed
  qed
  moreover have "register_role [] pk [] rt t s = s"
    by (simp add: register_role_def)
  ultimately show "roles_wf (roles (register_role u pk [] rt t s))"
    "rows (roles (register_role u pk [] rt t s)) = rows (roles s)"
    "dom (roles (register_role u pk [] rt t s)) = dom (roles s) \<union> set (named [u])"
    using wf by (cases "u = []"; simp add: named_def)+
qed

lemma register_named:
  assumes "roles_wf (roles s)" and "u = [] \<or> is_valid_identifier u RoleUid" and "k \<noteq> []" and "rt \<in> {''producer'', ''consumer''}"
  shows "roles_wf (roles (register_role u pk k rt t s))"
    and "rows (roles (register_role u pk k rt t s)) = rows (roles s) \<union> {(k, rt, v) | v. v \<in> set (named [u])}"
    and "dom (roles (register_role u pk k rt t s)) = dom (roles s) \<union> set (named [u])"
proof -
  have "register_role [] pk k rt t s = s"
    by (simp add: register_role_def)
  then show "roles_wf (roles (register_role u pk k rt t s))"
    "rows (roles (register_role u pk k rt t s)) = rows (roles s) \<union> {(k, rt, v) | v. v \<in> set (named [u])}"
    "dom (roles (register_role u pk k rt t s)) = dom (roles s) \<union> set (named [u])"
    using assms register_role_new [OF assms(1) _ assms(3,4), of u pk t]
    by (cases "u = []"; simp add: named_def)+
qed

section \<open>Channel operations\<close>

lemma shm_wf_erase: "shm_wf C B \<Longrightarrow> shm_wf (C(k := None)) (B(k := None))"
  by (simp add: shm_wf_def)

lemma on_channel_closed_eq:
  assumes "is_valid_identifier k Channel" and "channels s k = Some c"
    and "s3 = fold (end_presence k ''consumer'') (cuids c) (fold (end_presence k ''producer'') (puids c) (set_channel_closed k s))"
  shows "on_channel_closed k why t s = fold (\<lambda>u. dispatch_role_disconnected_if_dead u t) (puids c @ cuids c)
    (bump_counter (''close:'' @ close_reason_to_string why) 1 (s3\<lparr>shm_blocks := (shm_blocks s3)(k := None)\<rparr>))"
  using assms by (simp add: on_channel_closed_def Let_def named_def)

text \<open>Closing a channel, also when some of its rows are already gone.\<close>

lemma on_channel_closed_gen:
  assumes k: "is_valid_identifier k Channel" and c: "channels s k = Some c"
    and wf: "channels_wf (channels s)" and slack: "roles_slack k U (roles s)" and U: "U \<subseteq> set (puids c)"
    and sub: "rows (roles s) \<subseteq> entries (channels s)" and sup: "{x \<in> entries (channels s). fst x \<noteq> k} \<subseteq> rows (roles s)"
    and rest: "bands_wf (bands s) (dom (roles s))" "shm_wf (channels s) (shm_blocks s)" "schemas_wf (schemas s)"
  shows "hub_inv (on_channel_closed k why t s)"
proof -
  define s2 where "s2 = fold (end_presence k ''producer'') (puids c) (set_channel_closed k s)"
  define s3 where "s3 = fold (end_presence k ''consumer'') (cuids c) s2"
  have "roles_slack k U (roles (set_channel_closed k s))"
    using slack by simp
  note p2 = fold_end_presence_props [OF this, where rt = "''producer''" and us = "puids c", folded s2_def]
  have sl2: "roles_slack k {} (roles s2)"
  proof -
    have "U - set (puids c) = {}"
      using U by blast
    then show ?thesis
      using p2(1) by (simp only:)
  qed
  note p3 = fold_end_presence_props [OF sl2, where rt = "''consumer''" and us = "cuids c", folded s3_def]
  have "rows (roles s3) = rows (roles s) - entries_of k c"
    unfolding p3(2) p2(2) entries_of_def set_channel_closed_frame by blast
  also have "\<dots> = {x \<in> entries (channels s). fst x \<noteq> k}"
    using sub sup entries_at [of "channels s" k c, OF c] by blast
  finally have rows: "rows (roles s3) = entries ((channels s)(k := None))"
    by (simp add: entries_erase)
  have frame: "channels s3 = (channels s)(k := None)" "bands s3 = bands s" "shm_blocks s3 = shm_blocks s" "schemas s3 = schemas s"
    by (simp_all add: s3_def s2_def)
  have "roles_wf (roles s3)"
    using p3(1) unfolding empty_Diff by (rule roles_slack_empty)
  moreover have "dom (roles s3) = dom (roles s)"
    using p3(3) p2(3) by simp
  ultimately have "hub_inv (bump_counter n 1 (s3\<lparr>shm_blocks := (shm_blocks s3)(k := None)\<rparr>))" for n
    using wf rest rows frame by (intro hub_invI) (simp_all add: channels_wf_erase shm_wf_erase)
  then show ?thesis
    unfolding on_channel_closed_eq [OF k c s3_def [unfolded s2_def]] by (rule fold_dispatch_inv)
qed

lemma on_channel_closed_inv:
  assumes "hub_inv s"
  shows "hub_inv (on_channel_closed k why t s)"
proof (cases "is_valid_identifier k Channel \<and> channels s k \<noteq> None")
  case True
  then obtain c where "channels s k = Some c"
    by blast
  with True show ?thesis
    using hub_invD [OF assms] by (intro on_channel_closed_gen [where U = "{}"]) (auto intro: roles_slack_empty)
next
  case False
  have "(channels s)(k := None) = channels s" "(shm_blocks s)(k := None) = shm_blocks s" if "channels s k = None"
    using that hub_invD(5) [OF assms] by (auto simp: shm_wf_def fun_eq_iff split: option.splits)
  then have "hub_inv (bump_counter n 1 (set_channel_closed k s\<lparr>shm_blocks := (shm_blocks (set_channel_closed k s))(k := None)\<rparr>))"
    if "channels s k = None" for n
    using that assms by (intro hub_invI) (simp_all add: hub_invD)
  then show ?thesis
    using False assms by (auto simp: on_channel_closed_def)
qed

text \<open>Removing one producer or consumer of a channel.\<close>

lemma named_remove1: "distinct (named us) \<Longrightarrow> distinct (named (remove1 u us)) \<and> (u \<noteq> [] \<longrightarrow> set (named (remove1 u us)) = set (named us) - {u})"
  by (auto simp: named_def filter_remove1)

lemma cardinality_mono: "cardinality_ok tp np nc \<Longrightarrow> np' \<le> np \<Longrightarrow> nc' \<le> nc \<Longrightarrow> cardinality_ok tp np' nc'"
  by (cases tp) auto

lemma remove_producer_eq:
  "snd (remove_producer u c) = c\<lparr>producers := remove_first (\<lambda>p. p_role_uid p = u) (producers c)\<rparr>"
proof (cases "find_producer u c")
  case None
  then have "remove_first (\<lambda>p. p_role_uid p = u) (producers c) = producers c"
    by (intro remove_first_id) (auto simp: find_producer_def find_None_iff)
  then show ?thesis
    by (simp add: remove_producer_def None)
qed (simp add: remove_producer_def Let_def)

lemma length_remove_first: "length (remove_first P xs) \<le> length xs"
  by (induction xs) auto

lemma remove_producer_wf:
  assumes "channel_wf k c" and "u \<noteq> []"
  shows "channel_wf k (snd (remove_producer u c))"
    and "entries_of k (snd (remove_producer u c)) = entries_of k c - {(k, ''producer'', u)}"
proof -
  have d: "distinct (puids c)"
    using assms(1) by (simp add: channel_wf_def)
  have m: "map p_role_uid (remove_first (\<lambda>p. p_role_uid p = u) (producers c)) = remove1 u (map p_role_uid (producers c))"
    by (rule map_remove_first)
  show "channel_wf k (snd (remove_producer u c))"
    using assms named_remove1 [OF d, of u] length_remove_first [of _ "producers c"]
    by (auto simp: channel_wf_def remove_producer_eq m intro: cardinality_mono)
  show "entries_of k (snd (remove_producer u c)) = entries_of k c - {(k, ''producer'', u)}"
    using assms(2) named_remove1 [OF d, of u] by (auto simp: entries_of_def remove_producer_eq m)
qed

lemma remove_consumer_wf:
  assumes "channel_wf k c" and "u \<noteq> []"
  shows "channel_wf k (snd (remove_consumer u c))"
    and "entries_of k (snd (remove_consumer u c)) = entries_of k c - {(k, ''consumer'', u)}"
proof -
  have d: "distinct (cuids c)"
    using assms(1) by (simp add: channel_wf_def)
  have m: "map c_role_uid (remove_first (\<lambda>p. c_role_uid p = u) (consumers c)) = remove1 u (map c_role_uid (consumers c))"
    by (rule map_remove_first)
  show "channel_wf k (snd (remove_consumer u c))"
    using assms named_remove1 [OF d, of u] length_remove_first [of _ "consumers c"]
    by (auto simp: channel_wf_def remove_consumer_def m intro: cardinality_mono)
  show "entries_of k (snd (remove_consumer u c)) = entries_of k c - {(k, ''consumer'', u)}"
    using assms(2) named_remove1 [OF d, of u] by (auto simp: entries_of_def remove_consumer_def m)
qed

lemma channels_wfD: "channels_wf C \<Longrightarrow> C k = Some c \<Longrightarrow> channel_wf k c"
  by (simp add: channels_wf_def)

lemma valid_role_nonempty: "is_valid_identifier u kind \<Longrightarrow> u \<noteq> []"
  by (auto simp: is_valid_identifier_def)

text \<open>One entry leaves a channel together with its row.\<close>

lemma one_leaves_inv:
  assumes inv: "hub_inv s" and c: "channels s k = Some c" and wf: "channel_wf k c'"
    and tr: "data_transport c' = data_transport c" and ent: "entries_of k c' = entries_of k c - {(k, rt, u)}"
    and s': "channels s' = (channels s)(k \<mapsto> c')" "bands s' = bands s" "shm_blocks s' = shm_blocks s" "schemas s' = schemas s"
    and r: "roles_wf (roles s')" "rows (roles s') = rows (roles s) - {(k, rt, u)}" "dom (roles s') = dom (roles s)"
  shows "hub_inv s'"
proof (rule hub_invI)
  note i = hub_invD [OF inv]
  have "entries ((channels s)(k \<mapsto> c')) = entries (channels s) - {(k, rt, u)}"
    unfolding entries_upd ent entries_at [of "channels s" k c, OF c, symmetric] by auto
  then show "rows (roles s') = entries (channels s')"
    using i(3) r(2) s'(1) by simp
  show "channels_wf (channels s')"
    using i(1) wf s'(1) by (simp add: channels_wf_upd)
  show "shm_wf (channels s') (shm_blocks s')"
    using shm_wf_upd [OF i(5) c tr] s' by simp
qed (use hub_invD [OF inv] r s' in simp_all)

lemma end_presence_wf:
  assumes "hub_inv s" and "roles s0 = roles s"
  shows "roles_wf (roles (end_presence k rt u s0))"
    and "rows (roles (end_presence k rt u s0)) = rows (roles s) - {(k, rt, u)}"
    and "dom (roles (end_presence k rt u s0)) = dom (roles s)"
proof -
  have "roles_slack k {} (roles s0)"
    using hub_invD(2) [OF assms(1)] assms(2) by (auto intro: roles_slack_empty)
  note e = end_presence_props [OF this, where u = u and rt = rt]
  show "roles_wf (roles (end_presence k rt u s0))"
    using e(1) unfolding empty_Diff by (rule roles_slack_empty)
  show "rows (roles (end_presence k rt u s0)) = rows (roles s) - {(k, rt, u)}" "dom (roles (end_presence k rt u s0)) = dom (roles s)"
    using e(2,3) assms(2) by simp_all
qed

lemma on_producer_dropped_inv:
  assumes inv: "hub_inv s"
  shows "hub_inv (snd (on_producer_dropped k u why t s))"
proof -
  have "hub_inv (end_presence k ''producer'' u (upd_channel k (snd (remove_producer u c)) s))"
    if "channels s k = Some c" "is_valid_identifier u RoleUid" for c
  proof -
    have c: "channel_wf k c" "u \<noteq> []"
      using that inv by (auto intro: channels_wfD hub_invD dest: valid_role_nonempty)
    show ?thesis
      using remove_producer_wf [OF c] end_presence_wf [OF inv, of "upd_channel k (snd (remove_producer u c)) s"]
      by (intro one_leaves_inv [OF inv that(1)]) (simp_all add: remove_producer_eq)
  qed
  then show ?thesis
    using inv by (auto simp: on_producer_dropped_def Let_def dispatch_inv on_channel_closed_inv split: option.splits prod.splits)
qed

lemma pending_row:
  "fst (on_pending_timeout k rt r) = ToDisconnected \<Longrightarrow> snd (on_pending_timeout k rt r) = snd (on_dereg k rt r)"
  by (auto simp: on_pending_timeout_def on_dereg_def split: option.splits if_splits)

lemma pending_drop:
  assumes "roles s u = Some r" and "fst (on_pending_timeout k rt r) = ToDisconnected"
  shows "upd_role u (snd (drop_channel_if_orphaned k (snd (on_pending_timeout k rt r)))) s = end_presence k rt u s"
  using assms pending_row [of k rt r] by (simp add: end_presence_def)

lemma pending_timeout_consumer_inv:
  assumes inv: "hub_inv s" and u: "is_valid_identifier u RoleUid"
  shows "hub_inv (snd (pending_timeout_consumer k u t s))"
proof -
  have "hub_inv (upd_role u (snd (drop_channel_if_orphaned k (snd (on_pending_timeout k ''consumer'' r))))
      (upd_channel k (snd (remove_consumer u c)) s))"
    if c: "channels s k = Some c" and r: "roles s u = Some r" "fst (on_pending_timeout k ''consumer'' r) = ToDisconnected" for c r
  proof -
    have w: "channel_wf k c" "u \<noteq> []"
      using c inv u by (auto intro: channels_wfD hub_invD dest: valid_role_nonempty)
    show ?thesis
      unfolding pending_drop [of "upd_channel k (snd (remove_consumer u c)) s", simplified, OF r]
      using remove_consumer_wf [OF w] end_presence_wf [OF inv, of "upd_channel k (snd (remove_consumer u c)) s"]
      by (intro one_leaves_inv [OF inv c]) (simp_all add: remove_consumer_def)
  qed
  then show ?thesis
    using inv by (auto simp: pending_timeout_consumer_def case_prod_beta Let_def intro!: dispatch_inv split: option.splits)
qed

lemma role_wf_row_removed:
  assumes "role_wf {} u r"
  shows "role_wf {k} u (snd (on_dereg k rt r))"
proof -
  let ?r = "r\<lparr>presences := remove_first (is_presence k rt) (presences r)\<rparr>"
  have keys: "row_keys ?r = remove1 (k, rt) (row_keys r)"
    by (rule row_keys_remove)
  have d: "distinct (row_keys r)"
    using assms by (simp add: role_wf_def)
  have "fst ` set (row_keys r) \<subseteq> fst ` set (row_keys ?r) \<union> {k}" "fst ` set (row_keys ?r) \<subseteq> fst ` set (row_keys r)"
    unfolding keys set_remove1_eq [OF d] using fst_image_minus by auto
  moreover have "set (role_channels r) = fst ` set (row_keys r)"
    using assms unfolding role_wf_def channel_of_rows by (intro subset_antisym) simp_all
  ultimately have "set (role_channels r) \<subseteq> fst ` set (row_keys ?r) \<union> {k}" "fst ` set (row_keys ?r) \<subseteq> set (role_channels r)"
    by (simp_all only:)
  moreover have "set (presences ?r) \<subseteq> set (presences r)" "distinct (row_keys ?r)"
    using d by (simp_all only: keys) (simp_all add: set_remove_first)
  ultimately show ?thesis
    using assms unfolding on_dereg_row role_wf_def channel_of_rows by auto
qed

lemma pending_timeout_producer_inv:
  assumes inv: "hub_inv s" and k: "is_valid_identifier k Channel" and u: "is_valid_identifier u RoleUid"
  shows "hub_inv (snd (pending_timeout_producer k u t s))"
proof -
  note i = hub_invD [OF inv]
  have nonlast: "hub_inv (upd_role u (snd (drop_channel_if_orphaned k (snd (on_pending_timeout k ''producer'' r))))
      (upd_channel k (snd (remove_producer u c)) (upd_counters f (upd_role u r1 s))))" (is "hub_inv ?s1")
    if c: "channels s k = Some c" and r: "roles s u = Some r" "fst (on_pending_timeout k ''producer'' r) = ToDisconnected" for c r r1 f
  proof -
    let ?s2 = "upd_role u (snd (drop_channel_if_orphaned k (snd (on_pending_timeout k ''producer'' r))))
      (upd_channel k (snd (remove_producer u c)) s)"
    have eq: "hub_inv ?s1 \<longleftrightarrow> hub_inv ?s2"
      by (rule hub_inv_cong) simp_all
    have w: "channel_wf k c" "u \<noteq> []"
      using c inv u by (auto intro: channels_wfD hub_invD dest: valid_role_nonempty)
    have "hub_inv ?s2"
      unfolding pending_drop [of "upd_channel k (snd (remove_producer u c)) s", simplified, OF r]
      using remove_producer_wf [OF w] end_presence_wf [OF inv, of "upd_channel k (snd (remove_producer u c)) s"]
      by (intro one_leaves_inv [OF inv c]) (simp_all add: remove_producer_eq)
    with eq show ?thesis
      by blast
  qed
  have last: "hub_inv (on_channel_closed k HeartbeatTimeout t (upd_counters f (upd_role u (snd (on_pending_timeout k ''producer'' r)) s)))"
    if c: "channels s k = Some c" and f: "find_producer u c \<noteq> None" and r: "roles s u = Some r"
      "fst (on_pending_timeout k ''producer'' r) = ToDisconnected" for c r f
  proof -
    define r1 where "r1 = snd (on_pending_timeout k ''producer'' r)"
    have r1: "r1 = snd (on_dereg k ''producer'' r)"
      using pending_row [of k "''producer''" r] r(2) by (simp add: r1_def)
    have wf: "role_wf {} u r"
      using roles_slackD [OF i(2) r(1)] by simp
    have "row_keys r1 = remove1 (k, ''producer'') (row_keys r)"
      unfolding r1 on_dereg_row by (rule row_keys_remove)
    moreover have "distinct (row_keys r)"
      using wf by (simp add: role_wf_def)
    ultimately have "rows ((roles s)(u \<mapsto> r1)) =
        {x \<in> rows (roles s). snd (snd x) \<noteq> u} \<union> {(k', rt, u) | k' rt. (k', rt) \<in> set (row_keys r) - {(k, ''producer'')}}"
      by (simp add: rows_upd)
    also have "\<dots> = rows (roles s) - {(k, ''producer'', u)}"
      using rows_at [of "roles s" u r, OF r(1)] by auto
    finally have rows: "rows ((roles s)(u \<mapsto> r1)) = rows (roles s) - {(k, ''producer'', u)}" .
    have slack: "roles_slack k {u} ((roles s)(u \<mapsto> r1))"
      unfolding roles_slack_def
    proof (intro allI impI)
      show "role_wf (if u' \<in> {u} then {k} else {}) u' r'" if "((roles s)(u \<mapsto> r1)) u' = Some r'" for u' r'
        using that roles_slackD [OF i(2), of u' r'] role_wf_row_removed [OF wf, of k "''producer''"] r1 by (cases "u' = u") auto
    qed
    have "{u} \<subseteq> set (puids c)"
      using f valid_role_nonempty [OF u] by (simp add: find_producer_None named_def)
    then show ?thesis
      unfolding r1_def [symmetric]
      using i c slack rows r(1) by (intro on_channel_closed_gen [OF k, where U = "{u}"]) (auto simp: insert_absorb domI)
  qed
  show ?thesis
    using inv by (auto simp: pending_timeout_producer_def case_prod_beta Let_def intro!: dispatch_inv nonlast last split: option.splits)
qed

lemma hub_on_pending_timeout_inv: "hub_inv s \<Longrightarrow> hub_inv (snd (hub_on_pending_timeout k u rt t s))"
  by (simp add: hub_on_pending_timeout_def pending_timeout_consumer_inv pending_timeout_producer_inv)

text \<open>One entry joins a channel together with its row.\<close>

lemma one_joins_inv:
  assumes inv: "hub_inv s" and k: "is_valid_identifier k Channel" and u: "u = [] \<or> is_valid_identifier u RoleUid"
    and rt: "rt \<in> {''producer'', ''consumer''}" and wf: "channel_wf k c'"
    and ent: "entries_of k c' = {x \<in> entries (channels s). fst x = k} \<union> {(k, rt, v) | v. v \<in> set (named [u])}"
    and s': "channels s' = (channels s)(k \<mapsto> c')" "bands s' = bands s" "schemas s' = schemas s"
    and shm: "shm_wf ((channels s)(k \<mapsto> c')) (shm_blocks s')"
    and r: "roles s' = roles (register_role u pk k rt t s0)" "roles s0 = roles s"
  shows "hub_inv s'"
proof (rule hub_invI)
  note i = hub_invD [OF inv]
  have "roles_wf (roles s0)"
    using i(2) r(2) by simp
  note reg = register_named [OF this u valid_role_nonempty [OF k] rt, of pk t]
  show "channels_wf (channels s')"
    using i(1) wf s'(1) by (simp add: channels_wf_upd)
  show "roles_wf (roles s')"
    unfolding r(1) by (rule reg(1))
  show "rows (roles s') = entries (channels s')"
    unfolding r(1) reg(2) s'(1) entries_upd ent r(2) i(3) by blast
  show "bands_wf (bands s') (dom (roles s'))"
    unfolding r(1) reg(3) s'(2) r(2) using i(4) by (rule bands_wf_mono) blast
qed (use hub_invD [OF inv] s' shm in simp_all)

lemma channel_wf_fresh:
  assumes "is_valid_identifier k Channel" and "transport_compatible tp (ti_data_transport ti)"
    and "u = [] \<or> is_valid_identifier u RoleUid"
  shows "p_role_uid p = u \<Longrightarrow> channel_wf k ((fresh_channel k si ti tp t)\<lparr>producers := [p]\<rparr>)"
    and "c_role_uid e = u \<Longrightarrow> channel_wf k ((fresh_channel k si ti tp t)\<lparr>consumers := [e]\<rparr>)"
  using assms by (cases tp; auto simp: channel_wf_def fresh_channel_def named_def)+

lemma cardinality_step:
  "cardinality_ok tp np nc \<Longrightarrow> check_cardinality tp Side_Producer np nc = None \<Longrightarrow> cardinality_ok tp (np + 1) nc"
  "cardinality_ok tp np nc \<Longrightarrow> check_cardinality tp Side_Consumer np nc = None \<Longrightarrow> cardinality_ok tp np (nc + 1)"
  by (cases tp; auto split: if_splits)+

lemma channel_wf_add_producer:
  assumes "channel_wf k c" and "check_cardinality (topology c) Side_Producer (length (producers c)) (length (consumers c)) = None"
    and "p_role_uid p = [] \<or> is_valid_identifier (p_role_uid p) RoleUid" and "find_producer (p_role_uid p) c = None"
  shows "channel_wf k (c\<lparr>producers := producers c @ [p]\<rparr>)"
proof -
  have "cardinality_ok (topology c) (length (producers c) + 1) (length (consumers c))"
    using cardinality_step(1) assms(1,2) by (simp add: channel_wf_def)
  then show ?thesis
    using assms(1,3,4) by (auto simp: channel_wf_def named_def find_producer_None)
qed

lemma admit_producer_locked_Inl:
  assumes "admit_producer_locked k si ti decl p t s = (Inl res, s1)"
  shows "s1 = s"
  using assms by (auto simp: admit_producer_locked_def open_channel_locked_def Let_def add_producer_def fresh_channel_def
    find_producer_def upd_channel_def split: option.splits if_splits prod.splits)

lemma admit_producer_locked_Inr:
  assumes adm: "admit_producer_locked k si ti decl p t s = (Inr (res, c'), s1)"
    and wf: "channels_wf (channels s)" and k: "is_valid_identifier k Channel"
    and u: "p_role_uid p = [] \<or> is_valid_identifier (p_role_uid p) RoleUid"
  shows "channels s1 = (channels s)(k \<mapsto> c')" "roles s1 = roles s" "bands s1 = bands s" "shm_blocks s1 = shm_blocks s"
    "schemas s1 = schemas s" "channel_wf k c'" "channel_opened res \<longleftrightarrow> channels s k = None"
    "data_transport c' = ti_data_transport ti"
    "entries_of k c' = {x \<in> entries (channels s). fst x = k} \<union> {(k, ''producer'', v) | v. v \<in> set (named [p_role_uid p])}"
    "\<And>c. channels s k = Some c \<Longrightarrow> data_transport c = ti_data_transport ti"
proof -
  have goal: "channels s1 = (channels s)(k \<mapsto> c') \<and> roles s1 = roles s \<and> bands s1 = bands s \<and> shm_blocks s1 = shm_blocks s
    \<and> schemas s1 = schemas s \<and> channel_wf k c' \<and> (channel_opened res \<longleftrightarrow> channels s k = None)
    \<and> data_transport c' = ti_data_transport ti
    \<and> entries_of k c' = {x \<in> entries (channels s). fst x = k} \<union> {(k, ''producer'', v) | v. v \<in> set (named [p_role_uid p])}
    \<and> (\<forall>c. channels s k = Some c \<longrightarrow> data_transport c = ti_data_transport ti)"
  proof (cases "channels s k")
    case None
    let ?tp = "case decl of None \<Rightarrow> OneToOne | Some tp \<Rightarrow> tp"
    have c: "transport_compatible ?tp (ti_data_transport ti)" "c' = (fresh_channel k si ti ?tp t)\<lparr>producers := [p]\<rparr>"
      "res = no_producer\<lparr>invariant_result := Inv_Created, channel_opened := True\<rparr>"
      "s1 = upd_channel k c' (upd_channel k (fresh_channel k si ti ?tp t) s)"
      using adm None by (auto simp: admit_producer_locked_def open_channel_locked_def Let_def add_producer_def fresh_channel_def
        find_producer_def split: if_splits)
    have "entries_of k c' = {x \<in> entries (channels s). fst x = k} \<union> {(k, ''producer'', v) | v. v \<in> set (named [p_role_uid p])}"
      unfolding entries_at_None [of "channels s" k, OF None] by (simp add: c(2) entries_of_def fresh_channel_def named_def)
    moreover have "channel_wf k c'" "data_transport c' = ti_data_transport ti"
      using channel_wf_fresh(1) [OF k c(1) u refl, of si t] by (simp_all add: c(2) fresh_channel_def)
    ultimately show ?thesis
      using None by (simp add: c(3,4))
  next
    case (Some c)
    have c: "data_transport c = ti_data_transport ti" "find_producer (p_role_uid p) c = None"
      "check_cardinality (topology c) Side_Producer (length (producers c)) (length (consumers c)) = None"
      "c' = c\<lparr>producers := producers c @ [p]\<rparr>" "res = no_producer\<lparr>invariant_result := Inv_IdempotentEqual\<rparr>" "s1 = upd_channel k c' s"
      using adm Some by (auto simp: admit_producer_locked_def Let_def add_producer_def split: if_splits option.splits)
    have "entries_of k c' = {x \<in> entries (channels s). fst x = k} \<union> {(k, ''producer'', v) | v. v \<in> set (named [p_role_uid p])}"
      unfolding entries_at [of "channels s" k c, OF Some] by (auto simp: c(4) entries_of_def named_def)
    moreover have "channel_wf k c'" "data_transport c' = ti_data_transport ti"
      using channel_wf_add_producer [OF channels_wfD [OF wf Some] c(3) u c(2)] c(1) by (simp_all add: c(4))
    ultimately show ?thesis
      using Some c(1) by (simp add: c(5,6) no_producer_def)
  qed
  then show "channels s1 = (channels s)(k \<mapsto> c')" "roles s1 = roles s" "bands s1 = bands s" "shm_blocks s1 = shm_blocks s"
    "schemas s1 = schemas s" "channel_wf k c'" "channel_opened res \<longleftrightarrow> channels s k = None"
    "data_transport c' = ti_data_transport ti"
    "entries_of k c' = {x \<in> entries (channels s). fst x = k} \<union> {(k, ''producer'', v) | v. v \<in> set (named [p_role_uid p])}"
    "\<And>c. channels s k = Some c \<Longrightarrow> data_transport c = ti_data_transport ti"
    by blast+
qed

lemma set_shm_block_frame [simp]:
  "channels (set_shm_block b s) = channels s" "roles (set_shm_block b s) = roles s" "bands (set_shm_block b s) = bands s"
  "schemas (set_shm_block b s) = schemas s" "shm_blocks (set_shm_block b s) = (shm_blocks s)(sb_channel_name b \<mapsto> b)"
  by (simp_all add: set_shm_block_def)

lemma shm_wf_open:
  assumes "shm_wf C B" and "C k = None"
  shows "shm_wf (C(k \<mapsto> c)) (if data_transport c = ''shm'' then B(k \<mapsto> \<lparr>sb_channel_name = k, block_path = k\<rparr>) else B)"
  using assms by (auto simp: shm_wf_def)

lemma on_producer_added_inv:
  assumes inv: "hub_inv s"
  shows "hub_inv (snd (on_producer_added k si ti decl p t s))"
proof (cases "\<not> is_valid_identifier k Channel \<or> (p_role_uid p \<noteq> [] \<and> \<not> is_valid_identifier (p_role_uid p) RoleUid)
    \<or> (si_schema_id si \<noteq> [] \<and> \<not> is_valid_identifier (si_schema_id si) Schema)")
  case True
  then show ?thesis
    using inv by (auto simp: on_producer_added_def)
next
  case False
  then have k: "is_valid_identifier k Channel" and u: "p_role_uid p = [] \<or> is_valid_identifier (p_role_uid p) RoleUid"
    by auto
  obtain x s1 where adm: "admit_producer_locked k si ti decl p t s = (x, s1)"
    by fastforce
  note body = on_producer_added_def [of k si ti decl p t s, unfolded if_not_P [OF False] adm]
  show ?thesis
  proof (cases x)
    case (Inl res)
    then have "s1 = s"
      using adm by (auto dest: admit_producer_locked_Inl)
    then show ?thesis
      using Inl inv by (simp add: body)
  next
    case (Inr y)
    then obtain res c' where y: "x = Inr (res, c')"
      by (cases y) auto
    note a = admit_producer_locked_Inr [OF adm [unfolded y] hub_invD(1) [OF inv] k u]
    define s2 where "s2 = (if p_role_uid p \<noteq> [] then reset_confirmation k (p_role_uid p) (bump_instance (p_role_uid p) s1) else s1)"
    define s3 where "s3 = (if channel_opened res then fire [Ch_opened c'] s2 else s2)"
    define s4 where "s4 = register_role (p_role_uid p) (p_zmq_pubkey p) k ''producer'' t s3"
    define s5 where "s5 = (if channel_opened res \<and> ti_data_transport ti = ''shm''
      then set_shm_block \<lparr>sb_channel_name = k, block_path = k\<rparr> s4 else s4)"
    have "snd (on_producer_added k si ti decl p t s) = s5"
      by (simp add: body y Let_def s2_def s3_def s4_def s5_def)
    moreover have "hub_inv s5"
    proof (rule one_joins_inv [OF inv k u, of "''producer''" c' s5 "p_zmq_pubkey p" t s3])
      show "shm_wf ((channels s)(k \<mapsto> c')) (shm_blocks s5)"
      proof (cases "channels s k")
        case None
        then show ?thesis
          using shm_wf_open [OF hub_invD(5) [OF inv] None, of c'] a(4,7,8) by (simp add: s5_def s4_def s3_def s2_def split: if_splits)
      next
        case (Some c)
        then show ?thesis
          using shm_wf_upd [OF hub_invD(5) [OF inv] Some, of c'] a(4,7,8,10) by (simp add: s5_def s4_def s3_def s2_def)
      qed
    qed (use a in \<open>simp_all add: s5_def s4_def s3_def s2_def\<close>)
    ultimately show ?thesis
      by simp
  qed
qed

section \<open>Consumer operations\<close>

lemma channel_wf_add_consumer:
  assumes wf: "channel_wf k c" and u: "c_role_uid e = [] \<or> is_valid_identifier (c_role_uid e) RoleUid"
    and dupe: "dupe = (\<lambda>x. c_role_uid e \<noteq> [] \<and> c_role_uid x = c_role_uid e)"
    and card: "list_ex dupe (consumers c) \<or>
      check_cardinality (topology c) Side_Consumer (length (producers c)) (length (consumers c)) = None"
    and c': "c' = c\<lparr>consumers := filter (\<lambda>x. \<not> dupe x) (consumers c) @ [e]\<rparr>"
  shows "channel_wf k c'" "entries_of k c' = entries_of k c \<union> {(k, ''consumer'', v) | v. v \<in> set (named [c_role_uid e])}"
proof -
  have ne: "length (filter (\<lambda>x. \<not> dupe x) (consumers c)) < length (consumers c)" if "list_ex dupe (consumers c)"
    using that by (auto simp: list_ex_iff intro: length_filter_less)
  have "cardinality_ok (topology c) (length (producers c)) (length (filter (\<lambda>x. \<not> dupe x) (consumers c)) + 1)"
    using card
  proof
    assume ex: "list_ex dupe (consumers c)"
    have "cardinality_ok (topology c) (length (producers c)) (length (consumers c))"
      using wf by (simp add: channel_wf_def)
    then show ?thesis
      by (rule cardinality_mono) (use ne [OF ex] in simp_all)
  next
    assume "check_cardinality (topology c) Side_Consumer (length (producers c)) (length (consumers c)) = None"
    then have "cardinality_ok (topology c) (length (producers c)) (length (consumers c) + 1)"
      using cardinality_step(2) wf by (simp add: channel_wf_def)
    then show ?thesis
      by (rule cardinality_mono) auto
  qed
  moreover have cu: "cuids c' = filter (\<lambda>v. v \<noteq> c_role_uid e) (cuids c) @ named [c_role_uid e]"
  proof -
    have "filter (\<lambda>v. v \<noteq> []) (map c_role_uid (filter (\<lambda>x. \<not> dupe x) cs)) =
        filter (\<lambda>v. v \<noteq> c_role_uid e) (filter (\<lambda>v. v \<noteq> []) (map c_role_uid cs))" for cs
      by (induction cs) (auto simp: dupe)
    then show ?thesis
      by (simp add: c' named_def)
  qed
  moreover have "distinct (cuids c')"
  proof -
    have "distinct (cuids c)"
      using wf by (simp add: channel_wf_def)
    then show ?thesis
      unfolding cu distinct_append by (intro conjI distinct_filter) (auto simp: named_def)
  qed
  ultimately show "channel_wf k c'"
    using wf u by (auto simp: channel_wf_def c' named_def)
  show "entries_of k c' = entries_of k c \<union> {(k, ''consumer'', v) | v. v \<in> set (named [c_role_uid e])}"
    unfolding entries_of_def cu by (auto simp: c' named_def)
qed

lemma no_consumer_simps [simp]: "\<not> c_admitted no_consumer" "c_channel_opened no_consumer = False"
  by (simp_all add: no_consumer_def)

lemma add_consumer_locked_refused:
  assumes "add_consumer_locked k e decl osi oti t s = (res, s1)" and "\<not> c_admitted res"
  shows "s1 = s"
  using assms by (auto simp: add_consumer_locked_def open_channel_locked_def Let_def
    split: option.splits ChannelTopology.splits if_splits)

text \<open>An admitted consumer: a fan-in channel opened by it, or an entry of an existing channel.\<close>

lemma add_consumer_locked_admitted:
  assumes adm: "add_consumer_locked k e decl osi oti t s = (res, s1)" "c_admitted res"
    and wf: "channels_wf (channels s)" and k: "is_valid_identifier k Channel"
    and u: "c_role_uid e = [] \<or> is_valid_identifier (c_role_uid e) RoleUid"
    and shm: "shm_wf (channels s) (shm_blocks s)"
  obtains c' where "channels s1 = (channels s)(k \<mapsto> c')" "roles s1 = roles s" "bands s1 = bands s" "shm_blocks s1 = shm_blocks s"
    "schemas s1 = schemas s" "channel_wf k c'" "shm_wf ((channels s)(k \<mapsto> c')) (shm_blocks s)"
    "entries_of k c' = {x \<in> entries (channels s). fst x = k} \<union> {(k, ''consumer'', v) | v. v \<in> set (named [c_role_uid e])}"
proof (cases "channels s k")
  case None
  then obtain si ti where o: "decl = Some FanIn" "osi = Some si" "oti = Some ti"
    using adm by (auto simp: add_consumer_locked_def split: option.splits ChannelTopology.splits)
  let ?c = "(fresh_channel k si ti FanIn t)\<lparr>consumers := [e]\<rparr>"
  have tc: "transport_compatible FanIn (ti_data_transport ti)"
    using adm None o by (auto simp: add_consumer_locked_def open_channel_locked_def split: if_splits)
  then have s1: "s1 = fire [Ch_opened ?c, Cons_added k e] (upd_channel k ?c (upd_channel k (fresh_channel k si ti FanIn t) s))"
    using adm None o by (auto simp: add_consumer_locked_def open_channel_locked_def Let_def fresh_channel_def)
  have "data_transport ?c \<noteq> ''shm''"
    using tc by (auto simp: transport_compatible_def fresh_channel_def)
  then have "shm_wf ((channels s)(k \<mapsto> ?c)) (shm_blocks s)"
    using shm_wf_open [OF shm None, of ?c] by simp
  moreover have "entries_of k ?c = {x \<in> entries (channels s). fst x = k} \<union> {(k, ''consumer'', v) | v. v \<in> set (named [c_role_uid e])}"
    unfolding entries_at_None [of "channels s" k, OF None] by (simp add: entries_of_def fresh_channel_def named_def)
  ultimately show ?thesis
    using channel_wf_fresh(2) [OF k tc u refl, of si t] by (intro that [of ?c]) (simp_all add: s1)
next
  case (Some c)
  define dupe :: "ConsumerEntry \<Rightarrow> bool" where "dupe = (\<lambda>x. c_role_uid e \<noteq> [] \<and> c_role_uid x = c_role_uid e)"
  let ?c = "c\<lparr>consumers := filter (\<lambda>x. \<not> dupe x) (consumers c) @ [e]\<rparr>"
  have card: "list_ex dupe (consumers c) \<or> check_cardinality (topology c) Side_Consumer (length (producers c)) (length (consumers c)) = None"
    and s1: "s1 = fire [Cons_added k e] (upd_channel k ?c s)"
    using adm Some unfolding add_consumer_locked_def Let_def dupe_def [symmetric] by (auto split: if_splits option.splits)
  note w = channel_wf_add_consumer [OF channels_wfD [OF wf Some] u dupe_def card refl]
  show ?thesis
    using w shm_wf_upd [OF shm Some, of ?c] entries_at [of "channels s" k c, OF Some]
    by (intro that [of ?c]) (simp_all add: s1)
qed

lemma on_consumer_joined_inv:
  assumes inv: "hub_inv s"
  shows "hub_inv (snd (on_consumer_joined k e decl osi oti t s))"
proof (cases "\<not> is_valid_identifier k Channel \<or> (c_role_uid e \<noteq> [] \<and> \<not> is_valid_identifier (c_role_uid e) RoleUid)
    \<or> (case osi of None \<Rightarrow> False | Some si \<Rightarrow> si_schema_id si \<noteq> [] \<and> \<not> is_valid_identifier (si_schema_id si) Schema)")
  case True
  then show ?thesis
    using inv by (auto simp: on_consumer_joined_def)
next
  case False
  then have k: "is_valid_identifier k Channel" and u: "c_role_uid e = [] \<or> is_valid_identifier (c_role_uid e) RoleUid"
    by auto
  obtain res s1 where add: "add_consumer_locked k e decl osi oti t s = (res, s1)"
    by fastforce
  note body = on_consumer_joined_def [of k e decl osi oti t s, unfolded if_not_P [OF False] add]
  show ?thesis
  proof (cases "c_admitted res")
    case True
    obtain c' where c': "channels s1 = (channels s)(k \<mapsto> c')" "roles s1 = roles s" "bands s1 = bands s"
      "shm_blocks s1 = shm_blocks s" "schemas s1 = schemas s" "channel_wf k c'" "shm_wf ((channels s)(k \<mapsto> c')) (shm_blocks s)"
      "entries_of k c' = {x \<in> entries (channels s). fst x = k} \<union> {(k, ''consumer'', v) | v. v \<in> set (named [c_role_uid e])}"
      by (rule add_consumer_locked_admitted [OF add True hub_invD(1) [OF inv] k u hub_invD(5) [OF inv]])
    show ?thesis
      by (rule one_joins_inv [OF inv k u, of "''consumer''" c' _ "[]" t s1]) (use c' True in \<open>simp_all add: body\<close>)
  next
    case False
    then show ?thesis
      using add_consumer_locked_refused [OF add] inv by (simp add: body)
  qed
qed

text \<open>A consumer leaves: all entries with its name, and its row.\<close>

lemma remove_consumer_locked_props:
  fixes u :: string
  assumes inv: "hub_inv s" and c: "channels s k = Some c"
  defines "c' \<equiv> c\<lparr>consumers := filter (\<lambda>x. c_role_uid x \<noteq> u) (consumers c)\<rparr>"
  shows "channels (remove_consumer_locked k u s) = (channels s)(k \<mapsto> c')"
    and "roles (remove_consumer_locked k u s) = roles s" "bands (remove_consumer_locked k u s) = bands s"
    and "shm_blocks (remove_consumer_locked k u s) = shm_blocks s" "schemas (remove_consumer_locked k u s) = schemas s"
    and "channel_wf k c'" "entries_of k c' = entries_of k c - {(k, ''consumer'', u)}"
proof -
  show "channels (remove_consumer_locked k u s) = (channels s)(k \<mapsto> c')"
    "roles (remove_consumer_locked k u s) = roles s" "bands (remove_consumer_locked k u s) = bands s"
    "shm_blocks (remove_consumer_locked k u s) = shm_blocks s" "schemas (remove_consumer_locked k u s) = schemas s"
    using c by (simp_all add: remove_consumer_locked_def c'_def Let_def)
  have wf: "channel_wf k c"
    using c hub_invD(1) [OF inv] by (rule channels_wfD [rotated])
  have cu: "cuids c' = filter (\<lambda>v. v \<noteq> u) (cuids c)"
    by (simp add: c'_def named_def filter_map comp_def conj_commute)
  have "cardinality_ok (topology c) (length (producers c)) (length (consumers c))"
    using wf by (simp add: channel_wf_def)
  then have "cardinality_ok (topology c) (length (producers c)) (length (consumers c'))"
    by (rule cardinality_mono) (simp_all add: c'_def)
  then show "channel_wf k c'"
    using wf unfolding channel_wf_def cu by (auto simp: c'_def)
  show "entries_of k c' = entries_of k c - {(k, ''consumer'', u)}"
    unfolding entries_of_def cu by (auto simp: c'_def)
qed

lemma remove_consumer_locked_None: "channels s k = None \<Longrightarrow> remove_consumer_locked k u s = s"
  by (simp add: remove_consumer_locked_def)

lemma no_row_without_channel:
  assumes "hub_inv s" and "channels s k = None"
  shows "(k, rt, u) \<notin> rows (roles s)"
  using hub_invD(3) [OF assms(1)] assms(2) by (simp add: entries_iff)

lemma on_consumer_left_inv:
  assumes inv: "hub_inv s"
  shows "hub_inv (on_consumer_left k u t s)"
proof (cases "\<not> is_valid_identifier k Channel \<or> (u \<noteq> [] \<and> \<not> is_valid_identifier u RoleUid)")
  case True
  then show ?thesis
    using inv by (auto simp: on_consumer_left_def)
next
  case False
  note body = on_consumer_left_def [of k u t s, unfolded if_not_P [OF False]]
  show ?thesis
  proof (cases "channels s k")
    case None
    note e = end_presence_wf [OF inv refl, where k = k and rt = "''consumer''" and u = u]
    have "hub_inv (end_presence k ''consumer'' u s)"
      using hub_invD [OF inv] e no_row_without_channel [OF inv None, of "''consumer''" u] by (intro hub_invI) simp_all
    then show ?thesis
      using inv None by (simp add: body remove_consumer_locked_None dispatch_inv)
  next
    case (Some c)
    let ?s = "remove_consumer_locked k u s"
    note p = remove_consumer_locked_props [OF inv Some, of u]
    have named: "hub_inv (end_presence k ''consumer'' u ?s)"
      using end_presence_wf [OF inv p(2)] p(6,7) by (intro one_leaves_inv [OF inv Some]) (simp_all add: p(1-5))
    have absent: "hub_inv ?s" if "roles ?s u = None"
    proof (rule one_leaves_inv [OF inv Some p(6) _ p(7) p(1,3,4,5)])
      show "rows (roles ?s) = rows (roles s) - {(k, ''consumer'', u)}"
        using that p(2) by (auto simp: rows_def)
    qed (use hub_invD(2) [OF inv] p(2) in simp_all)
    have "roles s [] = None"
      using roles_slackD [OF hub_invD(2) [OF inv], of "[]"]
      by (cases "roles s []") (auto simp: role_wf_def parse_role_uid_def is_valid_identifier_def)
    then show ?thesis
      using named absent p(2) by (auto simp: body Let_def dispatch_inv)
  qed
qed

section \<open>Heartbeats\<close>

lemma role_wf_update_rows:
  assumes wf: "role_wf {} u r" and f: "\<And>p. row_key (f p) = row_key p" "\<And>p. pr_state p \<noteq> Disconnected \<Longrightarrow> pr_state (f p) \<noteq> Disconnected"
  shows "role_wf {} u (r\<lparr>presences := update_first P f (presences r)\<rparr>)"
proof -
  have keys: "map row_key (update_first P f (presences r)) = row_keys r"
    by (rule map_update_first) (rule f(1))
  have types: "pr_role_type (f p) = pr_role_type p" for p
    using f(1) [of p] by (simp add: row_key_def)
  have "pr_role_type p \<in> {''producer'', ''consumer''} \<and> pr_state p \<noteq> Disconnected" if "p \<in> set (update_first P f (presences r))" for p
  proof -
    have old: "pr_role_type q \<in> {''producer'', ''consumer''} \<and> pr_state q \<noteq> Disconnected" if "q \<in> set (presences r)" for q
      using wf that by (simp add: role_wf_def)
    from that set_update_first [of P f "presences r"] consider "p \<in> set (presences r)" | q where "q \<in> set (presences r)" "p = f q"
      by blast
    then show ?thesis
      using old f(2) by cases (simp_all add: types)
  qed
  then show ?thesis
    using wf keys unfolding role_wf_def channel_of_rows by simp
qed

lemma role_update_inv:
  assumes inv: "hub_inv s" and r: "roles s u = Some r" and wf: "role_wf {} u r'" and keys: "row_keys r' = row_keys r"
  shows "hub_inv (upd_role u r' s)"
proof (rule hub_invI)
  show "roles_wf (roles (upd_role u r' s))"
    using roles_wf_upd [OF hub_invD(2) [OF inv] wf] by simp
  show "rows (roles (upd_role u r' s)) = entries (channels (upd_role u r' s))"
    using rows_upd_same [of "roles s" u r r', OF r keys] hub_invD(3) [OF inv] by simp
  have "insert u (dom (roles s)) = dom (roles s)"
    using r by auto
  then show "bands_wf (bands (upd_role u r' s)) (dom (roles (upd_role u r' s)))"
    using hub_invD(4) [OF inv] by simp
qed (use hub_invD [OF inv] in simp_all)

lemma hub_on_heartbeat_inv:
  assumes inv: "hub_inv s"
  shows "hub_inv (snd (hub_on_heartbeat k u rt when m t s))"
proof -
  have step: "hub_inv (upd_role u (set_metrics k rt m n (snd (on_heartbeat k rt when r))) s)"
    if r: "roles s u = Some r" for r n
  proof (rule role_update_inv [OF inv r])
    have hb: "row_key (heartbeat_row when p) = row_key p" "pr_state (heartbeat_row when p) \<noteq> Disconnected" for p
      by (simp_all add: heartbeat_row_def row_key_def Let_def)
    have wf: "role_wf {} u r"
      using roles_slackD [OF hub_invD(2) [OF inv] r] by simp
    have "role_wf {} u (snd (on_heartbeat k rt when r))"
      using wf role_wf_update_rows [OF wf hb] by (simp add: on_heartbeat_def split: option.split)
    from role_wf_update_rows [OF this] show "role_wf {} u (set_metrics k rt m n (snd (on_heartbeat k rt when r)))"
      using \<open>role_wf {} u (snd (on_heartbeat k rt when r))\<close> by (simp add: set_metrics_def row_key_def split: option.split)
    show "row_keys (set_metrics k rt m n (snd (on_heartbeat k rt when r))) = row_keys r"
    proof -
      have "row_keys (set_metrics k rt m n q) = row_keys q" for q
        by (simp add: set_metrics_def map_update_first row_key_def split: option.split)
      then show ?thesis
        by (simp add: on_heartbeat_def map_update_first [where key = row_key, OF hb(1)] split: option.split)
    qed
  qed
  then show ?thesis
    using inv by (auto simp: hub_on_heartbeat_def Let_def case_prod_beta split: option.split)
qed

lemma hub_on_heartbeat_timeout_inv:
  assumes inv: "hub_inv s"
  shows "hub_inv (hub_on_heartbeat_timeout k u rt t s)"
proof -
  have step: "hub_inv (upd_role u (snd (on_heartbeat_timeout k rt n r)) s)" if r: "roles s u = Some r" for r n
  proof (rule role_update_inv [OF inv r])
    have wf: "role_wf {} u r"
      using roles_slackD [OF hub_invD(2) [OF inv] r] by simp
    show "role_wf {} u (snd (on_heartbeat_timeout k rt n r))"
      using wf role_wf_update_rows [OF wf] by (simp add: on_heartbeat_timeout_def row_key_def split: option.split)
    show "row_keys (snd (on_heartbeat_timeout k rt n r)) = row_keys r"
      by (simp add: on_heartbeat_timeout_def map_update_first row_key_def split: option.split)
  qed
  then show ?thesis
    using inv by (auto simp: hub_on_heartbeat_timeout_def Let_def case_prod_beta split: option.split)
qed

end
