(* ===== verification/Hub_Reach.thy ===== *)
theory Hub_Reach
  imports Hub_Invariant
begin

text \<open>
  The hub state as a state machine: one rule per operation that the broker calls, with arbitrary
  arguments, and what holds in every reachable state.
\<close>

section \<open>The remaining operations\<close>

lemma bands_wf_update:
  assumes "bands_wf bs U" and "is_valid_identifier k Band" and "band_name b = k" and "members b \<noteq> []"
    and "distinct (map bm_role_uid (members b))" and "\<And>m. m \<in> set (members b) \<Longrightarrow> bm_role_uid m \<noteq> [] \<Longrightarrow> bm_role_uid m \<in> U"
  shows "bands_wf (AList.update k b bs) U"
proof -
  have "(k', b') \<in> set bs \<or> (k', b') = (k, b)" if "(k', b') \<in> set (AList.update k b bs)" for k' b'
    using that by (induction bs) (auto split: if_splits)
  then show ?thesis
    using assms unfolding bands_wf_def by (fastforce intro: distinct_update)
qed

lemma bands_wfD:
  assumes "bands_wf bs U" and "map_of bs k = Some b"
  shows "band_name b = k" "is_valid_identifier k Band" "members b \<noteq> []" "distinct (map bm_role_uid (members b))"
    "\<And>m. m \<in> set (members b) \<Longrightarrow> bm_role_uid m \<noteq> [] \<Longrightarrow> bm_role_uid m \<in> U"
  using assms map_of_SomeD [OF assms(2)] by (auto simp: bands_wf_def)

lemma bands_inv:
  assumes "hub_inv s" and "bands_wf bs (dom (roles s))"
  shows "hub_inv (s\<lparr>bands := bs\<rparr>)"
  using assms by (simp add: hub_inv_def)

lemma on_band_joined_inv:
  assumes inv: "hub_inv s"
  shows "hub_inv (on_band_joined k m t s)"
proof (cases "\<not> is_valid_identifier k Band \<or> (bm_role_uid m \<noteq> [] \<and> \<not> is_valid_identifier (bm_role_uid m) RoleUid)")
  case True
  then show ?thesis
    using inv by (auto simp: on_band_joined_def)
next
  case False
  then have k: "is_valid_identifier k Band" and u: "bm_role_uid m = [] \<or> is_valid_identifier (bm_role_uid m) RoleUid"
    by auto
  note body = on_band_joined_def [of k m t s, unfolded if_not_P [OF False]]
  let ?s = "set_band_joined k m t s"
  let ?s' = "register_role (bm_role_uid m) [] [] [] t ?s"
  have frame: "channels ?s = channels s" "roles ?s = roles s" "shm_blocks ?s = shm_blocks s" "schemas ?s = schemas s"
    by (simp_all add: set_band_joined_def Let_def)
  have "roles_wf (roles ?s)"
    using hub_invD(2) [OF inv] frame by simp
  note reg = register_role_nochannel [OF this u, of "[]" "[]" t]
  note i = hub_invD [OF inv]
  define b where "b = (case map_of (bands s) k of
      None \<Rightarrow> \<lparr>band_name = [], members = [], band_created_at = steady t, last_activity = steady t\<rparr> | Some b \<Rightarrow> b)"
  define b2 where "b2 = (if band_name b = [] then b\<lparr>band_name := k\<rparr> else b)
    \<lparr>members := filter (\<lambda>x. bm_role_uid x \<noteq> bm_role_uid m) (members b) @ [m], last_activity := steady t\<rparr>"
  have b: "band_name b = k \<or> band_name b = []" "distinct (map bm_role_uid (members b))"
    "\<And>x. x \<in> set (members b) \<Longrightarrow> bm_role_uid x \<noteq> [] \<Longrightarrow> bm_role_uid x \<in> dom (roles s)"
    using bands_wfD [OF i(4), of k] by (auto simp: b_def split: option.splits)
  have "bands ?s = AList.update k b2 (bands s)"
    by (simp add: set_band_joined_def Let_def b_def b2_def)
  moreover have "bands_wf (AList.update k b2 (bands s)) (dom (roles s) \<union> set (named [bm_role_uid m]))"
  proof (rule bands_wf_update [OF _ k])
    show "bands_wf (bands s) (dom (roles s) \<union> set (named [bm_role_uid m]))"
      using i(4) by (rule bands_wf_mono) blast
    show "bm_role_uid x \<in> dom (roles s) \<union> set (named [bm_role_uid m])" if "x \<in> set (members b2)" "bm_role_uid x \<noteq> []" for x
      using that b(3) by (auto simp: b2_def named_def)
    show "distinct (map bm_role_uid (members b2))"
      using b(2) by (auto simp: b2_def distinct_map_filter)
  qed (use b(1) in \<open>auto simp: b2_def\<close>)
  ultimately have "hub_inv ?s'"
    using i reg frame by (intro hub_invI) simp_all
  then show ?thesis
    by (simp add: body)
qed

lemma on_band_left_inv:
  assumes inv: "hub_inv s"
  shows "hub_inv (on_band_left k u t s)"
proof -
  note i = hub_invD [OF inv]
  have "hub_inv (s\<lparr>bands := AList.update k (b\<lparr>members := m, last_activity := n\<rparr>) (bands s)\<rparr>)"
    if "map_of (bands s) k = Some b" "m = filter (\<lambda>x. bm_role_uid x \<noteq> u) (members b)" "m \<noteq> []" for b m n
    using bands_wfD [OF i(4) that(1)] that(2,3)
    by (intro bands_inv [OF inv] bands_wf_update [OF i(4)]) (auto simp: distinct_map_filter)
  moreover have "hub_inv (s\<lparr>bands := AList.delete k (bands s)\<rparr>)"
  proof (rule bands_inv [OF inv])
    show "bands_wf (AList.delete k (bands s)) (dom (roles s))"
      using i(4) unfolding bands_wf_def by (auto simp: AList.delete_eq distinct_map_filter)
  qed
  ultimately show ?thesis
    using inv by (auto simp: on_band_left_def set_band_left_def Let_def split: option.splits)
qed

lemma peer_inv:
  assumes "hub_inv s"
  shows "hub_inv (on_peer_connected p t s)" "hub_inv (on_peer_disconnected u s)"
proof -
  have "hub_inv (s\<lparr>peers := m\<rparr>)" for m
    using assms by (simp add: hub_inv_def)
  then show "hub_inv (on_peer_connected p t s)" "hub_inv (on_peer_disconnected u s)"
    using assms by (simp_all add: on_peer_connected_def set_peer_connected_def on_peer_disconnected_def set_peer_disconnected_def
      Let_def split: option.split)
qed

lemma access_inv:
  assumes "hub_inv s"
  shows "hub_inv (on_channel_access_opened k s)" "hub_inv (on_channel_access_closed k s)"
    "hub_inv (on_consumer_authorized k pk s)" "hub_inv (on_consumer_revoked k pk s)"
    "hub_inv (snd (on_role_confirmed k u v s))"
proof -
  have idx: "hub_inv (s\<lparr>channel_access_index := m\<rparr>)" for m
    using assms by (simp add: hub_inv_def)
  show "hub_inv (on_channel_access_opened k s)" "hub_inv (on_channel_access_closed k s)"
    "hub_inv (on_consumer_authorized k pk s)" "hub_inv (on_consumer_revoked k pk s)"
    "hub_inv (snd (on_role_confirmed k u v s))"
    using assms idx by (simp_all add: on_channel_access_opened_def on_channel_access_closed_def on_consumer_authorized_def
      on_consumer_revoked_def on_role_confirmed_def case_prod_beta split: option.split)
qed

lemma counter_inv:
  assumes "hub_inv s"
  shows "hub_inv (bump_counter key n s)" "hub_inv (bump_msg_type_error key n s)" "hub_inv (on_message_processed key a b s)"
    "hub_inv (snd (validate_schema_citation i s))" "hub_inv (snd (nonce_seen u nn w now s))"
  using assms by (simp_all add: bump_counter_def bump_msg_type_error_def on_message_processed_def validate_schema_citation_def
    nonce_seen_def case_prod_beta Let_def) (simp add: hub_inv_def)

text \<open>Endpoint updates keep names, transport and topology of a channel.\<close>

lemma channel_update_inv:
  assumes inv: "hub_inv s" and c: "channels s k = Some c"
    and c': "ch_name c' = ch_name c" "topology c' = topology c" "data_transport c' = data_transport c"
      "map p_role_uid (producers c') = map p_role_uid (producers c)" "consumers c' = consumers c"
  shows "hub_inv (upd_channel k c' s)"
proof (rule hub_invI)
  note i = hub_invD [OF inv]
  have "length (producers c') = length (producers c)"
    using c'(4) map_eq_imp_length_eq by blast
  then have "channel_wf k c'"
    using channels_wfD [OF i(1) c] c' by (simp add: channel_wf_def)
  then show "channels_wf (channels (upd_channel k c' s))"
    using i(1) by (simp add: channels_wf_upd)
  have "entries ((channels s)(k \<mapsto> c')) = entries (channels s)"
    by (rule entries_upd_same [of "channels s" k c, OF c]) (simp add: entries_of_def c')
  then show "rows (roles (upd_channel k c' s)) = entries (channels (upd_channel k c' s))"
    using i(3) by simp
  show "shm_wf (channels (upd_channel k c' s)) (shm_blocks (upd_channel k c' s))"
    using shm_wf_upd [OF i(5) c c'(3)] by simp
qed (use hub_invD [OF inv] in simp_all)

lemma endpoint_inv:
  assumes "hub_inv s"
  shows "hub_inv (snd (hub_set_producer_zmq_node_endpoint k u ep s))" "hub_inv (snd (hub_set_channel_data_endpoint k ep s))"
  using assms by (auto simp: hub_set_producer_zmq_node_endpoint_def hub_set_channel_data_endpoint_def set_data_endpoint_def
    set_producer_zmq_node_endpoint_def upd_producer_def map_update_first intro!: channel_update_inv split: option.splits)

lemma schema_inv:
  assumes inv: "hub_inv s"
  shows "hub_inv (snd (on_schema_registered r t s))" "hub_inv (snd (on_schemas_evicted_for_owner o' s))"
proof -
  have reg: "schemas_wf (AList.update (sr_owner_uid r, sr_schema_id r) (r\<lparr>registered_at := n\<rparr>) (schemas s))"
    if "sr_owner_uid r \<noteq> []" "sr_schema_id r \<noteq> []" "has_datablock r \<or> has_flexzone r"
      "has_datablock r \<longrightarrow> packing r \<noteq> []" "has_flexzone r \<longrightarrow> flexzone_packing r \<noteq> []" for n
  proof -
    have "e \<in> set ss \<or> e = (x, y)" if "e \<in> set (AList.update x y ss)" for e x y and ss :: "((string \<times> string) \<times> SchemaRecord) list"
      using that by (induction ss) (auto split: if_splits)
    moreover have "schema_wf (sr_owner_uid r, sr_schema_id r) (r\<lparr>registered_at := n\<rparr>)"
      using that by (simp add: schema_wf_def has_datablock_def has_flexzone_def)
    ultimately show ?thesis
      using hub_invD(6) [OF inv] unfolding schemas_wf_def by (fastforce intro: distinct_update)
  qed
  show "hub_inv (snd (on_schema_registered r t s))"
    using inv reg by (auto simp: on_schema_registered_def hub_inv_def split: option.split)
  show "hub_inv (snd (on_schemas_evicted_for_owner o' s))"
    using inv by (simp add: on_schemas_evicted_for_owner_def evict_schemas_def hub_inv_def Let_def schemas_wf_filter)
qed

section \<open>Steps\<close>

inductive hub_step :: "HubState \<Rightarrow> HubState \<Rightarrow> bool" where
  hs_producer_added: "hub_step s (snd (on_producer_added k si ti decl p t s))"
| hs_producer_dropped: "hub_step s (snd (on_producer_dropped k u why t s))"
| hs_channel_closed: "hub_step s (on_channel_closed k why t s)"
| hs_consumer_joined: "hub_step s (snd (on_consumer_joined k e decl osi oti t s))"
| hs_consumer_left: "hub_step s (on_consumer_left k u t s)"
| hs_heartbeat: "hub_step s (snd (hub_on_heartbeat k u rt when m t s))"
| hs_heartbeat_timeout: "hub_step s (hub_on_heartbeat_timeout k u rt t s)"
| hs_pending_timeout: "hub_step s (snd (hub_on_pending_timeout k u rt t s))"
| hs_dispatch: "hub_step s (dispatch_role_disconnected_if_dead u t s)"
| hs_band_joined: "hub_step s (on_band_joined k m t s)"
| hs_band_left: "hub_step s (on_band_left k u t s)"
| hs_peer_connected: "hub_step s (on_peer_connected pe t s)"
| hs_peer_disconnected: "hub_step s (on_peer_disconnected u s)"
| hs_access_opened: "hub_step s (on_channel_access_opened k s)"
| hs_access_closed: "hub_step s (on_channel_access_closed k s)"
| hs_authorized: "hub_step s (on_consumer_authorized k pk s)"
| hs_revoked: "hub_step s (on_consumer_revoked k pk s)"
| hs_confirmed: "hub_step s (snd (on_role_confirmed k u v s))"
| hs_producer_endpoint: "hub_step s (snd (hub_set_producer_zmq_node_endpoint k u ep s))"
| hs_data_endpoint: "hub_step s (snd (hub_set_channel_data_endpoint k ep s))"
| hs_schema_registered: "hub_step s (snd (on_schema_registered r t s))"
| hs_schemas_evicted: "hub_step s (snd (on_schemas_evicted_for_owner u s))"
| hs_citation: "hub_step s (snd (validate_schema_citation i s))"
| hs_message: "hub_step s (on_message_processed key a b s)"
| hs_counter: "hub_step s (bump_counter key n s)"
| hs_error: "hub_step s (bump_msg_type_error key n s)"
| hs_nonce: "hub_step s (snd (nonce_seen u nn w now s))"

abbreviation hub_reachable :: "HubState \<Rightarrow> bool" where
  "hub_reachable \<equiv> reach (\<lambda>s. s = empty_hub) hub_step"

lemma hub_step_inv: "hub_step s s' \<Longrightarrow> hub_inv s \<Longrightarrow> hub_inv s'"
  by (induction rule: hub_step.induct) (simp_all only: on_producer_added_inv on_producer_dropped_inv on_channel_closed_inv
    on_consumer_joined_inv on_consumer_left_inv hub_on_heartbeat_inv hub_on_heartbeat_timeout_inv hub_on_pending_timeout_inv
    dispatch_inv on_band_joined_inv on_band_left_inv peer_inv access_inv endpoint_inv schema_inv counter_inv)

lemma empty_hub_inv: "hub_inv empty_hub"
  by (simp add: hub_inv_def empty_hub_def channels_wf_def roles_slack_def rows_def entries_def bands_wf_def shm_wf_def schemas_wf_def)

interpretation hub: inductive_invariant "\<lambda>s. s = empty_hub" hub_step hub_inv
  by unfold_locales (auto intro: empty_hub_inv hub_step_inv)

section \<open>Well-formedness, consistency and cardinality\<close>

text \<open>C14: every value stored in a reachable hub state has its type. A channel entry is stored under its
  own valid name, with a transport its topology supports; a role entry under its valid uid, with the
  name and tag parsed from it and rows of the two known types that are never Disconnected, one per
  channel and type; a band under its valid name, with members, at most once each; a schema record
  under its owner and id, with packing for each zone it has.\<close>

theorem hub_state_well_formed:
  assumes "hub_reachable s"
  shows "(\<forall>k c. channels s k = Some c \<longrightarrow> ch_name c = k \<and> is_valid_identifier k Channel
      \<and> transport_compatible (topology c) (data_transport c))
    \<and> (\<forall>u r. roles s u = Some r \<longrightarrow> role_uid r = u
      \<and> (\<exists>p. parse_role_uid u = Some p \<and> role_name r = tu_name p \<and> short_tag r = tag p)
      \<and> distinct (map (\<lambda>p. (pr_channel p, pr_role_type p)) (presences r))
      \<and> (\<forall>p\<in>set (presences r). pr_role_type p \<in> {''producer'', ''consumer''} \<and> pr_state p \<noteq> Disconnected))
    \<and> (\<forall>k b. map_of (bands s) k = Some b \<longrightarrow> band_name b = k \<and> is_valid_identifier k Band \<and> members b \<noteq> []
      \<and> distinct (map bm_role_uid (members b)))
    \<and> (\<forall>ow i r. map_of (schemas s) (ow, i) = Some r \<longrightarrow> sr_owner_uid r = ow \<and> sr_schema_id r = i
      \<and> (has_datablock r \<or> has_flexzone r) \<and> (has_datablock r \<longrightarrow> packing r \<noteq> []) \<and> (has_flexzone r \<longrightarrow> flexzone_packing r \<noteq> []))"
proof (intro conjI allI impI)
  note i = hub_invD [OF hub.reach_inv [OF assms]]
  show "ch_name c = k" "is_valid_identifier k Channel" "transport_compatible (topology c) (data_transport c)"
    if "channels s k = Some c" for k c
    using channels_wfD [OF i(1) that] by (simp_all add: channel_wf_def)
  fix u r
  assume "roles s u = Some r"
  then have wf: "role_wf {} u r"
    using roles_slackD [OF i(2)] by fastforce
  show "role_uid r = u" "\<exists>p. parse_role_uid u = Some p \<and> role_name r = tu_name p \<and> short_tag r = tag p"
    "\<forall>p\<in>set (presences r). pr_role_type p \<in> {''producer'', ''consumer''} \<and> pr_state p \<noteq> Disconnected"
    using wf by (simp_all add: role_wf_def)
  have "(\<lambda>p. (pr_channel p, pr_role_type p)) = row_key"
    by (simp add: row_key_def fun_eq_iff)
  then show "distinct (map (\<lambda>p. (pr_channel p, pr_role_type p)) (presences r))"
    using wf by (simp add: role_wf_def)
next
  note i = hub_invD [OF hub.reach_inv [OF assms]]
  show "band_name b = k" "is_valid_identifier k Band" "members b \<noteq> []" "distinct (map bm_role_uid (members b))"
    if "map_of (bands s) k = Some b" for k b
    using bands_wfD [OF i(4) that] by blast+
  fix ow i r
  assume "map_of (schemas s) (ow, i) = Some r"
  then have "schema_wf (ow, i) r"
    using hub_invD(6) [OF hub.reach_inv [OF assms]] by (auto simp: schemas_wf_def dest: map_of_SomeD)
  then show "sr_owner_uid r = ow" "sr_schema_id r = i" "has_datablock r \<or> has_flexzone r"
    "has_datablock r \<Longrightarrow> packing r \<noteq> []" "has_flexzone r \<Longrightarrow> flexzone_packing r \<noteq> []"
    by (simp_all add: schema_wf_def)
qed

text \<open>C11: the maps of a reachable hub state agree. A named role is registered on a channel as producer or
  consumer exactly when the role has a presence row for it; the channel cache of a role lists exactly
  the channels of its rows, once each; every named band member is a registered role; and a
  shared-memory block is recorded exactly for the channels with shared-memory transport.\<close>

theorem hub_presence_consistent:
  assumes "hub_reachable s"
  shows "(\<forall>k u rt. u \<noteq> [] \<longrightarrow> (is_role_registered_on_channel k u rt s \<longleftrightarrow>
        (\<exists>r. roles s u = Some r \<and> find_presence k rt r \<noteq> None)))
    \<and> (\<forall>u r. roles s u = Some r \<longrightarrow> set (role_channels r) = pr_channel ` set (presences r) \<and> distinct (role_channels r))
    \<and> (\<forall>k b m. map_of (bands s) k = Some b \<and> m \<in> set (members b) \<and> bm_role_uid m \<noteq> [] \<longrightarrow> roles s (bm_role_uid m) \<noteq> None)
    \<and> (\<forall>k. shm_blocks s k \<noteq> None \<longleftrightarrow> (\<exists>c. channels s k = Some c \<and> data_transport c = ''shm''))"
proof (intro conjI allI impI)
  note i = hub_invD [OF hub.reach_inv [OF assms]]
  fix k u rt :: string
  assume u: "u \<noteq> []"
  have "is_role_registered_on_channel k u rt s \<longleftrightarrow> (k, rt, u) \<in> entries (channels s)"
  proof (cases "channels s k")
    case (Some c)
    have "is_valid_identifier k Channel"
      using channels_wfD [OF i(1) Some] by (simp add: channel_wf_def)
    then show ?thesis
      using Some u by (auto simp: is_role_registered_on_channel_def entries_iff entries_of_def named_def list_ex_iff)
  qed (simp add: is_role_registered_on_channel_def entries_iff)
  also have "\<dots> \<longleftrightarrow> (k, rt, u) \<in> rows (roles s)"
    using i(3) by simp
  also have "\<dots> \<longleftrightarrow> (\<exists>r. roles s u = Some r \<and> find_presence k rt r \<noteq> None)"
    using find_presence_None by (auto simp: rows_def)
  finally show "is_role_registered_on_channel k u rt s \<longleftrightarrow> (\<exists>r. roles s u = Some r \<and> find_presence k rt r \<noteq> None)" .
next
  note i = hub_invD [OF hub.reach_inv [OF assms]]
  show "set (role_channels r) = pr_channel ` set (presences r)" "distinct (role_channels r)" if "roles s u = Some r" for u r
    using roles_slackD [OF i(2) that] by (auto simp: role_wf_def)
  show "roles s (bm_role_uid m) \<noteq> None" if "map_of (bands s) k = Some b \<and> m \<in> set (members b) \<and> bm_role_uid m \<noteq> []" for k b m
    using bands_wfD(5) [OF i(4), of k b m] that by auto
  show "shm_blocks s k \<noteq> None \<longleftrightarrow> (\<exists>c. channels s k = Some c \<and> data_transport c = ''shm'')" for k
    using i(5) by (auto simp: shm_wf_def split: option.splits if_splits)
qed

text \<open>C12: no reachable state exceeds the cardinality of a topology. A fan-in channel has at most one
  consumer and never uses shared memory, a fan-out channel has at most one producer, a one-to-one
  channel at most one of each, and no named role is twice among the producers or the consumers.\<close>

theorem topology_cardinality_safe:
  assumes "hub_reachable s" and "channels s k = Some c"
  shows "(topology c = FanIn \<longrightarrow> length (consumers c) \<le> 1 \<and> data_transport c = ''zmq'')
    \<and> (topology c = FanOut \<longrightarrow> length (producers c) \<le> 1)
    \<and> (topology c = OneToOne \<longrightarrow> length (producers c) \<le> 1 \<and> length (consumers c) \<le> 1)
    \<and> distinct (filter (\<lambda>u. u \<noteq> []) (map p_role_uid (producers c)))
    \<and> distinct (filter (\<lambda>u. u \<noteq> []) (map c_role_uid (consumers c)))"
  using channels_wfD [OF hub_invD(1) [OF hub.reach_inv [OF assms(1)]] assms(2)]
  by (cases "topology c") (auto simp: channel_wf_def named_def transport_compatible_def split: if_splits)

section \<open>Teardown of a channel\<close>

definition dead_roles :: "HubState \<Rightarrow> string set" where
  "dead_roles s = {u. \<exists>r. roles s u = Some r \<and> presences r = []}"

lemma dispatch_dead:
  "channels (dispatch_role_disconnected_if_dead u t s) = channels s"
  "shm_blocks (dispatch_role_disconnected_if_dead u t s) = shm_blocks s"
  "roles (dispatch_role_disconnected_if_dead u t s) = (if u \<in> dead_roles s then (roles s)(u := None) else roles s)"
  "schemas (dispatch_role_disconnected_if_dead u t s) =
     (if u \<in> dead_roles s then filter (\<lambda>e. fst (fst e) \<noteq> u) (schemas s) else schemas s)"
  by (auto simp: dispatch_role_disconnected_if_dead_def dead_roles_def any_presence_alive_def split: option.split)

definition in_band :: "string \<Rightarrow> HubState \<Rightarrow> bool" where
  "in_band u s \<longleftrightarrow> (\<exists>k b m. (k, b) \<in> set (bands s) \<and> m \<in> set (members b) \<and> bm_role_uid m = u)"

lemma dispatch_band:
  assumes "in_band u (dispatch_role_disconnected_if_dead v t s)"
  shows "in_band u s" "v \<in> dead_roles s \<Longrightarrow> u \<noteq> v"
  using assms by (auto simp: dispatch_role_disconnected_if_dead_def in_band_def dead_roles_def any_presence_alive_def
    erase_role_bands split: option.splits if_splits) blast

lemma dead_roles_dispatch: "dead_roles (dispatch_role_disconnected_if_dead v t s) = dead_roles s - {v}"
  by (auto simp: dispatch_dead dead_roles_def)

abbreviation dispatch_all :: "instant \<Rightarrow> string list \<Rightarrow> HubState \<Rightarrow> HubState" where
  "dispatch_all t \<equiv> fold (\<lambda>u. dispatch_role_disconnected_if_dead u t)"

lemma dispatch_all_frame:
  "channels (dispatch_all t us s) = channels s" "shm_blocks (dispatch_all t us s) = shm_blocks s"
  by (induction us arbitrary: s) (simp_all add: dispatch_dead)

lemma dispatch_all_roles: "roles (dispatch_all t us s) u = (if u \<in> set us \<inter> dead_roles s then None else roles s u)"
  by (induction us arbitrary: s) (auto simp: dispatch_dead dead_roles_dispatch)

lemma dispatch_all_schemas: "schemas (dispatch_all t us s) = filter (\<lambda>e. fst (fst e) \<notin> set us \<inter> dead_roles s) (schemas s)"
proof (induction us arbitrary: s)
  case (Cons v us)
  show ?case
    by (simp add: Cons dispatch_dead dead_roles_dispatch) (auto intro: filter_cong)
qed simp

lemma dispatch_all_band: "in_band u (dispatch_all t us s) \<Longrightarrow> in_band u s \<and> u \<notin> set us \<inter> dead_roles s"
proof (induction us arbitrary: s)
  case (Cons v us)
  then show ?case
    using Cons.IH [of "dispatch_role_disconnected_if_dead v t s"] dispatch_band [of u v t s] by (auto simp: dead_roles_dispatch)
qed simp

text \<open>The state before the roles are dispatched.\<close>

lemma close_before_dispatch:
  assumes inv: "hub_inv s" and c: "channels s k = Some c"
  obtains s5 where "on_channel_closed k why t s = dispatch_all t (puids c @ cuids c) s5"
    "channels s5 = (channels s)(k := None)" "shm_blocks s5 k = None" "dom (roles s5) = dom (roles s)"
proof -
  note i = hub_invD [OF inv]
  have k: "is_valid_identifier k Channel"
    using channels_wfD [OF i(1) c] by (simp add: channel_wf_def)
  define s3 where "s3 = fold (end_presence k ''consumer'') (cuids c) (fold (end_presence k ''producer'') (puids c) (set_channel_closed k s))"
  have "roles_slack k {} (roles (set_channel_closed k s))"
    using i(2) by (auto intro: roles_slack_empty)
  note a = fold_end_presence_props [OF this, where us = "puids c" and rt = "''producer''"]
  have "dom (roles s3) = dom (roles s)"
    using fold_end_presence_props(3) [OF a(1) [unfolded empty_Diff], where us = "cuids c" and rt = "''consumer''"] a(3)
    by (simp add: s3_def)
  then show ?thesis
    by (intro that [of "bump_counter (''close:'' @ close_reason_to_string why) 1 (s3\<lparr>shm_blocks := (shm_blocks s3)(k := None)\<rparr>)"]
        on_channel_closed_eq [OF k c s3_def]) (simp_all add: s3_def)
qed

text \<open>C13: closing a channel removes it and nothing else of the directory. The other channels stay, the
  rows of the roles are those of the other channels, and the shared-memory block goes. Each named
  producer and consumer of the channel keeps its role entry exactly when it has a row on another
  channel; otherwise its entry, its schema records and its band memberships are gone.\<close>

theorem channel_teardown_complete:
  assumes "hub_reachable s" and "channels s k = Some c"
    and "u \<in> set (map p_role_uid (producers c)) \<union> set (map c_role_uid (consumers c))" and "u \<noteq> []"
  shows "let s' = on_channel_closed k why t s in
    channels s' = (channels s)(k := None)
    \<and> shm_blocks s' k = None
    \<and> rows (roles s') = {(k', rt, v) \<in> rows (roles s). k' \<noteq> k}
    \<and> (roles s' u \<noteq> None \<longleftrightarrow> (\<exists>k' rt. k' \<noteq> k \<and> (k', rt, u) \<in> rows (roles s)))
    \<and> (roles s' u = None \<longrightarrow> \<not> in_band u s' \<and> (\<forall>i. map_of (schemas s') (u, i) = None))"
proof -
  have inv: "hub_inv s"
    by (rule hub.reach_inv [OF assms(1)])
  note i = hub_invD [OF inv]
  obtain s5 where s5: "on_channel_closed k why t s = dispatch_all t (puids c @ cuids c) s5"
    "channels s5 = (channels s)(k := None)" "shm_blocks s5 k = None" "dom (roles s5) = dom (roles s)"
    by (rule close_before_dispatch [OF inv assms(2)])
  define s' where "s' = on_channel_closed k why t s"
  have u: "u \<in> set (puids c @ cuids c)"
    using assms(3,4) by (auto simp: named_def)
  have ch: "channels s' = (channels s)(k := None)" and shm: "shm_blocks s' k = None"
    unfolding s'_def s5(1) by (simp_all add: dispatch_all_frame s5(2,3))
  have rows: "rows (roles s') = {x \<in> rows (roles s). fst x \<noteq> k}"
    using hub_invD(3) [OF on_channel_closed_inv [OF inv], of k why t, folded s'_def] i(3) by (simp add: ch entries_erase)
  have "\<exists>rt. (k, rt, u) \<in> rows (roles s)"
    unfolding i(3) entries_iff using assms(2) u by (auto simp: entries_of_def)
  then have "u \<in> dom (roles s5)"
    unfolding s5(4) by (auto simp: rows_def)
  then have alive: "roles s' u \<noteq> None \<longleftrightarrow> u \<notin> dead_roles s5"
    unfolding s'_def s5(1) dispatch_all_roles using u by auto
  have "roles s' u \<noteq> None \<longleftrightarrow> (\<exists>k' rt. (k', rt, u) \<in> rows (roles s'))"
  proof
    assume "roles s' u \<noteq> None"
    then obtain r where r: "roles s' u = Some r" "roles s5 u = Some r" "presences r \<noteq> []"
      using alive unfolding s'_def s5(1) dispatch_all_roles by (auto simp: dead_roles_def split: if_splits)
    then show "\<exists>k' rt. (k', rt, u) \<in> rows (roles s')"
      by (cases "presences r") (auto simp: rows_def row_key_def)
  qed (auto simp: rows_def)
  moreover have "\<not> in_band u s' \<and> (\<forall>i. map_of (schemas s') (u, i) = None)" if "u \<in> dead_roles s5"
    using that u dispatch_all_band [of u t "puids c @ cuids c" s5] unfolding s'_def s5(1) dispatch_all_schemas
    by (auto simp: map_of_eq_None_iff)
  moreover have "{(k', rt, v) \<in> rows (roles s). k' \<noteq> k} = {x \<in> rows (roles s). fst x \<noteq> k}"
    by auto
  ultimately show ?thesis
    unfolding s'_def [symmetric] Let_def using ch shm rows alive by auto
qed

section \<open>Schema records\<close>

text \<open>What an operation that registers nothing does to the records: it keeps them or evicts owners.\<close>

definition evicts :: "HubState \<Rightarrow> HubState \<Rightarrow> bool" where
  "evicts s s' \<longleftrightarrow> (\<exists>U. ''hub'' \<notin> U \<and> schemas s' = filter (\<lambda>e. fst (fst e) \<notin> U) (schemas s))"

lemma evicts_same: "schemas s' = schemas s \<Longrightarrow> evicts s s'"
  by (auto simp: evicts_def intro: exI [of _ "{}"])

lemma bump_invalid_schemas [simp]: "schemas (bump_invalid_identifier s) = schemas s"
  by (simp add: bump_invalid_identifier_def)

lemma evicts_dispatch_all:
  assumes "schemas s1 = schemas s" and "roles s1 ''hub'' = None"
  shows "evicts s (dispatch_all t us s1)"
  unfolding evicts_def dispatch_all_schemas assms(1)
  using assms(2) by (intro exI [of _ "set us \<inter> dead_roles s1"]) (auto simp: dead_roles_def)

lemmas evicts_dispatch = evicts_dispatch_all [where us = "[u]" for u, simplified]

lemma admit_schemas: "schemas (snd (admit_producer_locked k si ti decl p t s)) = schemas s"
  by (auto simp: admit_producer_locked_def open_channel_locked_def Let_def split: option.split sum.split prod.split AddProducerResult.split)

lemma on_producer_added_schemas: "schemas (snd (on_producer_added k si ti decl p t s)) = schemas s"
  using admit_schemas [of k si ti decl p t s]
  by (auto simp: on_producer_added_def Let_def split: sum.split prod.split)

lemma add_consumer_schemas: "schemas (snd (add_consumer_locked k e decl osi oti t s)) = schemas s"
  by (auto simp: add_consumer_locked_def open_channel_locked_def Let_def split: option.split ChannelTopology.split prod.split)

lemma on_consumer_joined_schemas: "schemas (snd (on_consumer_joined k e decl osi oti t s)) = schemas s"
  using add_consumer_schemas [of k e decl osi oti t s] by (auto simp: on_consumer_joined_def split: prod.split)

lemma end_presence_hub: "roles s ''hub'' = None \<Longrightarrow> roles (end_presence k rt u s) ''hub'' = None"
  by (auto simp: end_presence_def split: option.split)

lemma fold_end_presence_hub: "roles s ''hub'' = None \<Longrightarrow> roles (fold (end_presence k rt) us s) ''hub'' = None"
  by (induction us arbitrary: s) (simp_all add: end_presence_hub)

lemma on_channel_closed_evicts:
  assumes "roles s1 ''hub'' = None" and "schemas s1 = schemas s"
  shows "evicts s (on_channel_closed k why t s1)"
  using assms by (auto simp: on_channel_closed_def Let_def fold_end_presence_hub
    intro!: evicts_dispatch_all intro: evicts_same simp del: fold_append split: option.split)

lemma on_producer_dropped_evicts: "roles s ''hub'' = None \<Longrightarrow> evicts s (snd (on_producer_dropped k u why t s))"
  by (auto simp: on_producer_dropped_def Let_def case_prod_beta end_presence_hub
    intro!: evicts_dispatch on_channel_closed_evicts intro: evicts_same split: option.split)

lemma on_consumer_left_evicts:
  assumes "roles s ''hub'' = None"
  shows "evicts s (on_consumer_left k u t s)"
proof -
  have "schemas (remove_consumer_locked k u s) = schemas s" "roles (remove_consumer_locked k u s) = roles s"
    by (simp_all add: remove_consumer_locked_def Let_def split: option.split)
  then show ?thesis
    using assms by (auto simp: on_consumer_left_def Let_def end_presence_hub intro!: evicts_dispatch intro: evicts_same)
qed

lemma hub_on_pending_timeout_evicts: "roles s ''hub'' = None \<Longrightarrow> evicts s (snd (hub_on_pending_timeout k u rt t s))"
  by (auto simp: hub_on_pending_timeout_def pending_timeout_consumer_def pending_timeout_producer_def Let_def case_prod_beta
    intro!: evicts_dispatch on_channel_closed_evicts intro: evicts_same split: option.split)

lemma quiet_schemas:
  "schemas (snd (hub_on_heartbeat k u rt when m t s)) = schemas s"
  "schemas (hub_on_heartbeat_timeout k u rt t s) = schemas s"
  "schemas (on_band_joined k mb t s) = schemas s" "schemas (on_band_left k u t s) = schemas s"
  "schemas (on_peer_connected pe t s) = schemas s" "schemas (on_peer_disconnected u s) = schemas s"
  "schemas (on_channel_access_opened k s) = schemas s" "schemas (on_channel_access_closed k s) = schemas s"
  "schemas (on_consumer_authorized k pk s) = schemas s" "schemas (on_consumer_revoked k pk s) = schemas s"
  "schemas (snd (on_role_confirmed k u v s)) = schemas s"
  "schemas (snd (hub_set_producer_zmq_node_endpoint k u ep s)) = schemas s"
  "schemas (snd (hub_set_channel_data_endpoint k ep s)) = schemas s"
  "schemas (snd (validate_schema_citation i s)) = schemas s" "schemas (on_message_processed key a b s) = schemas s"
  "schemas (bump_msg_type_error key n s) = schemas s" "schemas (snd (nonce_seen u nn w now s)) = schemas s"
  by (simp_all add: hub_on_heartbeat_def hub_on_heartbeat_timeout_def on_band_joined_def set_band_joined_def on_band_left_def
    set_band_left_def on_peer_connected_def set_peer_connected_def on_peer_disconnected_def set_peer_disconnected_def
    on_channel_access_opened_def on_channel_access_closed_def on_consumer_authorized_def on_consumer_revoked_def
    on_role_confirmed_def hub_set_producer_zmq_node_endpoint_def hub_set_channel_data_endpoint_def validate_schema_citation_def
    on_message_processed_def bump_msg_type_error_def nonce_seen_def Let_def case_prod_beta split: option.split)

lemma hub_not_a_role: "hub_inv s \<Longrightarrow> roles s ''hub'' = None"
proof -
  assume "hub_inv s"
  moreover have "parse_role_uid ''hub'' = None"
    by code_simp
  ultimately show ?thesis
    using roles_slackD [OF hub_invD(2), of s "''hub''"] by (cases "roles s ''hub''") (auto simp: role_wf_def)
qed

text \<open>One step: either an eviction, or the registration of a record under a new key.\<close>

lemma hub_step_schemas:
  assumes "hub_step s s'" and inv: "hub_inv s"
  shows "evicts s s' \<or> (\<exists>key r. map_of (schemas s) key = None \<and> schemas s' = AList.update key r (schemas s))"
  using assms(1)
proof cases
  case (hs_schema_registered r t)
  then show ?thesis
    by (auto simp: on_schema_registered_def intro: evicts_same split: option.splits if_splits)
next
  case (hs_schemas_evicted u)
  show ?thesis
  proof (cases "u = [] \<or> u = ''hub''")
    case True
    then show ?thesis
      using hs_schemas_evicted by (auto simp: on_schemas_evicted_for_owner_def intro: evicts_same)
  next
    case False
    then show ?thesis
      using hs_schemas_evicted by (auto simp: on_schemas_evicted_for_owner_def evict_schemas_def Let_def evicts_def
        intro!: exI [of _ "{u}"])
  qed
qed (auto intro!: disjI1 intro: evicts_same on_producer_dropped_evicts on_channel_closed_evicts on_consumer_left_evicts
    hub_on_pending_timeout_evicts evicts_dispatch hub_not_a_role [OF inv]
    simp: quiet_schemas on_producer_added_schemas on_consumer_joined_schemas)

text \<open>C28: a registered schema record is immutable. Whatever operation comes next, the record stays as it
  is, or every record of its owner is gone; the records of the hub itself never go.\<close>

theorem schema_records_immutable:
  assumes "hub_reachable s" and "hub_step s s'" and "map_of (schemas s) (ow, i) = Some r"
  shows "map_of (schemas s') (ow, i) = Some r \<or> ow \<noteq> ''hub'' \<and> (\<forall>i'. map_of (schemas s') (ow, i') = None)"
proof -
  from hub_step_schemas [OF assms(2) hub.reach_inv [OF assms(1)]] show ?thesis
  proof
    assume "evicts s s'"
    then obtain U where U: "''hub'' \<notin> U" "schemas s' = filter (\<lambda>e. fst (fst e) \<notin> U) (schemas s)"
      by (auto simp: evicts_def)
    show ?thesis
    proof (cases "ow \<in> U")
      case True
      then show ?thesis
        using U by (auto simp: map_of_eq_None_iff)
    next
      case False
      have "map_of (filter (\<lambda>e. fst (fst e) \<notin> U) ss) (ow, i) = map_of ss (ow, i)" for ss :: "((string \<times> string) \<times> SchemaRecord) list"
        using False by (induction ss) auto
      then show ?thesis
        using assms(3) U(2) by simp
    qed
  next
    assume "\<exists>key r. map_of (schemas s) key = None \<and> schemas s' = AList.update key r (schemas s)"
    then obtain key r' where key: "map_of (schemas s) key = None" "schemas s' = AList.update key r' (schemas s)"
      by blast
    then have "key \<noteq> (ow, i)"
      using assms(3) by auto
    then show ?thesis
      using assms(3) key(2) by (simp add: update_conv')
  qed
qed

section \<open>Witnesses\<close>

text \<open>A fan-in channel with two producers, and a registered schema record of the first one.\<close>

definition demo_invariants :: ChannelSchemaInvariants where
  "demo_invariants = \<lparr>si_schema_hash = ''00'', si_schema_id = [], si_schema_blds = ''x:f8:1:0'', si_schema_owner = [],
     si_flexzone_blds = []\<rparr>"

definition demo_now :: instant where "demo_now = \<lparr>steady = 100, wall = 1000\<rparr>"

definition demo_producer_entry :: "string \<Rightarrow> ProducerEntry" where
  "demo_producer_entry u = \<lparr>producer_pid = 7, producer_hostname = ''h'', p_zmq_identity = ''i'', p_role_name = ''cam'', p_role_uid = u,
     p_inbox_endpoint = [], p_inbox_schema_json = [], p_inbox_packing = [], p_inbox_checksum = [], zmq_node_endpoint = [],
     p_zmq_pubkey = u, shm_capability_endpoint = [], metadata = None, p_connected_at = 1000\<rparr>"

definition demo_add :: "string \<Rightarrow> HubState \<Rightarrow> HubState" where
  "demo_add u s = snd (on_producer_added ''lab.cam'' demo_invariants \<lparr>ti_data_transport = ''zmq''\<rparr> (Some FanIn)
     (demo_producer_entry u) demo_now s)"

definition demo_record :: SchemaRecord where
  "demo_record = \<lparr>sr_owner_uid = ''prod.cam.u1'', sr_schema_id = ''frame'', sr_hash = [1], packing = ''aligned'', blds = ''x:f8:1:0'',
     flexzone_packing = [], sr_flexzone_blds = [], registered_at = 0\<rparr>"

definition demo_hub :: HubState where
  "demo_hub = snd (on_schema_registered demo_record demo_now (demo_add ''prod.cam.u2'' (demo_add ''prod.cam.u1'' empty_hub)))"

lemma demo_hub_reachable: "hub_reachable demo_hub"
proof -
  have add: "hub_step s (demo_add u s)" for u s
    unfolding demo_add_def by (rule hs_producer_added)
  have "hub_reachable empty_hub"
    by (rule reach_init) simp
  then have "hub_reachable (demo_add ''prod.cam.u1'' empty_hub)"
    using add by (rule reach_step)
  then have "hub_reachable (demo_add ''prod.cam.u2'' (demo_add ''prod.cam.u1'' empty_hub))"
    using add by (rule reach_step)
  then show ?thesis
    unfolding demo_hub_def using hs_schema_registered by (rule reach_step)
qed

lemma demo_hub_channel:
  "map_option (\<lambda>c. (topology c, map p_role_uid (producers c), consumers c)) (channels demo_hub ''lab.cam'') =
     Some (FanIn, [''prod.cam.u1'', ''prod.cam.u2''], [])"
  by code_simp

lemma demo_hub_role: "map_option (\<lambda>r. map row_key (presences r)) (roles demo_hub ''prod.cam.u1'') = Some [(''lab.cam'', ''producer'')]"
  by code_simp

lemma demo_hub_schema: "map_option sr_hash (map_of (schemas demo_hub) (''prod.cam.u1'', ''frame'')) = Some [1]"
  by code_simp

theorem hub_state_well_formed_witness:
  "\<exists>c r. channels demo_hub ''lab.cam'' = Some c \<and> ch_name c = ''lab.cam'' \<and> transport_compatible FanIn (data_transport c)
     \<and> roles demo_hub ''prod.cam.u1'' = Some r \<and> role_uid r = ''prod.cam.u1'' \<and> presences r \<noteq> []"
proof -
  note wf = hub_state_well_formed [OF demo_hub_reachable]
  obtain c where c: "channels demo_hub ''lab.cam'' = Some c" "topology c = FanIn"
    using demo_hub_channel by auto
  obtain r where r: "roles demo_hub ''prod.cam.u1'' = Some r" "presences r \<noteq> []"
    using demo_hub_role by auto
  have "role_uid r = ''prod.cam.u1''"
    using wf [THEN conjunct2, THEN conjunct1, rule_format, OF r(1)] by simp
  then show ?thesis
    using wf [THEN conjunct1, rule_format, OF c(1)] c r by auto
qed

theorem hub_presence_consistent_witness:
  "is_role_registered_on_channel ''lab.cam'' ''prod.cam.u1'' ''producer'' demo_hub
     \<and> (\<exists>r. roles demo_hub ''prod.cam.u1'' = Some r \<and> find_presence ''lab.cam'' ''producer'' r \<noteq> None)"
proof -
  have "is_role_registered_on_channel ''lab.cam'' ''prod.cam.u1'' ''producer'' demo_hub"
    by code_simp
  moreover from this have "\<exists>r. roles demo_hub ''prod.cam.u1'' = Some r \<and> find_presence ''lab.cam'' ''producer'' r \<noteq> None"
    using hub_presence_consistent [OF demo_hub_reachable] by blast
  ultimately show ?thesis
    by blast
qed

theorem topology_cardinality_safe_witness:
  "\<exists>c. channels demo_hub ''lab.cam'' = Some c \<and> length (producers c) = 2 \<and> length (consumers c) \<le> 1"
proof -
  obtain c where c: "channels demo_hub ''lab.cam'' = Some c" "topology c = FanIn" "map p_role_uid (producers c) = [''prod.cam.u1'', ''prod.cam.u2'']"
    using demo_hub_channel by auto
  have "length (producers c) = 2"
    using arg_cong [OF c(3), of length] by simp
  then show ?thesis
    using topology_cardinality_safe [OF demo_hub_reachable c(1)] c by blast
qed

theorem channel_teardown_complete_witness:
  "channels (on_channel_closed ''lab.cam'' AdminClose demo_now demo_hub) ''lab.cam'' = None
   \<and> roles (on_channel_closed ''lab.cam'' AdminClose demo_now demo_hub) ''prod.cam.u1'' = None
   \<and> map_of (schemas (on_channel_closed ''lab.cam'' AdminClose demo_now demo_hub)) (''prod.cam.u1'', ''frame'') = None"
proof -
  obtain c where c: "channels demo_hub ''lab.cam'' = Some c" "map p_role_uid (producers c) = [''prod.cam.u1'', ''prod.cam.u2'']"
    using demo_hub_channel by auto
  then have u: "''prod.cam.u1'' \<in> set (map p_role_uid (producers c)) \<union> set (map c_role_uid (consumers c))"
    by simp
  have only: "\<not> (\<exists>k' rt. k' \<noteq> ''lab.cam'' \<and> (k', rt, ''prod.cam.u1'') \<in> rows (roles demo_hub))"
    using demo_hub_role by (auto simp: rows_def row_key_def)
  note closed = channel_teardown_complete [OF demo_hub_reachable c(1) u, unfolded Let_def, of AdminClose demo_now]
  have "''prod.cam.u1'' \<noteq> []"
    by simp
  note closed = closed [OF this]
  have "channels (on_channel_closed ''lab.cam'' AdminClose demo_now demo_hub) ''lab.cam'' = None"
    by (simp only: closed [THEN conjunct1] fun_upd_same)
  moreover have gone: "roles (on_channel_closed ''lab.cam'' AdminClose demo_now demo_hub) ''prod.cam.u1'' = None"
    using closed [THEN conjunct2, THEN conjunct2, THEN conjunct2, THEN conjunct1] only by argo
  ultimately show ?thesis
    using closed [THEN conjunct2, THEN conjunct2, THEN conjunct2, THEN conjunct2, rule_format, OF gone]
    by blast
qed

theorem schema_records_immutable_witness:
  "\<exists>r. map_of (schemas demo_hub) (''prod.cam.u1'', ''frame'') = Some r
     \<and> (map_of (schemas (on_channel_closed ''x'' AdminClose demo_now demo_hub)) (''prod.cam.u1'', ''frame'') = Some r
        \<or> (\<forall>i. map_of (schemas (on_channel_closed ''x'' AdminClose demo_now demo_hub)) (''prod.cam.u1'', i) = None))"
proof -
  obtain r where "map_of (schemas demo_hub) (''prod.cam.u1'', ''frame'') = Some r"
    using demo_hub_schema by auto
  then show ?thesis
    using schema_records_immutable [OF demo_hub_reachable hs_channel_closed [of demo_hub "''x''" AdminClose demo_now]] by blast
qed

end
