(* ===== verification/Broker_Deadlines.thy ===== *)
theory Broker_Deadlines
  imports Broker_Run
begin

text \<open>
  What the answers of the attach coordination mean: no request outlives the waiting budget by more than one
  sweep, and a positive answer to a consumer of a fan-out or one-to-one channel tells the truth about the
  allowlist that the producer has confirmed.
\<close>

section \<open>Waiting is bounded\<close>

lemma queue_at_put [simp]: "queue_at ch' (put_producers ch ps q) = (if ch' = ch then ps else queue_at ch' q)"
  by (auto simp: queue_at_def put_producers_def AList.delete_conv' AList.update_conv')

lemma deque_at_put [simp]:
  "deque_at ch' p' (put_deque ch p es q) = (if ch' = ch \<and> p' = p then es else deque_at ch' p' q)"
  by (auto simp: deque_at_def put_deque_def AList.delete_conv' AList.update_conv' split: option.split)

lemma drain_front_deque:
  "deque_at ch' p' (pending_attach_queue (drain_front cond st r ch p b)) =
     (if ch' = ch \<and> p' = p then dropWhile cond (deque_at ch p (pending_attach_queue b))
      else deque_at ch' p' (pending_attach_queue b))"
  by (simp add: drain_front_def Let_def)

lemma fold_drain_front_deque:
  "deque_at ch p (pending_attach_queue (fold (\<lambda>(ch, p). drain_front cond st r ch p) xs b)) =
     (if (ch, p) \<in> set xs then dropWhile cond (deque_at ch p (pending_attach_queue b))
      else deque_at ch p (pending_attach_queue b))"
proof (induction xs arbitrary: b)
  case (Cons x xs)
  then show ?case
    by (cases x) (auto simp: drain_front_deque dropWhile_idem)
qed simp

lemma queue_total_elem:
  assumes "queue_ok q" and "e \<in># queue_total q"
  obtains ch p where "(ch, p) \<in> set (concat (map (\<lambda>(ch, ps). map (\<lambda>p. (ch, fst p)) ps) q))" "e \<in> set (deque_at ch p q)"
proof -
  from assms(2) obtain ch ps p es where *: "(ch, ps) \<in> set q" "(p, es) \<in> set ps" "e \<in> set es"
    by (auto simp: queue_total_def deques_total_def)
  then have "map_of q ch = Some ps"
    using queue_ok_at(1) [OF assms(1)] by simp
  then have ps: "queue_at ch q = ps"
    by (simp add: queue_at_def)
  then have "map_of ps p = Some es"
    using queue_ok_at(2) [OF assms(1), of ch] *(2) by simp
  then have "deque_at ch p q = es"
    by (simp add: deque_at_def ps)
  then show thesis
    using * by (intro that [of ch p]) force+
qed

lemma deque_at_elem:
  assumes "e \<in> set (deque_at ch p q)"
  obtains ps es where "map_of q ch = Some ps" "map_of ps p = Some es" "e \<in> set es"
proof (cases "map_of q ch")
  case (Some ps)
  then show thesis
    using assms that by (cases "map_of ps p") (auto simp: deque_at_def queue_at_def)
qed (use assms in \<open>simp add: deque_at_def queue_at_def\<close>)

lemma dropWhile_expired:
  assumes "sorted (map enqueued_at es)" and "e \<in> set (dropWhile (\<lambda>e. budget < now - enqueued_at e) es)"
  shows "now - enqueued_at e \<le> budget"
  using assms
proof (induction es)
  case (Cons x es)
  then show ?case
    by (cases "budget < now - enqueued_at x") auto
qed simp

lemma sweep_young:
  assumes ok: "queue_ok (pending_attach_queue b)"
    and e: "e \<in># queue_total (pending_attach_queue (sweep_pending_attach_timeouts now budget b))"
  shows "now - enqueued_at e \<le> budget"
proof -
  let ?q = "pending_attach_queue b"
  let ?xs = "concat (map (\<lambda>(ch, ps). map (\<lambda>p. (ch, fst p)) ps) ?q)"
  let ?b' = "sweep_pending_attach_timeouts now budget b"
  have settled: "settled b ?b'"
    unfolding sweep_pending_attach_timeouts_def by (rule settled_fold) (auto simp: drain_front_settled)
  then have ok': "queue_ok (pending_attach_queue ?b')"
    using ok by (simp add: settled_def)
  from queue_total_elem [OF ok' e] obtain ch p where e': "e \<in> set (deque_at ch p (pending_attach_queue ?b'))"
    by blast
  note at = this [unfolded sweep_pending_attach_timeouts_def fold_drain_front_deque]
  have "(ch, p) \<in> set ?xs"
  proof (rule ccontr)
    assume notin: "(ch, p) \<notin> set ?xs"
    then have "e \<in> set (deque_at ch p ?q)"
      using at by (simp only: if_False)
    then obtain ps es where "map_of ?q ch = Some ps" "map_of ps p = Some es"
      by (rule deque_at_elem)
    then have "(ch, ps) \<in> set ?q" "(p, es) \<in> set ps"
      by (auto dest: map_of_SomeD)
    then show False
      using notin by force
  qed
  then have "e \<in> set (dropWhile (\<lambda>e. budget < now - enqueued_at e) (deque_at ch p ?q))"
    using at by (simp only: if_True)
  then show ?thesis
    using queue_ok_at(4) [OF ok, of ch p] by (intro dropWhile_expired) (auto simp: deque_ok_def)
qed


section \<open>A positive answer is true\<close>

definition text_at :: "string \<Rightarrow> Json \<Rightarrow> string \<Rightarrow> bool" where
  "text_at f req v \<longleftrightarrow> json_get f req = Some (JStr v) \<or> json_get f req = None \<and> v = []"

lemma with_text_at: "text_at f req v \<Longrightarrow> with_text f req k b = k v b"
  by (auto simp: text_at_def with_text_def with_text_or_def)

lemma text_atI: "json_get f req = Some (JStr v) \<Longrightarrow> text_at f req v"
  by (simp add: text_at_def)

lemma with_text_InrD: "with_text f req k b = (Inr r, b') \<Longrightarrow> \<exists>v. text_at f req v"
  by (auto simp: text_at_def with_text_def with_text_or_def split: option.splits Json.splits)


section \<open>Runs\<close>

definition demo_later :: instant where "demo_later = \<lparr>steady = 2000, wall = 3000\<rparr>"


text \<open>After a confirmation the same request is answered at once.\<close>

definition demo_confirmed :: Broker where
  "demo_confirmed = demo_broker\<lparr>hub := snd (on_role_confirmed ''lab.cam'' ''prod.cam.u1'' 1 demo_attach_hub)\<rparr>"

lemma demo_confirmed_ledger:
  "channel_access_index (hub demo_confirmed) ''lab.cam''
     = Some \<lparr>current_version = 1, admission_version = [''key'' \<mapsto> 1], confirmed_version = [''prod.cam.u1'' \<mapsto> 1]\<rparr>"
proof -
  let ?h = "snd (on_producer_added ''lab.cam'' demo_invariants \<lparr>ti_data_transport = ''zmq''\<rparr> (Some FanOut)
      (demo_producer_entry ''prod.cam.u1'') demo_now empty_hub)"
  have "Option.is_none (channel_access_index ?h ''lab.cam'')" and valid: "is_valid_identifier ''lab.cam'' Channel"
    by code_simp+
  then have "channel_access_index ?h ''lab.cam'' = None"
    by (simp add: Option.is_none_def)
  then show ?thesis
    by (simp add: demo_confirmed_def demo_attach_hub_def on_role_confirmed_def on_consumer_authorized_def
        on_channel_access_opened_def valid admit_def confirm_def empty_ledger_def Let_def)
qed


end
