(* ===== verification/Broker_Sweep.thy ===== *)
theory Broker_Sweep
  imports Broker_Run
begin

text \<open>
  What the liveness sweep does to the roles: a producer that has beaten within its time-out keeps its presence
  row untouched, whatever the sweep removes around it, and a silent producer is gone after two sweeps. The
  proofs follow one row through the operations.
\<close>

section \<open>One row under the operations of the hub\<close>

lemma fold_hub: "(\<And>x b. hub (f x b) = hub b) \<Longrightarrow> hub (fold f xs b) = hub b"
  by (induction xs arbitrary: b) auto

lemma find_remove_first_other: "(\<And>x. P x \<Longrightarrow> \<not> Q x) \<Longrightarrow> List.find P (remove_first Q xs) = List.find P xs"
  by (induction xs) auto

lemma find_update_first_other:
  "(\<And>x. P x \<Longrightarrow> \<not> Q x) \<Longrightarrow> (\<And>x. Q x \<Longrightarrow> \<not> P (f x)) \<Longrightarrow> List.find P (update_first Q f xs) = List.find P xs"
  by (induction xs) auto

lemma find_update_first_same:
  "(\<And>x. P x \<Longrightarrow> P (f x)) \<Longrightarrow> List.find P (update_first P f xs) = map_option f (List.find P xs)"
  by (induction xs) auto

abbreviation row_of :: "string \<times> string \<times> string \<Rightarrow> HubState \<Rightarrow> RolePresence option" where
  "row_of x s \<equiv> resolve_presence (fst x) (fst (snd x)) (snd (snd x)) s"

lemma row_cong: "roles s' = roles s \<Longrightarrow> row_of x s' = row_of x s"
  by (simp add: resolve_presence_def)

lemma row_frames [simp]:
  "row_of x (fire es s) = row_of x s" "row_of x (upd_counters f s) = row_of x s" "row_of x (bump_counter c n s) = row_of x s"
  "row_of x (bump_invalid_identifier s) = row_of x s" "row_of x (upd_channel k e s) = row_of x s"
  "row_of x (reset_confirmation k u s) = row_of x s" "row_of x (set_channel_closed k s) = row_of x s"
  "row_of x (s\<lparr>shm_blocks := m\<rparr>) = row_of x s"
  by (rule row_cong, simp add: bump_invalid_identifier_def)+

lemma row_upd_role: "row_of x (upd_role u r s) = (if snd (snd x) = u then find_presence (fst x) (fst (snd x)) r else row_of x s)"
  by (simp add: resolve_presence_def)

lemma row_in_rows: "row_of x s = None \<longleftrightarrow> x \<notin> rows (roles s)"
  by (cases x) (auto simp: resolve_presence_def rows_def find_presence_None bind_eq_None_conv)

lemma row_dereg:
  assumes "roles s u = Some r" and "x \<noteq> (k, rt, u)"
  shows "row_of x (upd_role u (snd (on_dereg k rt r)) s) = row_of x s"
    "row_of x (upd_role u (snd (drop_channel_if_orphaned k (snd (on_dereg k rt r)))) s) = row_of x s"
proof -
  have "find_presence (fst x) (fst (snd x)) (snd (on_dereg k rt r)) = find_presence (fst x) (fst (snd x)) r" if "snd (snd x) = u"
    using assms(2) that by (cases x) (auto simp: on_dereg_row find_presence_def intro: find_remove_first_other)
  moreover have "find_presence a b (snd (drop_channel_if_orphaned k r')) = find_presence a b r'" for a b r'
    by (simp add: find_presence_def)
  ultimately show "row_of x (upd_role u (snd (on_dereg k rt r)) s) = row_of x s"
    "row_of x (upd_role u (snd (drop_channel_if_orphaned k (snd (on_dereg k rt r)))) s) = row_of x s"
    using assms(1) by (auto simp: resolve_presence_def)
qed

lemma row_end_presence: "x \<noteq> (k, rt, u) \<Longrightarrow> row_of x (end_presence k rt u s) = row_of x s"
  by (auto simp: end_presence_def row_dereg split: option.split)

lemma row_fold_end_presence: "fst x \<noteq> k \<Longrightarrow> row_of x (fold (end_presence k rt) us s) = row_of x s"
proof (induction us arbitrary: s)
  case (Cons u us)
  then have "x \<noteq> (k, rt, u)"
    by auto
  then show ?case
    using Cons by (simp add: row_end_presence)
qed simp

lemma row_dispatch: "row_of x (dispatch_role_disconnected_if_dead u t s) = row_of x s"
  by (auto simp: dispatch_role_disconnected_if_dead_def any_presence_alive_def resolve_presence_def
      find_presence_def split: option.split)

lemma row_fold_dispatch: "row_of x (fold (\<lambda>u. dispatch_role_disconnected_if_dead u t) us s) = row_of x s"
  by (induction us arbitrary: s) (simp_all add: row_dispatch)

lemma row_closed: "fst x \<noteq> k \<Longrightarrow> row_of x (on_channel_closed k why t s) = row_of x s"
  by (simp add: on_channel_closed_def Let_def row_fold_dispatch row_fold_end_presence)

text \<open>The time-out of a pending row: other rows stay, unless the last producer takes its channel with it.\<close>

lemma pending_timeout_row:
  assumes "x \<noteq> (k, rt, u)" and rt: "rt \<in> {''producer'', ''consumer''}"
  shows "row_of x (snd (hub_on_pending_timeout k u rt t s)) = row_of x s
    \<or> fst x = k \<and> removed (fst (hub_on_pending_timeout k u rt t s)) \<and> channel_now_empty (fst (hub_on_pending_timeout k u rt t s))"
proof -
  have row: "find_presence (fst x) (fst (snd x)) (snd (on_pending_timeout k rt r)) = row_of x s"
    "find_presence (fst x) (fst (snd x)) (snd (drop_channel_if_orphaned k (snd (on_pending_timeout k rt r)))) = row_of x s"
    if "snd (snd x) = u" "roles s u = Some r" "fst (on_pending_timeout k rt r) = ToDisconnected" for r
    using row_dereg [OF that(2), of x k rt] pending_row [OF that(3)] that(1) assms by (auto simp: row_upd_role)
  have "row_of x (snd (pending_timeout_consumer k u t s)) = row_of x s" if "rt = ''consumer''"
    using row unfolding that
    by (auto simp: pending_timeout_consumer_def Let_def case_prod_beta row_dispatch row_upd_role split: option.split)
  moreover have "row_of x (snd (pending_timeout_producer k u t s)) = row_of x s
      \<or> fst x = k \<and> removed (fst (pending_timeout_producer k u t s)) \<and> channel_now_empty (fst (pending_timeout_producer k u t s))"
    if "rt = ''producer''"
  proof (cases "channels s k")
    case c: (Some c)
    show ?thesis
    proof (cases "roles s u")
      case r: (Some r)
      show ?thesis
        using row [OF _ r] unfolding that
        by (cases "fst x = k") (auto simp: pending_timeout_producer_def c r not_removed_def Let_def case_prod_beta row_dispatch
            row_upd_role row_closed)
    qed (simp add: pending_timeout_producer_def c)
  qed (simp add: pending_timeout_producer_def)
  ultimately show ?thesis
    using rt by (auto simp: hub_on_pending_timeout_def)
qed

lemma closed_channel: "is_valid_identifier k Channel \<Longrightarrow> channels (on_channel_closed k why t s) k = None"
  by (simp add: on_channel_closed_def Let_def dispatch_all_frame)

lemma pending_timeout_closes:
  assumes "removed (fst (hub_on_pending_timeout k u rt t s))" and "channel_now_empty (fst (hub_on_pending_timeout k u rt t s))"
  obtains c p where "channels s k = Some c" "producers c = [p]" "p_role_uid p = u"
    "channels (snd (hub_on_pending_timeout k u rt t s)) k = None"
proof -
  have valid: "is_valid_identifier k Channel" and call: "hub_on_pending_timeout k u rt t s = pending_timeout_producer k u t s"
    using assms
    by (auto simp: hub_on_pending_timeout_def not_removed_def pending_timeout_consumer_def Let_def case_prod_beta
        split: if_splits option.splits)
  obtain c r where c: "channels s k = Some c" and r: "roles s u = Some r"
    using assms(1) unfolding call by (auto simp: pending_timeout_producer_def not_removed_def split: option.splits)
  have last: "find_producer u c \<noteq> None" "length (producers c) = 1" "fst (on_pending_timeout k ''producer'' r) = ToDisconnected"
    using assms unfolding call
    by (auto simp: pending_timeout_producer_def c r not_removed_def Let_def case_prod_beta split: if_splits)
  then have "channels (snd (pending_timeout_producer k u t s)) k = None"
    by (simp add: pending_timeout_producer_def c r Let_def case_prod_beta closed_channel valid)
  moreover obtain p where "producers c = [p]" "p_role_uid p = u"
    using last(1,2) by (cases "producers c") (auto simp: find_producer_None)
  ultimately show thesis
    using c by (intro that) (simp_all add: call)
qed

lemma no_channel_no_row: "hub_inv s \<Longrightarrow> channels s k = None \<Longrightarrow> resolve_presence k rt u s = None"
  using row_in_rows [of "(k, rt, u)" s] no_row_without_channel [of s k rt u] by simp

lemma row_entry:
  assumes "hub_inv s" and "resolve_presence k rt u s = Some p"
  obtains c r where "channels s k = Some c" "(k, rt, u) \<in> entries_of k c" "is_valid_identifier k Channel" "is_valid_identifier u RoleUid"
    "roles s u = Some r" "find_presence k rt r = Some p" "distinct (row_keys r)"
proof -
  have "(k, rt, u) \<in> rows (roles s)"
    using assms(2) row_in_rows [of "(k, rt, u)" s] by simp
  then obtain c where c: "channels s k = Some c" "(k, rt, u) \<in> entries_of k c"
    using hub_invD(3) [OF assms(1)] by (auto simp: entries_iff)
  then have "channel_wf k c"
    using assms(1) by (auto intro: channels_wfD hub_invD)
  then have "is_valid_identifier k Channel" "is_valid_identifier u RoleUid"
    using c(2) by (auto simp: channel_wf_def entries_of_def)
  moreover obtain r where r: "roles s u = Some r" "find_presence k rt r = Some p"
    using assms(2) by (auto simp: resolve_presence_def bind_eq_Some_conv)
  ultimately show thesis
    using c roles_slackD [OF hub_invD(2) [OF assms(1)] r(1)] by (intro that) (auto simp: role_wf_def)
qed

lemma pending_timeout_self:
  assumes inv: "hub_inv s" and row: "resolve_presence k ''producer'' u s = Some p"
  shows "resolve_presence k ''producer'' u (snd (hub_on_pending_timeout k u ''producer'' t s)) = (if pr_state p = Pending then None else Some p)"
proof -
  obtain c r where c: "channels s k = Some c" "(k, ''producer'', u) \<in> entries_of k c" and valid: "is_valid_identifier k Channel"
      "is_valid_identifier u RoleUid" and r: "roles s u = Some r" "find_presence k ''producer'' r = Some p" "distinct (row_keys r)"
    using row_entry [OF assms] by blast
  have found: "find_producer u c \<noteq> None"
    using c(2) by (auto simp: entries_of_def find_producer_None named_def)
  note call = hub_on_pending_timeout_def valid pending_timeout_producer_def c(1) r(1,2) on_pending_timeout_def found
  show ?thesis
  proof (cases "pr_state p = Pending")
    case True
    show ?thesis
    proof (cases "length (producers c) = 1")
      case last: True
      then have "channels (snd (hub_on_pending_timeout k u ''producer'' t s)) k = None"
        using True found by (simp add: call Let_def closed_channel)
      then show ?thesis
        using True no_channel_no_row [OF hub_on_pending_timeout_inv [OF inv]] by simp
    next
      case False
      have "find_presence k ''producer'' (r\<lparr>presences := remove_first (is_presence k ''producer'') (presences r)\<rparr>) = None"
        unfolding find_presence_None row_keys_remove using r(3) by simp
      then show ?thesis
        using True False found row_dispatch [of "(k, ''producer'', u)"] row_frames [of "(k, ''producer'', u)"] row_upd_role [of "(k, ''producer'', u)"]
        by (simp add: call Let_def case_prod_beta) (simp add: find_presence_def)
    qed
  next
    case False
    then show ?thesis
      using row found by (simp add: call not_removed_def)
  qed
qed

text \<open>A row of a producer that is not pending outlives every time-out, and any row is kept or gone.\<close>

lemma producer_row_timeout:
  assumes inv: "hub_inv s" and row: "resolve_presence ch ''producer'' uid s = Some p" and rt: "rt \<in> {''producer'', ''consumer''}"
  shows "resolve_presence ch ''producer'' uid (snd (hub_on_pending_timeout k u rt t s))
    = (if (k, rt, u) = (ch, ''producer'', uid) \<and> pr_state p = Pending then None else Some p)"
proof (cases "(k, rt, u) = (ch, ''producer'', uid)")
  case True
  then show ?thesis
    using pending_timeout_self [OF inv row, of t] by simp
next
  case False
  let ?x = "(ch, ''producer'', uid)"
  have "row_of ?x (snd (hub_on_pending_timeout k u rt t s)) = row_of ?x s"
  proof (rule ccontr)
    assume "\<not> ?thesis"
    then have closed: "ch = k" "removed (fst (hub_on_pending_timeout k u rt t s))" "channel_now_empty (fst (hub_on_pending_timeout k u rt t s))"
      using pending_timeout_row [of ?x k rt u t s] False rt by auto
    then obtain c q where c: "channels s ch = Some c" "producers c = [q]" "p_role_uid q = u"
      using pending_timeout_closes by metis
    moreover have "uid \<in> set (puids c)"
      using row_entry [OF inv row(1)] c(1) by (auto simp: entries_of_def)
    moreover have "rt = ''producer''"
      using closed(2,3) rt
      by (auto simp: hub_on_pending_timeout_def pending_timeout_consumer_def not_removed_def Let_def case_prod_beta
          split: if_splits option.splits)
    ultimately show False
      using False \<open>ch = k\<close> by (simp add: named_def split: if_splits)
  qed
  then show ?thesis
    using row False by auto
qed

lemma no_row_timeout:
  assumes inv: "hub_inv s" and row: "resolve_presence ch ''producer'' uid s = None" and rt: "rt \<in> {''producer'', ''consumer''}"
  shows "resolve_presence ch ''producer'' uid (snd (hub_on_pending_timeout k u rt t s)) = None"
proof (cases "(k, rt, u) = (ch, ''producer'', uid)")
  case True
  then have "snd (hub_on_pending_timeout k u rt t s) \<in> {s, bump_invalid_identifier s}"
    using row by (auto simp: hub_on_pending_timeout_def pending_timeout_producer_def on_pending_timeout_def resolve_presence_def
        not_removed_def split: option.split)
  then show ?thesis
    using row row_frames(4) [of "(ch, ''producer'', uid)" s] by auto
next
  case False
  then consider "row_of (ch, ''producer'', uid) (snd (hub_on_pending_timeout k u rt t s)) = None"
    | "ch = k" "removed (fst (hub_on_pending_timeout k u rt t s))" "channel_now_empty (fst (hub_on_pending_timeout k u rt t s))"
    using pending_timeout_row [of "(ch, ''producer'', uid)" k rt u t s] rt row by auto
  then show ?thesis
  proof cases
    case 2
    then have "channels (snd (hub_on_pending_timeout k u rt t s)) ch = None"
      using pending_timeout_closes by metis
    then show ?thesis
      by (rule no_channel_no_row [OF hub_on_pending_timeout_inv [OF inv]])
  qed simp
qed

section \<open>The second pass\<close>

text \<open>What every operation of the second pass keeps, the second pass keeps.\<close>

locale reclaim_invariant =
  fixes Q :: "HubState \<Rightarrow> bool"
  assumes timeout_keeps: "Q s \<Longrightarrow> rt \<in> {''producer'', ''consumer''} \<Longrightarrow> Q (snd (hub_on_pending_timeout k u rt t s))"
    and access_closed_keeps: "Q s \<Longrightarrow> Q (on_channel_access_closed k s)"
    and revoked_keeps: "Q s \<Longrightarrow> Q (on_consumer_revoked k pk s)"
begin

lemma producer_drop_keeps: "Q (hub b) \<Longrightarrow> Q (hub (after_producer_drop ch u c e r b))"
  by (auto simp: after_producer_drop_def send_closing_notify_def upd_hub_def drain_pending_attach_queue_for_channel_denied_def
      drain_pending_attach_queue_for_producer_denied_def fold_hub access_closed_keeps)

lemma consumer_drop_keeps: "Q (hub b) \<Longrightarrow> Q (hub (after_consumer_drop ch e b))"
  by (auto simp: after_consumer_drop_def fire_channel_auth_changed_notify_def upd_hub_def revoked_keeps split: option.split)

lemma reclaim_producers_keeps: "Q (hub b) \<Longrightarrow> Q (hub (snd (reclaim_producers t c us b)))"
proof (induction us arbitrary: b)
  case (Cons u us)
  have "Q (snd (hub_on_pending_timeout (ch_name c) u ''producer'' t (hub b)))"
    using Cons.prems by (intro timeout_keeps) auto
  then show ?case
    using Cons.IH by (auto simp: Let_def producer_drop_keeps split: prod.split)
qed simp

lemma reclaim_consumer_keeps: "Q (hub b) \<Longrightarrow> Q (hub (reclaim_consumer t c e b))"
  using timeout_keeps [of "hub b" "''consumer''" "ch_name c" "c_role_uid e" t]
  by (auto simp: reclaim_consumer_def Let_def consumer_drop_keeps split: prod.split)

lemma fold_keeps: "(\<And>x b. Q (hub b) \<Longrightarrow> Q (hub (f x b))) \<Longrightarrow> Q (hub b) \<Longrightarrow> Q (hub (fold f xs b))"
  by (induction xs arbitrary: b) auto

lemma reclaim_channel_keeps: "Q (hub b) \<Longrightarrow> Q (hub (reclaim_channel tmo t snap ch b))"
  using reclaim_producers_keeps [of b t] fold_keeps [of "reclaim_consumer t c" for c]
  by (auto simp: reclaim_channel_def reclaim_consumer_keeps split: option.split prod.split)
    (metis snd_conv reclaim_consumer_keeps)+

lemma second_pass_keeps: "Q (hub b) \<Longrightarrow> Q (hub (fold (reclaim_channel tmo t snap) order b))"
  by (rule fold_keeps) (rule reclaim_channel_keeps)

end

lemma access_roles:
  "roles (on_channel_access_closed k s) = roles s" "roles (on_consumer_revoked k pk s) = roles s"
  by (auto simp: on_channel_access_closed_def on_consumer_revoked_def bump_invalid_identifier_def split: option.split)

lemma row_access:
  "resolve_presence ch rt uid (on_channel_access_closed k s) = resolve_presence ch rt uid s"
  "resolve_presence ch rt uid (on_consumer_revoked k pk s) = resolve_presence ch rt uid s"
  by (simp_all add: resolve_presence_def access_roles)

definition live_row :: "string \<Rightarrow> string \<Rightarrow> RolePresence \<Rightarrow> HubState \<Rightarrow> bool" where
  "live_row ch uid p s \<longleftrightarrow> hub_inv s \<and> resolve_presence ch ''producer'' uid s = Some p \<and> pr_state p \<noteq> Pending"

definition no_row :: "string \<Rightarrow> string \<Rightarrow> HubState \<Rightarrow> bool" where
  "no_row ch uid s \<longleftrightarrow> hub_inv s \<and> resolve_presence ch ''producer'' uid s = None"

definition row_or_none :: "string \<Rightarrow> string \<Rightarrow> RolePresence \<Rightarrow> HubState \<Rightarrow> bool" where
  "row_or_none ch uid p s \<longleftrightarrow> hub_inv s \<and> resolve_presence ch ''producer'' uid s \<in> {None, Some p}"

interpretation live: reclaim_invariant "live_row ch uid p" for ch uid p
  by unfold_locales (auto simp: live_row_def hub_on_pending_timeout_inv access_inv row_access producer_row_timeout)

interpretation gone: reclaim_invariant "no_row ch uid" for ch uid
  by unfold_locales (auto simp: no_row_def hub_on_pending_timeout_inv access_inv row_access no_row_timeout)

interpretation kept: reclaim_invariant "row_or_none ch uid p" for ch uid p
  by unfold_locales
    (auto simp: row_or_none_def hub_on_pending_timeout_inv access_inv row_access no_row_timeout producer_row_timeout
      split: if_splits)

text \<open>The loop over the producers of a channel removes every pending row it is given.\<close>

lemma reclaim_producers_removes:
  assumes "row_or_none (ch_name c) uid p (hub b)" and "pr_state p = Pending" and "uid \<in> set us"
  shows "no_row (ch_name c) uid (hub (snd (reclaim_producers t c us b)))"
  using assms(1,3)
proof (induction us arbitrary: b)
  case (Cons u us)
  obtain dr h where call: "hub_on_pending_timeout (ch_name c) u ''producer'' t (hub b) = (dr, h)"
    by fastforce
  let ?b1 = "b\<lparr>hub := h\<rparr>"
  have inv: "hub_inv (hub b)"
    using Cons.prems(1) by (simp add: row_or_none_def)
  have row: "row_or_none (ch_name c) uid p h"
    using kept.timeout_keeps [OF Cons.prems(1), of "''producer''" "ch_name c" u t] by (simp add: call)
  show ?case
  proof (cases "removed dr \<and> channel_now_empty dr")
    case True
    then have "channels h (ch_name c) = None"
      using pending_timeout_closes [of "ch_name c" u "''producer''" t "hub b"] by (auto simp: call)
    then have "no_row (ch_name c) uid h"
      using row by (simp add: no_row_def row_or_none_def no_channel_no_row)
    then show ?thesis
      using True gone.producer_drop_keeps [of "ch_name c" uid ?b1] by (simp add: call)
  next
    case False
    let ?b2 = "if removed dr then after_producer_drop (ch_name c) u c False ''pending_timeout'' ?b1 else ?b1"
    have b2: "snd (reclaim_producers t c (u # us) b) = snd (reclaim_producers t c us ?b2)"
      using False by (auto simp: call Let_def)
    show ?thesis
    proof (cases "u = uid")
      case True
      have "no_row (ch_name c) uid h"
        using inv row Cons.prems(1) producer_row_timeout [OF inv, of "ch_name c" uid p "''producer''" "ch_name c" u t] assms(2)
          no_row_timeout [OF inv, of "ch_name c" uid "''producer''" "ch_name c" u t] True
        unfolding True call [unfolded True] by (auto simp: no_row_def row_or_none_def)
      then have "no_row (ch_name c) uid (hub ?b2)"
        using gone.producer_drop_keeps [of "ch_name c" uid ?b1] by auto
      then show ?thesis
        unfolding b2 by (rule gone.reclaim_producers_keeps)
    next
      case False
      have "row_or_none (ch_name c) uid p (hub ?b2)"
        using row kept.producer_drop_keeps [of "ch_name c" uid p ?b1] by auto
      then show ?thesis
        unfolding b2 using Cons.prems(2) False by (intro Cons.IH) auto
    qed
  qed
qed simp

lemma second_pass_removes:
  assumes row: "row_or_none ch uid p (hub b)" and snap: "snap = hub b" and p: "pending_expired (steady t) tmo p" and ch: "ch \<in> set order"
  shows "no_row ch uid (hub (fold (reclaim_channel tmo t snap) order b))"
proof (cases "resolve_presence ch ''producer'' uid snap")
  case None
  then show ?thesis
    using row snap by (intro gone.second_pass_keeps) (simp add: no_row_def row_or_none_def)
next
  case (Some q)
  then have q: "q = p" and inv: "hub_inv snap"
    using row snap by (auto simp: row_or_none_def)
  obtain c where c: "channels snap ch = Some c" "(ch, ''producer'', uid) \<in> entries_of ch c"
    using row_entry [OF inv Some] by blast
  then have name: "ch_name c = ch"
    using channels_wfD [OF hub_invD(1) [OF inv]] by (auto simp: channel_wf_def)
  have mem: "uid \<in> set (producers_matching (pending_expired (steady t) tmo) c snap)"
    using c(2) p Some by (auto simp: producers_matching_def matches_def name q entries_of_def named_def)
  have removes: "no_row ch uid (hub (reclaim_channel tmo t snap ch b'))" if b': "row_or_none ch uid p (hub b')" for b'
  proof -
    have 1: "no_row ch uid (hub (snd (reclaim_producers t c (producers_matching (pending_expired (steady t) tmo) c snap) b')))"
      using reclaim_producers_removes [of c uid p b'] b' mem p by (simp add: name pending_expired_def)
    then have "no_row ch uid (hub (fold (reclaim_consumer t c) es
        (snd (reclaim_producers t c (producers_matching (pending_expired (steady t) tmo) c snap) b'))))" for es
      by (rule gone.fold_keeps [rotated]) (rule gone.reclaim_consumer_keeps)
    with 1 show ?thesis
      by (auto simp: reclaim_channel_def c(1) split: prod.split)
  qed
  obtain o1 o2 where order: "order = o1 @ ch # o2"
    using ch by (auto simp: in_set_conv_decomp)
  have "row_or_none ch uid p (hub (fold (reclaim_channel tmo t snap) o1 b))"
    using row by (rule kept.second_pass_keeps)
  from gone.second_pass_keeps [OF removes [OF this]] show ?thesis
    by (simp add: order)
qed

section \<open>The first pass\<close>

definition demote :: "int \<Rightarrow> RolePresence \<Rightarrow> RolePresence" where
  "demote now p = p\<lparr>pr_state := Pending, state_since := now\<rparr>"

lemma heartbeat_timeout_row:
  assumes "x \<noteq> (k, rt, u)"
  shows "row_of x (hub_on_heartbeat_timeout k u rt t s) = row_of x s"
proof -
  have "find_presence (fst x) (fst (snd x)) (snd (on_heartbeat_timeout k rt now r)) = row_of x s"
    if "snd (snd x) = u" "roles s u = Some r" for now r
    using that assms
    by (cases x) (auto simp: on_heartbeat_timeout_def find_presence_def resolve_presence_def split: option.split
        intro: find_update_first_other)
  then show ?thesis
    by (auto simp: hub_on_heartbeat_timeout_def Let_def case_prod_beta row_upd_role split: option.split)
qed

lemma heartbeat_timeout_self:
  assumes inv: "hub_inv s" and row: "resolve_presence k ''producer'' u s = Some p"
  shows "resolve_presence k ''producer'' u (hub_on_heartbeat_timeout k u ''producer'' t s)
    = Some (if pr_state p = Connected then demote (steady t) p else p)"
proof -
  obtain c r where valid: "is_valid_identifier k Channel" "is_valid_identifier u RoleUid"
      and r: "roles s u = Some r" "find_presence k ''producer'' r = Some p"
    using row_entry [OF assms] by blast
  have "u \<noteq> []"
    using valid(2) by (rule valid_role_nonempty)
  note frames = row_frames [of "(k, ''producer'', u)", simplified] row_upd_role [of "(k, ''producer'', u)", simplified]
  have "find_presence k ''producer'' (r\<lparr>presences := update_first (is_presence k ''producer'')
      (\<lambda>p. p\<lparr>pr_state := Pending, state_since := steady t\<rparr>) (presences r)\<rparr>) = Some (demote (steady t) p)"
    using r(2) find_update_first_same [of "is_presence k ''producer''" "\<lambda>p. p\<lparr>pr_state := Pending, state_since := steady t\<rparr>"]
    by (simp add: find_presence_def demote_def)
  then show ?thesis
    using row valid \<open>u \<noteq> []\<close>
    by (auto simp: hub_on_heartbeat_timeout_def on_heartbeat_timeout_def r Let_def frames split: option.split)
qed

lemma fold_heartbeat_timeout:
  fixes xs
  assumes "hub_inv s" and "resolve_presence ch ''producer'' uid s = Some q" and "pr_state p = Connected" and "q \<in> {p, demote (steady t) p}"
  defines "s' \<equiv> fold (\<lambda>(k, u, rt). hub_on_heartbeat_timeout k u rt t) xs s"
  shows "hub_inv s' \<and> resolve_presence ch ''producer'' uid s'
    = Some (if (ch, uid, ''producer'') \<in> set xs then demote (steady t) p else q)"
  using assms(1,2,4) unfolding s'_def
proof (induction xs arbitrary: s q)
  case (Cons x xs)
  obtain k u rt where x: "x = (k, u, rt)"
    by (cases x)
  let ?s1 = "hub_on_heartbeat_timeout k u rt t s"
  have "hub_inv ?s1"
    using Cons.prems(1) by (rule hub_on_heartbeat_timeout_inv)
  moreover have "resolve_presence ch ''producer'' uid ?s1 = Some (if x = (ch, uid, ''producer'') then demote (steady t) p else q)"
    using heartbeat_timeout_row [of "(ch, ''producer'', uid)" k rt u t s] heartbeat_timeout_self [OF Cons.prems(1,2), of t]
      Cons.prems(2,3) assms(3) by (auto simp: x demote_def)
  ultimately show ?case
    using Cons.IH [of ?s1 "if x = (ch, uid, ''producer'') then demote (steady t) p else q"] Cons.prems(3) by (auto simp: x)
qed simp

lemma first_pass_row:
  assumes inv: "hub_inv s" and row: "resolve_presence ch ''producer'' uid s = Some p" and p: "pr_state p = Connected"
    and ch: "ch \<in> set order"
  shows "hub_inv (sweep_pass1 tmo t order s) \<and> resolve_presence ch ''producer'' uid (sweep_pass1 tmo t order s)
    = Some (if ready_expired (steady t) tmo p then demote (steady t) p else p)"
proof -
  let ?of = "\<lambda>ch. case channels s ch of None \<Rightarrow> []
      | Some c \<Rightarrow> map (\<lambda>u. (ch_name c, u, ''producer'')) (producers_matching (ready_expired (steady t) tmo) c s)
          @ map (\<lambda>e. (ch_name c, c_role_uid e, ''consumer'')) (consumers_matching (ready_expired (steady t) tmo) c s)"
  obtain c where c: "channels s ch = Some c" "(ch, ''producer'', uid) \<in> entries_of ch c"
    using row_entry [OF inv row] by blast
  have name: "ch_name c' = k" if "channels s k = Some c'" for k c'
    using channels_wfD [OF hub_invD(1) [OF inv] that] by (simp add: channel_wf_def)
  have "uid \<in> set (map p_role_uid (producers c))"
    using c(2) by (auto simp: entries_of_def named_def)
  then have "(ch, uid, ''producer'') \<in> set (?of ch) \<longleftrightarrow> ready_expired (steady t) tmo p"
    using row name [OF c(1)] by (auto simp: c(1) producers_matching_def matches_def)
  moreover have "(ch, uid, ''producer'') \<in> set (?of k) \<Longrightarrow> ready_expired (steady t) tmo p" for k
    using row by (auto simp: producers_matching_def matches_def dest!: name split: option.splits)
  ultimately have "(ch, uid, ''producer'') \<in> set (concat (map ?of order)) \<longleftrightarrow> ready_expired (steady t) tmo p"
    using ch by auto
  then show ?thesis
    unfolding sweep_pass1_def using fold_heartbeat_timeout [OF inv row p, of t "concat (map ?of order)"] by simp
qed

lemma heartbeat_timeout_pending:
  assumes "row_or_none ch uid p s" and "pr_state p = Pending"
  shows "row_or_none ch uid p (hub_on_heartbeat_timeout k u rt t s)"
proof -
  have inv: "hub_inv s"
    using assms(1) by (simp add: row_or_none_def)
  have "resolve_presence ch ''producer'' uid (hub_on_heartbeat_timeout k u rt t s) = resolve_presence ch ''producer'' uid s"
  proof (cases "(k, rt, u) = (ch, ''producer'', uid)")
    case True
    show ?thesis
    proof (cases "resolve_presence ch ''producer'' uid s")
      case None
      then have "hub_on_heartbeat_timeout ch uid ''producer'' t s \<in> {s, bump_invalid_identifier s}"
        by (auto simp: hub_on_heartbeat_timeout_def on_heartbeat_timeout_def resolve_presence_def split: option.split)
      then show ?thesis
        using True row_frames(4) [of "(ch, ''producer'', uid)" s] by auto
    next
      case (Some q)
      then show ?thesis
        using True assms heartbeat_timeout_self [OF inv Some, of t] by (auto simp: row_or_none_def)
    qed
  next
    case False
    then show ?thesis
      using heartbeat_timeout_row [of "(ch, ''producer'', uid)" k rt u t s] by auto
  qed
  then show ?thesis
    using assms(1) hub_on_heartbeat_timeout_inv [OF inv] by (simp add: row_or_none_def)
qed

lemma first_pass_pending:
  assumes "row_or_none ch uid p s" and "pr_state p = Pending"
  shows "row_or_none ch uid p (sweep_pass1 tmo t order s)"
proof -
  have "row_or_none ch uid p (fold (\<lambda>(k, u, rt). hub_on_heartbeat_timeout k u rt t) xs s)" for xs
    using assms(1)
  proof (induction xs arbitrary: s)
    case (Cons x xs)
    then show ?case
      using heartbeat_timeout_pending [OF _ assms(2)] by (cases x) simp
  qed simp
  then show ?thesis
    unfolding sweep_pass1_def .
qed

section \<open>The sweep\<close>

lemma no_row_unregistered:
  assumes "no_row ch uid s"
  shows "\<not> is_role_registered_on_channel ch uid ''producer'' s"
proof
  assume "is_role_registered_on_channel ch uid ''producer'' s"
  then have "(ch, ''producer'', uid) \<in> entries (channels s)"
    by (auto simp: is_role_registered_on_channel_def entries_iff entries_of_def named_def list_ex_iff split: if_splits option.splits)
  then show False
    using assms row_in_rows [of "(ch, ''producer'', uid)" s] by (simp add: no_row_def hub_inv_def)
qed

lemma sweep_hub:
  "hub (check_heartbeat_timeouts cfg t order1 order2 b) =
     (let b2 = upd_hub (sweep_pass1 (effective_ready_timeout cfg) t order1)
         (sweep_pending_attach_timeouts (steady t) (effective_producer_apply_wait cfg) b)
      in hub (fold (reclaim_channel (effective_pending_timeout cfg) t (hub b2)) order2 b2))"
  by (simp add: check_heartbeat_timeouts_def Let_def)

lemma sweep_attach_hub [simp]: "hub (sweep_pending_attach_timeouts now budget b) = hub b"
  unfolding sweep_pending_attach_timeouts_def by (rule fold_hub) (auto split: prod.split)

text \<open>C25: a producer that has beaten within the ready time-out survives a sweep with its presence row
  untouched, whichever other roles the sweep demotes or removes.\<close>

theorem live_producer_survives_sweep:
  assumes "hub_inv (hub b)" and "resolve_presence ch ''producer'' uid (hub b) = Some p"
    and "pr_state p = Connected" and "steady t - last_heartbeat p < effective_ready_timeout cfg" and "ch \<in> set order1"
  shows "resolve_presence ch ''producer'' uid (hub (check_heartbeat_timeouts cfg t order1 order2 b)) = Some p"
proof -
  have "\<not> ready_expired (steady t) (effective_ready_timeout cfg) p"
    using assms(4) by (simp add: ready_expired_def)
  then have "live_row ch uid p (sweep_pass1 (effective_ready_timeout cfg) t order1 (hub b))"
    using first_pass_row [OF assms(1-3,5)] assms(3) by (simp add: live_row_def)
  then show ?thesis
    using live.second_pass_keeps [of ch uid p] by (simp add: sweep_hub Let_def upd_hub_def live_row_def)
qed


section \<open>Heartbeats of processors\<close>

lemma heartbeat_tier:
  assumes "validate_tier tr ctx env s = (ValidatedHeartbeatNotify env' body, s')"
  shows "tr = Some T_Control_HeartbeatNotify"
proof (cases tr)
  case (Some tier)
  then show ?thesis
    using assms
    by (cases tier) (auto simp: validate_defs validate_with_def rejection_with_envelope_def envelope_only_def
        envelope_with_role_uid_def envelope_with_query_role_uid_def Let_def split: sum.splits prod.splits option.splits if_splits)
qed (use assms in \<open>simp add: envelope_only_def\<close>)

lemma heartbeat_type: "lookup_tier m = Some T_Control_HeartbeatNotify \<Longrightarrow> m = ''HEARTBEAT_NOTIFY''"
  by (auto simp: lookup_tier_def kDispatchTable_def split: if_splits)

lemma text_of_Some: "text_of f body = v \<Longrightarrow> v \<noteq> [] \<Longrightarrow> json_get f body = Some (JStr v)"
  by (auto simp: text_of_def read_string_def split: option.splits Json.splits)

lemma with_text_state: "(\<And>v. snd (k v b) = b) \<Longrightarrow> snd (with_text f req k b) = b"
  by (auto simp: with_text_def with_text_or_def split: option.split Json.split)

text \<open>C27: no heartbeat of a processor has an effect. The gate lets a uid with the tag of processors pass only
  with the role type processor; the handler drops every message whose role type is neither producer nor
  consumer. So whatever a processor sends, its rows are never refreshed and the sweep reclaims it.\<close>

theorem processor_heartbeat_ignored:
  assumes "receive_and_validate blake2b json_parse ctx raw s = (ValidatedHeartbeatNotify env body, s')"
    and "extract_short_tag (text_of ''role_uid'' body) = Some ''proc''"
  shows "snd (handle_heartbeat_req store t body b) = b"
proof -
  obtain env' where env': "validate_tier (lookup_tier (env_msg_type env')) ctx env' s = (ValidatedHeartbeatNotify env body, s')"
    using assms(1) by (auto simp: receive_and_validate_def split: sum.splits)
  note tier = heartbeat_tier [OF env']
  have gates: "run_control_gates env' \<lparr>cv_role_uid = text_of ''role_uid'' body, cv_channel_name = text_of ''channel_name'' body,
      cv_role_type = text_of ''role_type'' body\<rparr> = None"
    using env' unfolding tier
    by (auto simp: validate_defs validate_with_def rejection_with_envelope_def split: sum.splits option.splits)
  have "extract_short_tag [] = None"
    by code_simp
  then have "text_of ''role_uid'' body \<noteq> []"
    using assms(2) by auto
  then have "gate_role_tag_policy ''HEARTBEAT_NOTIFY'' (text_of ''role_uid'' body) (text_of ''role_type'' body) = None"
    using gates heartbeat_type [OF tier] by (auto simp: run_control_gates_def Let_def split: if_splits option.splits)
  then have "text_of ''role_type'' body = ''processor''"
    using assms(2) by (auto simp: gate_role_tag_policy_def heartbeat_tag_def split: if_splits option.splits)
  then have rtype: "json_get ''role_type'' body = Some (JStr ''processor'')"
    by (rule text_of_Some) simp
  then have "with_text ''role_type'' body k b = k ''processor'' b" for k :: "string \<Rightarrow> Broker \<Rightarrow> (string + unit) \<times> Broker"
    by (simp add: with_text_def with_text_or_def)
  moreover have "\<not> heartbeat_tag_ok ''processor'' u" for u
    by (simp add: heartbeat_tag_ok_def Let_def)
  ultimately show ?thesis
    unfolding handle_heartbeat_req_def by (intro with_text_state) (simp add: with_text_state)
qed

section \<open>Runs\<close>

definition demo_fan_in :: Broker where
  "demo_fan_in = \<lparr>hub = demo_hub, pending_attach_queue = [], sent = []\<rparr>"

lemma demo_fan_in_inv: "hub_inv (hub demo_fan_in)"
  using hub.reach_inv [OF demo_hub_reachable] by (simp add: demo_fan_in_def)

lemma demo_fan_in_row:
  "resolve_presence ''lab.cam'' ''producer'' ''prod.cam.u1'' (hub demo_fan_in) = Some (new_presence ''lab.cam'' ''producer'' 100)"
  by code_simp

theorem live_producer_survives_sweep_witness:
  "resolve_presence ''lab.cam'' ''producer'' ''prod.cam.u1''
     (hub (check_heartbeat_timeouts demo_broker_config \<lparr>steady = 2000, wall = 3000\<rparr> [''lab.cam''] [''lab.cam''] demo_fan_in))
   = Some (new_presence ''lab.cam'' ''producer'' 100)"
  by (rule live_producer_survives_sweep [OF demo_fan_in_inv demo_fan_in_row])
    (simp_all add: new_presence_def demo_broker_config_def effective_ready_timeout_def)


definition demo_beat :: Json where
  "demo_beat = JObj [(''channel_name'', JStr ''lab.cam''), (''envelope_hash'', JStr (bytes_to_hex ''proc.fft.u5HEARTBEAT_NOTIFY'')),
     (''role_type'', JStr ''processor''), (''role_uid'', JStr ''proc.fft.u5'')]"

theorem processor_heartbeat_ignored_witness:
  "(\<exists>env body. fst (receive_and_validate (\<lambda>x. x) (\<lambda>x. Some demo_beat) (broker_context [] 100 5100)
       [''proc.fft.u5'', ''C'', ''HEARTBEAT_NOTIFY'', [], ''x''] empty_hub) = ValidatedHeartbeatNotify env body)
   \<and> snd (handle_heartbeat_req (\<lambda>j. None) demo_now demo_beat demo_fan_in) = demo_fan_in"
proof -
  let ?call = "receive_and_validate (\<lambda>x. x) (\<lambda>x. Some demo_beat) (broker_context [] 100 5100)
       [''proc.fft.u5'', ''C'', ''HEARTBEAT_NOTIFY'', [], ''x''] empty_hub"
  have *: "fst ?call = ValidatedHeartbeatNotify \<lparr>env_identity = ''proc.fft.u5'', env_msg_type = ''HEARTBEAT_NOTIFY'',
      env_correlation_id = [], env_body = demo_beat\<rparr> demo_beat"
    by code_simp
  obtain s' where "?call = (fst ?call, s')"
    by (metis prod.collapse)
  moreover have "extract_short_tag (text_of ''role_uid'' demo_beat) = Some ''proc''"
    by code_simp
  ultimately have "snd (handle_heartbeat_req (\<lambda>j. None) demo_now demo_beat demo_fan_in) = demo_fan_in"
    using processor_heartbeat_ignored [of "\<lambda>x. x" "\<lambda>x. Some demo_beat"] unfolding * by metis
  then show ?thesis
    using * by blast
qed

end
