(* ===== verification/Spec2Isabelle.thy ===== *)
theory Spec2Isabelle
  imports Slot_Interleaving Ring_Policies Shm_Integrity Shm_Spinlock Broker_Deadlines Broker_Sweep
begin

text \<open>
  pylabhub moves measurement data between processes of one machine or network. A hub process runs a
  broker, with which producers and consumers register under role identifiers on channels; data flows
  beside the broker, through blocks of shared memory or over sockets. This library models the two
  parts that carry the program's own logic: the shared-memory data block (\<open>src/src/utils/shm\<close>) and the
  control plane of the broker (\<open>src/src/utils/ipc\<close>, \<open>src/src/utils/network_comm\<close>).

  \<^bold>\<open>Conventions.\<close> Structures are records with the source's field names, enumerations datatypes, machine
  integers words of their width. An operation is a function from its arguments and the state it changes
  to its result and the new state; errors are values (\<open>Inl\<close>, \<open>None\<close>, or a result enumeration). What other
  processes do between two accesses of shared memory is an argument (an environment) or a step relation.
  Clocks are arguments. The hash functions, the JSON parser and printer, and the answer whether a process
  is alive are parameters. Logging and the text of messages are left out.

  \<^bold>\<open>Theories.\<close>

  \<^item> \<open>Prelude\<close>: word types, lemma collections and generic lemmas on words, lists and association lists.

  \<^item> \<open>Shm_Types\<close>, \<open>Shm_Layout\<close>: the header and slot records of \<open>data_block.hpp\<close>, the layout of a segment, its
    creation and the checks of an attacher (\<open>data_block.cpp\<close>, \<open>data_block_schema.cpp\<close>).

  \<^item> \<open>Slot_Ops\<close>: the slot protocol of \<open>data_block_slot_ops.cpp\<close>, call by call, against an environment.
    \<open>Slot_Interleaving\<close>: the same code as single atomic accesses of any number of writers and readers, with
    crashes; mutual exclusion and stability of reads by invariants over all interleavings.

  \<^item> \<open>Shm_Segment\<close>, \<open>Ring_Buffer\<close>, \<open>Ring_Fifo\<close>, \<open>Ring_Policies\<close>: buffers, checksums and bounded copies, the ring of
    slots with its three consumer policies, its refinement of a bounded queue, and what the policies
    with several consumers do.

  \<^item> \<open>Shm_Attach\<close>, \<open>Shm_Recovery\<close>, \<open>Shm_Integrity\<close>: factories and the name space of blocks, the recovery C
    API and the integrity check with repair (\<open>data_block_recovery.cpp\<close>, \<open>data_block_c_api.cpp\<close>).

  \<^item> \<open>Shm_Spinlock\<close>: the shared spin lock (\<open>shared_memory_spinlock.cpp\<close>) as calls and as atomic steps.

  \<^item> \<open>Hub_Naming\<close>, \<open>Hub_Ledger\<close>, \<open>Replay_Guard\<close>: the identifier grammar (\<open>naming.cpp\<close>), the versioned admission
    ledger and the replay guard, each with its specification.

  \<^item> \<open>Hub_Types\<close>, \<open>Hub_State\<close>, \<open>Hub_Invariant\<close>, \<open>Hub_Reach\<close>: the state of the hub (\<open>hub_state.hpp\<close>,
    \<open>hub_state.cpp\<close>), every operation the broker calls on it, the invariant of that state, and its
    preservation along every sequence of operations.

  \<^item> \<open>Wire_Envelope\<close>, \<open>Wire_Dispatch\<close>: the frames of the control plane, the stamp that binds them, the typed
    bodies, the admission gates and the dispatch table (\<open>wire_envelope.cpp\<close>, \<open>wire_bodies.cpp\<close>,
    \<open>admission_gates.cpp\<close>, \<open>wire_dispatch.cpp\<close>).

  \<^item> \<open>Broker_Attach\<close>, \<open>Broker_Liveness\<close>, \<open>Broker_Run\<close>: handlers of the broker (\<open>broker_service.cpp\<close>) over its state, the
    hub state, the queue of deferred attach answers and the messages sent: attach coordination,
    departures, heartbeats, the liveness sweep, requested closes, and the branches of \<open>process_message\<close> that
    call them. \<open>Broker_Run\<close> and \<open>Broker_Deadlines\<close> show that attach requests are answered exactly once, in time
    and truthfully, \<open>Broker_Sweep\<close> what the sweep keeps and removes.

  \<^bold>\<open>How the parts meet.\<close> The ring calls the slot protocol and the segment, the factories call the layout
  and the ring, and recovery works on the same records. On the control plane a frame list is parsed,
  dispatched and passed through the gates, which consult the replay guard inside the hub state; what the
  gates admit reaches the handlers, which change the hub state. Locales state the contracts that several
  parts share and are interpreted on the model's own definitions: rounding to pages and cache lines,
  invariants of step relations (slots, spin lock, hub), the simulation of the bounded queue by the ring,
  and what the second pass of the sweep keeps.

  \<^bold>\<open>Loops.\<close> Loops over lists are structural. The spin loops of slots and of the spin lock may run forever;
  they are partial functions to \<open>option\<close>, and that they return, with which result and under which clock
  or environment, is a theorem of its own.

  \<^bold>\<open>Not modelled.\<close> The broker's handlers of registration, discovery, endpoints, schemas, bands, broadcasts, queries
  and federation (the hub operations they call are modelled), its poll loop. Operating-system calls that create, map and unlink memory beyond their effect on the name
  space; the sockets and threads of the transport and of the data queues; the scripting engines, which bind
  interpreters; vaults, file locks and key storage, which are calls of libsodium and the file system;
  configuration loading, logging and the executables, which are I/O around the parts above.
\<close>

end
